(* ===== verification/JsDate.thy ===== *)
theory JsDate
  imports Prelude
begin

text \<open>
  The proleptic Gregorian calendar of JavaScript's Date in UTC, as the code uses it:
  MakeDay (with month and day overflow), the UTC fields of an instant, toISOString for the
  years 0000 to 9999 and Date.parse on the ISO forms the code accepts. Instants are
  milliseconds. The main lemma is the round trip between a day number and its civil date.
\<close>

section \<open>Civil calendar\<close>

definition ms_per_day :: int where
  "ms_per_day = 86400000"

definition is_leap :: "int \<Rightarrow> bool" where
  "is_leap y \<longleftrightarrow> y mod 4 = 0 \<and> (y mod 100 \<noteq> 0 \<or> y mod 400 = 0)"

text \<open>The day number (day 0 is 1970-01-01) of the first of January of a year.\<close>

definition year_start :: "int \<Rightarrow> int" where
  "year_start y = 365 * (y - 1) + (y - 1) div 4 - (y - 1) div 100 + (y - 1) div 400 - 719162"

definition month_start :: "bool \<Rightarrow> int \<Rightarrow> int" where
  "month_start leap m =
     (if m \<le> 1 then 0 else if m = 2 then 31
      else (if leap then 1 else 0) +
        (if m = 3 then 59 else if m = 4 then 90 else if m = 5 then 120 else if m = 6 then 151
         else if m = 7 then 181 else if m = 8 then 212 else if m = 9 then 243
         else if m = 10 then 273 else if m = 11 then 304 else if m = 12 then 334 else 365))"

definition days_in_month :: "int \<Rightarrow> int \<Rightarrow> int" where
  "days_in_month y m = month_start (is_leap y) (m + 1) - month_start (is_leap y) m"

text \<open>Months are counted from 1 here; the overflow of ECMAScript's MakeDay is kept.\<close>

definition make_day :: "int \<Rightarrow> int \<Rightarrow> int \<Rightarrow> int" where
  "make_day y m d =
     (let y' = y + (m - 1) div 12; m' = (m - 1) mod 12 + 1
      in year_start y' + month_start (is_leap y') m' + d - 1)"

definition year_of_day :: "int \<Rightarrow> int" where
  "year_of_day n =
     (let e = (n + 719162) * 400 div 146097 + 1
      in if n < year_start e then e - 1
         else if year_start (e + 1) \<le> n then e + 1 else e)"

definition month_of_yday :: "bool \<Rightarrow> int \<Rightarrow> int" where
  "month_of_yday leap k =
     (if k < 31 then 1
      else if k < month_start leap 3 then 2 else if k < month_start leap 4 then 3
      else if k < month_start leap 5 then 4 else if k < month_start leap 6 then 5
      else if k < month_start leap 7 then 6 else if k < month_start leap 8 then 7
      else if k < month_start leap 9 then 8 else if k < month_start leap 10 then 9
      else if k < month_start leap 11 then 10 else if k < month_start leap 12 then 11 else 12)"

definition civil_of_day :: "int \<Rightarrow> int \<times> int \<times> int" where
  "civil_of_day n =
     (let y = year_of_day n; k = n - year_start y; m = month_of_yday (is_leap y) k
      in (y, m, k - month_start (is_leap y) m + 1))"

lemma div_bounds_int: "(0::int) < c \<Longrightarrow> c * (a div c) \<le> a \<and> a < c * (a div c) + c"
  using mult_div_mod_eq [of c a] pos_mod_sign [of c a] pos_mod_bound [of c a] by linarith

lemma div_pred_int:
  assumes "(0::int) < c"
  shows "y div c = (y - 1) div c + (if y mod c = 0 then 1 else 0)"
proof (cases "y mod c = 0")
  case True
  then obtain k where "y = c * k" by auto
  moreover have "(c * k - 1) div c = k - 1"
    using assms by (intro int_div_pos_eq [of _ _ _ "c - 1"]) (auto simp: algebra_simps)
  ultimately show ?thesis using True assms by simp
next
  case False
  have "0 \<le> y mod c" "y mod c < c" using assms by simp_all
  with False have "0 \<le> y mod c - 1" "y mod c - 1 < c" by linarith+
  moreover have "y - 1 = c * (y div c) + (y mod c - 1)" by simp
  ultimately have "(y - 1) div c = y div c" by (intro int_div_pos_eq)
  then show ?thesis using False by simp
qed

lemma mod_dvd_zero: "y mod (c * d) = 0 \<Longrightarrow> y mod c = (0::int)"
  by (auto simp: mod_0_imp_dvd dvd_imp_mod_0 dest: dvd_mult_left)

lemma year_start_Suc: "year_start (y + 1) = year_start y + (if is_leap y then 366 else 365)"
proof -
  have m: "y mod 100 = 0 \<Longrightarrow> y mod 4 = 0" "y mod 400 = 0 \<Longrightarrow> y mod 100 = 0"
    using mod_dvd_zero [of y 4 25] mod_dvd_zero [of y 100 4] by simp_all
  have "year_start (y + 1) = 365 * y + y div 4 - y div 100 + y div 400 - 719162"
    by (simp add: year_start_def)
  also have "\<dots> = year_start y + 365 + ((if y mod 4 = 0 then 1 else 0) - (if y mod 100 = 0 then 1 else 0)
      + (if y mod 400 = 0 then 1 else 0))"
    unfolding div_pred_int [of 4 y, simplified] div_pred_int [of 100 y, simplified]
      div_pred_int [of 400 y, simplified] year_start_def by (simp add: algebra_simps)
  also have "\<dots> = year_start y + (if is_leap y then 366 else 365)"
    unfolding is_leap_def using m
    by (cases "y mod 4 = 0"; cases "y mod 100 = 0"; cases "y mod 400 = 0") simp_all
  finally show ?thesis .
qed

lemma year_start_bounds:
  "146097 * y - 400 * 719162 - 700 \<le> 400 * year_start (y + 1)
   \<and> 400 * year_start (y + 1) \<le> 146097 * y - 400 * 719162 + 400"
proof -
  have "year_start (y + 1) = 365 * y + y div 4 - y div 100 + y div 400 - 719162"
    by (simp add: year_start_def)
  then show ?thesis
    using div_bounds_int [of 4 y] div_bounds_int [of 100 y] div_bounds_int [of 400 y]
    by linarith
qed

lemma year_of_day_bounds: "year_start (year_of_day n) \<le> n \<and> n < year_start (year_of_day n + 1)"
proof -
  define q where "q = (n + 719162) * 400 div 146097"
  have "146097 * q \<le> (n + 719162) * 400 \<and> (n + 719162) * 400 < 146097 * q + 146097"
    unfolding q_def by (rule div_bounds_int) simp
  then have "year_start q \<le> n \<and> n < year_start (q + 3)"
    using year_start_bounds [of "q - 1"] year_start_bounds [of "q + 2"]
    by (simp add: add.commute add.left_commute)
  moreover have "year_of_day n = (if n < year_start (q + 1) then q
      else if year_start (q + 2) \<le> n then q + 2 else q + 1)"
    unfolding year_of_day_def Let_def q_def [symmetric] by (simp add: add.assoc)
  ultimately show ?thesis by (simp add: add.assoc)
qed

lemma year_start_mono: "a \<le> b \<Longrightarrow> year_start a \<le> year_start b"
proof (induction "nat (b - a)" arbitrary: b)
  case 0
  then show ?case by simp
next
  case (Suc k)
  then have "year_start a \<le> year_start (b - 1)" by simp
  also have "\<dots> \<le> year_start b" using year_start_Suc [of "b - 1"] by simp
  finally show ?case .
qed

lemma year_of_day_unique: "year_start y \<le> n \<Longrightarrow> n < year_start (y + 1) \<Longrightarrow> year_of_day n = y"
proof (rule ccontr)
  assume y: "year_start y \<le> n" "n < year_start (y + 1)" and "year_of_day n \<noteq> y"
  then consider "year_of_day n + 1 \<le> y" | "y + 1 \<le> year_of_day n" by linarith
  then show False
    using year_of_day_bounds [of n] y
    by cases (auto dest: year_start_mono)
qed

lemma year_of_make_day: "year_of_day (year_start y + k) = y" if "0 \<le> k" "k < (if is_leap y then 366 else 365)"
  using that year_start_Suc [of y] by (intro year_of_day_unique) auto

lemma month_cases:
  assumes "1 \<le> m" "m \<le> (12::int)"
  obtains "m = 1" | "m = 2" | "m = 3" | "m = 4" | "m = 5" | "m = 6" | "m = 7" | "m = 8" | "m = 9"
    | "m = 10" | "m = 11" | "m = 12"
  using assms by atomize_elim presburger

lemma month_of_yday_start:
  assumes "1 \<le> m" "m \<le> 12" "0 \<le> d" "d < days_in_month y m"
  shows "month_of_yday (is_leap y) (month_start (is_leap y) m + d) = m"
    "month_start (is_leap y) m + d < (if is_leap y then 366 else 365)"
  using assms by (cases m rule: month_cases;
    simp add: days_in_month_def month_start_def month_of_yday_def split: if_splits)+

lemma month_start_nonneg: "0 \<le> month_start l m"
  by (simp add: month_start_def)

lemma civil_of_make_day:
  assumes "1 \<le> m" "m \<le> 12" "1 \<le> d" "d \<le> days_in_month y m"
  shows "civil_of_day (make_day y m d) = (y, m, d)"
proof -
  have k: "(m - 1) div 12 = 0" "(m - 1) mod 12 = m - 1" using assms by simp_all
  have md: "make_day y m d = year_start y + (month_start (is_leap y) m + (d - 1))"
    by (simp add: make_day_def Let_def k)
  have "year_of_day (make_day y m d) = y"
    unfolding md using assms month_of_yday_start(2) [of m "d - 1" y] month_start_nonneg [of "is_leap y" m]
    by (intro year_of_make_day) auto
  then show ?thesis
    using assms month_of_yday_start(1) [of m "d - 1" y] by (simp add: civil_of_day_def Let_def md)
qed

lemma month_of_yday_bounds:
  assumes "0 \<le> k" "k < (if l then 366 else 365)"
  shows "1 \<le> month_of_yday l k \<and> month_of_yday l k \<le> 12 \<and>
    month_start l (month_of_yday l k) \<le> k \<and> k < month_start l (month_of_yday l k + 1)"
  using assms by (cases l) (simp_all add: month_of_yday_def month_start_def)

lemma make_day_civil:
  assumes "civil_of_day n = (y, m, d)"
  shows "make_day y m d = n \<and> 1 \<le> m \<and> m \<le> 12 \<and> 1 \<le> d \<and> d \<le> days_in_month y m"
proof -
  have y: "y = year_of_day n" using assms by (simp add: civil_of_day_def Let_def)
  define k where "k = n - year_start y"
  have k: "0 \<le> k" "k < (if is_leap y then 366 else 365)"
    using year_of_day_bounds [of n] year_start_Suc [of y] by (auto simp: k_def y)
  have md: "m = month_of_yday (is_leap y) k" "d = k - month_start (is_leap y) m + 1"
    using assms by (auto simp: civil_of_day_def Let_def k_def y)
  have b: "1 \<le> m" "m \<le> 12" "month_start (is_leap y) m \<le> k" "k < month_start (is_leap y) (m + 1)"
    using month_of_yday_bounds [OF k] by (auto simp: md)
  have "(m - 1) div 12 = 0" "(m - 1) mod 12 = m - 1" using b by simp_all
  then show ?thesis using b by (simp add: make_day_def md(2) k_def days_in_month_def)
qed

lemma days_in_month_range: "1 \<le> m \<Longrightarrow> m \<le> 12 \<Longrightarrow> 28 \<le> days_in_month y m \<and> days_in_month y m \<le> 31"
  by (cases m rule: month_cases; simp add: days_in_month_def month_start_def)

section \<open>The fields of an instant\<close>

text \<open>getUTCFullYear, getUTCMonth + 1, getUTCDate, getUTCHours, getUTCMinutes, getUTCDay.\<close>

definition day_of :: "instant \<Rightarrow> int" where
  "day_of t = t div ms_per_day"

definition utc_hours :: "instant \<Rightarrow> int" where
  "utc_hours t = t mod ms_per_day div 3600000"

definition utc_minutes :: "instant \<Rightarrow> int" where
  "utc_minutes t = t mod 3600000 div 60000"

definition weekday_of_day :: "int \<Rightarrow> int" where
  "weekday_of_day n = (n + 4) mod 7"

lemma weekday_shift: "weekday_of_day (n + k) = (weekday_of_day n + k) mod 7"
  by (simp add: weekday_of_day_def mod_simps algebra_simps)

section \<open>Decimal digits and the ISO forms\<close>

definition digit :: "int \<Rightarrow> char" where
  "digit n = char_of (48 + nat n)"

definition digit_val :: "char \<Rightarrow> int option" where
  "digit_val c = (let k = of_char c :: nat in if 48 \<le> k \<and> k \<le> 57 then Some (int k - 48) else None)"

fun digits_val :: "int \<Rightarrow> string \<Rightarrow> int option" where
  "digits_val acc [] = Some acc"
| "digits_val acc (c # cs) =
     (case digit_val c of None \<Rightarrow> None | Some d \<Rightarrow> digits_val (10 * acc + d) cs)"

definition pad2 :: "int \<Rightarrow> string" where
  "pad2 n = [digit (n div 10), digit (n mod 10)]"

definition pad3 :: "int \<Rightarrow> string" where
  "pad3 n = digit (n div 100) # pad2 (n mod 100)"

definition pad4 :: "int \<Rightarrow> string" where
  "pad4 n = pad2 (n div 100) @ pad2 (n mod 100)"

lemma digit_val_digit [simp]: "0 \<le> n \<Longrightarrow> n < 10 \<Longrightarrow> digit_val (digit n) = Some n"
  by (simp add: digit_val_def digit_def Let_def of_char_of)

lemma digits_val_pad2 [simp]: "0 \<le> n \<Longrightarrow> n < 100 \<Longrightarrow> digits_val 0 (pad2 n) = Some n"
  by (simp add: pad2_def)

lemma digits_val_pad3 [simp]:
  assumes "0 \<le> n" "n < 1000"
  shows "digits_val 0 (pad3 n) = Some n"
proof -
  have "n div 100 * 100 + (n mod 100 div 10) * 10 + n mod 100 mod 10 = n" by simp
  then show ?thesis using assms by (simp add: pad3_def pad2_def algebra_simps)
qed

lemma digits_val_pad4 [simp]:
  assumes "0 \<le> n" "n < 10000"
  shows "digits_val 0 (pad4 n) = Some n"
proof -
  have "n = 100 * (n div 100) + n mod 100" by simp
  moreover have "n div 100 = 10 * (n div 100 div 10) + n div 100 mod 10" by simp
  moreover have "n mod 100 = 10 * (n mod 100 div 10) + n mod 100 mod 10" by simp
  moreover have "n div 100 < 100" using assms by (simp add: div_less_iff_less_mult)
  ultimately show ?thesis using assms by (simp add: pad4_def pad2_def div_less_iff_less_mult)
qed

lemma pad_length [simp]: "length (pad2 n) = 2" "length (pad3 n) = 3" "length (pad4 n) = 4"
  by (simp_all add: pad2_def pad3_def pad4_def)

text \<open>The date part of toISOString, and toISOString itself, for the years 0000 to 9999.\<close>

definition iso_date :: "int \<Rightarrow> string" where
  "iso_date n = (case civil_of_day n of (y, m, d) \<Rightarrow> pad4 y @ ''-'' @ pad2 m @ ''-'' @ pad2 d)"

definition to_iso_string :: "instant \<Rightarrow> string" where
  "to_iso_string t = iso_date (day_of t) @ ''T'' @ pad2 (utc_hours t) @ '':'' @ pad2 (utc_minutes t)
     @ '':'' @ pad2 (t mod 60000 div 1000) @ ''.'' @ pad3 (t mod 1000) @ ''Z''"

text \<open>The pattern \<open>YYYY-MM-DD\<close> with every D a decimal digit.\<close>

definition match_date :: "string \<Rightarrow> (int \<times> int \<times> int) option" where
  "match_date s =
     (if length s = 10 \<and> s ! 4 = CHR ''-'' \<and> s ! 7 = CHR ''-'' then
        (case (digits_val 0 (take 4 s), digits_val 0 (take 2 (drop 5 s)), digits_val 0 (drop 8 s)) of
           (Some y, Some m, Some d) \<Rightarrow> Some (y, m, d) | _ \<Rightarrow> None)
      else None)"

text \<open>Date.parse on a date: months 1 to 12 and days 1 to 31; a day past the month's end runs on.\<close>

definition parse_day :: "int \<Rightarrow> int \<Rightarrow> int \<Rightarrow> int option" where
  "parse_day y m d = (if 1 \<le> m \<and> m \<le> 12 \<and> 1 \<le> d \<and> d \<le> 31 then Some (make_day y m d) else None)"

definition four_digit_year :: "int \<Rightarrow> bool" where
  "four_digit_year n \<longleftrightarrow> 0 \<le> fst (civil_of_day n) \<and> fst (civil_of_day n) \<le> 9999"

lemma match_date_form:
  "length ys = 4 \<Longrightarrow> length ms = 2 \<Longrightarrow> length ds = 2 \<Longrightarrow>
   match_date (ys @ CHR ''-'' # ms @ CHR ''-'' # ds) =
     (case (digits_val 0 ys, digits_val 0 ms, digits_val 0 ds) of
        (Some y, Some m, Some d) \<Rightarrow> Some (y, m, d) | _ \<Rightarrow> None)"
  by (simp add: match_date_def nth_append)

lemma match_date_iso_date:
  assumes "four_digit_year n"
  shows "match_date (iso_date n) = Some (civil_of_day n)"
proof -
  obtain y m d where c: "civil_of_day n = (y, m, d)" by (cases "civil_of_day n")
  then show ?thesis
    using make_day_civil [OF c] days_in_month_range [of m y] assms
    by (simp add: iso_date_def match_date_form four_digit_year_def)
qed

lemma parse_day_civil: "civil_of_day n = (y, m, d) \<Longrightarrow> parse_day y m d = Some n"
  using make_day_civil [of n y m d] days_in_month_range [of m y] by (auto simp: parse_day_def)

text \<open>The day number behind a date string, when the string is the ISO form of a real date.\<close>

definition date_day :: "string \<Rightarrow> int option" where
  "date_day s =
     (case match_date s of None \<Rightarrow> None
      | Some (y, m, d) \<Rightarrow>
          (case parse_day y m d of None \<Rightarrow> None
           | Some n \<Rightarrow> (if four_digit_year n \<and> iso_date n = s then Some n else None)))"

lemma date_day_iso_date: "four_digit_year n \<Longrightarrow> date_day (iso_date n) = Some n"
  by (cases "civil_of_day n") (simp add: date_day_def match_date_iso_date parse_day_civil)

lemma date_day_SomeD: "date_day s = Some n \<Longrightarrow> four_digit_year n \<and> iso_date n = s"
  by (auto simp: date_day_def split: option.splits prod.splits if_splits)

end
