(* ===== verification/CourtInterval.thy ===== *)
theory CourtInterval
  imports JsDate
begin

text \<open>
  packages/domain/src/court-interval.ts: parsing of quarter-hour instants with an explicit
  offset, half-open intervals, their overlap test and the subtraction of occupancies from an
  opening window. A \<open>CourtInterval\<close> of the source is the record of its two strings; a
  \<open>ParsedCourtInterval\<close> is a pair of instants.
\<close>

record court_interval =
  start_at :: string
  end_at :: string

type_synonym parsed_interval = "instant \<times> instant"

datatype interval_error = BadTimeFormat | BadTimeOrOffset | BadCalendarTime | EndNotAfterStart | OffGrid

section \<open>Parsing\<close>

text \<open>
  The regular expression of \<open>minuteInstant\<close>: the fixed-width date and time, an optional
  \<open>:00\<close> or \<open>:00.000\<close>, and the zone.
\<close>

datatype zone = Utc | Offset bool int int \<comment> \<open>sign is minus, hours, minutes\<close>

definition match_zone :: "string \<Rightarrow> zone option" where
  "match_zone s =
     (if s = ''Z'' then Some Utc
      else if length s = 6 \<and> (s ! 0 = CHR ''+'' \<or> s ! 0 = CHR ''-'') \<and> s ! 3 = CHR '':'' then
        (case (digits_val 0 (take 2 (drop 1 s)), digits_val 0 (drop 4 s)) of
           (Some h, Some m) \<Rightarrow> Some (Offset (s ! 0 = CHR ''-'') h m) | _ \<Rightarrow> None)
      else None)"

definition strip_seconds :: "string \<Rightarrow> string" where
  "strip_seconds s =
     (if take 3 s = '':00'' then
        (if take 4 (drop 3 s) = ''.000'' then drop 7 s else drop 3 s)
      else s)"

record iso_minute =
  im_year :: int
  im_month :: int
  im_day :: int
  im_hour :: int
  im_minute :: int
  im_zone :: zone

definition match_minute :: "string \<Rightarrow> iso_minute option" where
  "match_minute s =
     (if 16 \<le> length s \<and> s ! 10 = CHR ''T'' \<and> s ! 13 = CHR '':'' then
        (case (match_date (take 10 s), digits_val 0 (take 2 (drop 11 s)),
               digits_val 0 (take 2 (drop 14 s)), match_zone (strip_seconds (drop 16 s))) of
           (Some (y, m, d), Some h, Some mi, Some z) \<Rightarrow>
             Some \<lparr>im_year = y, im_month = m, im_day = d, im_hour = h, im_minute = mi, im_zone = z\<rparr>
         | _ \<Rightarrow> None)
      else None)"

definition zone_minutes :: "zone \<Rightarrow> int" where
  "zone_minutes z = (case z of Utc \<Rightarrow> 0 | Offset neg h m \<Rightarrow> (if neg then -1 else 1) * (h * 60 + m))"

definition zone_bad :: "zone \<Rightarrow> bool" where
  "zone_bad z \<longleftrightarrow> \<bar>zone_minutes z\<bar> > 14 * 60 \<or> (case z of Utc \<Rightarrow> False | Offset _ _ m \<Rightarrow> m \<ge> 60)"

text \<open>
  Date.parse on a matched string: hours to 24 (24 only at 24:00), minutes to 59. Offsets that
  Date.parse refuses (hours above 23) are refused by \<open>zone_bad\<close> in any case.
\<close>

definition date_parse :: "iso_minute \<Rightarrow> instant option" where
  "date_parse v =
     (case parse_day (im_year v) (im_month v) (im_day v) of
        None \<Rightarrow> None
      | Some n \<Rightarrow>
          (if im_minute v \<le> 59 \<and> (im_hour v \<le> 23 \<or> (im_hour v = 24 \<and> im_minute v = 0))
           then Some (n * ms_per_day + im_hour v * 3600000 + im_minute v * 60000
                      - zone_minutes (im_zone v) * 60000)
           else None))"

definition minute_instant :: "string \<Rightarrow> interval_error + instant" where
  "minute_instant s =
     (case match_minute s of
        None \<Rightarrow> Inl BadTimeFormat
      | Some v \<Rightarrow>
          (case date_parse v of
             None \<Rightarrow> Inl BadTimeOrOffset
           | Some t \<Rightarrow>
               (if zone_bad (im_zone v) then Inl BadTimeOrOffset
                else let l = t + zone_minutes (im_zone v) * 60000
                     in if civil_of_day (day_of l) = (im_year v, im_month v, im_day v)
                          \<and> utc_hours l = im_hour v \<and> utc_minutes l = im_minute v
                        then Inr t else Inl BadCalendarTime)))"

definition check_interval :: "parsed_interval \<Rightarrow> interval_error + parsed_interval" where
  "check_interval p =
     (case p of (s, e) \<Rightarrow>
        if s \<ge> e then Inl EndNotAfterStart
        else if s mod 900000 \<noteq> 0 \<or> e mod 900000 \<noteq> 0 then Inl OffGrid
        else Inr (s, e))"

definition parse_court_interval :: "court_interval \<Rightarrow> interval_error + parsed_interval" where
  "parse_court_interval i =
     bindE (minute_instant (start_at i)) (\<lambda>s.
     bindE (minute_instant (end_at i)) (\<lambda>e. check_interval (s, e)))"

section \<open>Overlap and availability\<close>

definition overlapping :: "parsed_interval \<Rightarrow> parsed_interval \<Rightarrow> bool" where
  "overlapping a b \<longleftrightarrow> fst a < snd b \<and> fst b < snd a"

definition court_intervals_overlap :: "court_interval \<Rightarrow> court_interval \<Rightarrow> interval_error + bool" where
  "court_intervals_overlap a b =
     bindE (parse_court_interval a) (\<lambda>l.
     bindE (parse_court_interval b) (\<lambda>r. Inr (overlapping l r)))"

text \<open>
  The loop of \<open>availableCourtIntervals\<close>: \<open>cursor\<close> and the pieces appended so far
  become a recursion that emits the pieces in order.
\<close>

fun free_from :: "parsed_interval \<Rightarrow> instant \<Rightarrow> parsed_interval list \<Rightarrow> parsed_interval list" where
  "free_from w cursor [] = (if cursor < snd w then [(cursor, snd w)] else [])"
| "free_from w cursor (b # bs) =
     (if snd b \<le> cursor \<or> fst b \<ge> snd w then free_from w cursor bs
      else (if fst b > cursor then [(cursor, fst b)] else [])
           @ free_from w (min (snd w) (max cursor (snd b))) bs)"

definition free_intervals :: "parsed_interval \<Rightarrow> parsed_interval list \<Rightarrow> parsed_interval list" where
  "free_intervals w occ = free_from w (fst w) (sort_key fst occ)"

text \<open>The inner function \<open>append\<close>: both ends as ISO strings.\<close>

definition render :: "parsed_interval \<Rightarrow> court_interval" where
  "render p = \<lparr>start_at = to_iso_string (fst p), end_at = to_iso_string (snd p)\<rparr>"

definition available_court_intervals ::
  "court_interval \<Rightarrow> court_interval list \<Rightarrow> interval_error + court_interval list" where
  "available_court_intervals opening occupied =
     bindE (parse_court_interval opening) (\<lambda>w.
     bindE (mapE parse_court_interval occupied) (\<lambda>occ. Inr (map render (free_intervals w occ))))"

section \<open>Lemmas\<close>

text \<open>The instants an interval covers.\<close>

definition span :: "parsed_interval \<Rightarrow> instant set" where
  "span p = {t. fst p \<le> t \<and> t < snd p}"

definition spans :: "parsed_interval list \<Rightarrow> instant set" where
  "spans ps = (\<Union>p\<in>set ps. span p)"

lemma spans_simps [simp]:
  "spans [] = {}" "spans (p # ps) = span p \<union> spans ps" "spans (ps @ qs) = spans ps \<union> spans qs"
  by (auto simp: spans_def)

lemma overlapping_span:
  "fst a < snd a \<Longrightarrow> fst b < snd b \<Longrightarrow> overlapping a b \<longleftrightarrow> span a \<inter> span b \<noteq> {}"
proof -
  assume a: "fst a < snd a" "fst b < snd b"
  show ?thesis
  proof
    assume "overlapping a b"
    then have "max (fst a) (fst b) \<in> span a \<inter> span b"
      using a by (auto simp: overlapping_def span_def max_def)
    then show "span a \<inter> span b \<noteq> {}" by blast
  qed (auto simp: overlapping_def span_def)
qed

lemma overlapping_sym: "overlapping a b \<longleftrightarrow> overlapping b a"
  by (auto simp: overlapping_def)

lemma check_interval_Inr [ok_iff]:
  "check_interval p = Inr q \<longleftrightarrow>
     q = p \<and> fst p < snd p \<and> fst p mod 900000 = 0 \<and> snd p mod 900000 = 0"
  by (cases p) (auto simp: check_interval_def)

lemma parse_court_interval_wf:
  "parse_court_interval i = Inr p \<Longrightarrow> fst p < snd p \<and> fst p mod 900000 = 0 \<and> snd p mod 900000 = 0"
  by (auto simp: parse_court_interval_def ok_iff)

lemma free_from_spans:
  assumes "sorted (map fst bs)" "\<forall>b\<in>set bs. fst b < snd b" "fst w \<le> c" "c \<le> snd w"
  shows "spans (free_from w c bs) = {t. c \<le> t \<and> t < snd w} - spans bs"
  using assms
proof (induction w c bs rule: free_from.induct)
  case (1 w cursor)
  then show ?case by (auto simp: span_def)
next
  case (2 w cursor b bs)
  show ?case
  proof (cases "snd b \<le> cursor \<or> fst b \<ge> snd w")
    case True
    then have "spans (free_from w cursor (b # bs)) = {t. cursor \<le> t \<and> t < snd w} - spans bs"
      using 2 by simp
    also have "\<dots> = {t. cursor \<le> t \<and> t < snd w} - spans (b # bs)"
      using True by (auto simp: span_def)
    finally show ?thesis .
  next
    case False
    let ?c = "min (snd w) (snd b)"
    have c: "max cursor (snd b) = snd b" using False by simp
    have IH: "spans (free_from w ?c bs) = {t. ?c \<le> t \<and> t < snd w} - spans bs"
      using 2(2) [OF False] 2(3-6) False unfolding c by simp
    have later: "t \<notin> spans bs" if "t < fst b" for t
      using that 2(3) by (force simp: spans_def span_def)
    have "spans (free_from w cursor (b # bs)) =
        (if fst b > cursor then span (cursor, fst b) else {}) \<union> ({t. ?c \<le> t \<and> t < snd w} - spans bs)"
      using False IH by (simp add: c)
    also have "\<dots> = {t. cursor \<le> t \<and> t < snd w} - spans (b # bs)"
      using False later 2(4) by (auto simp: span_def)
    finally show ?thesis .
  qed
qed

lemma free_from_ordered:
  assumes "\<forall>b\<in>set bs. fst b < snd b"
  shows "(\<forall>p\<in>set (free_from w c bs). c \<le> fst p \<and> fst p < snd p \<and> snd p \<le> snd w)
    \<and> sorted_wrt (\<lambda>p q. snd p < fst q) (free_from w c bs)"
  using assms
proof (induction w c bs rule: free_from.induct)
  case (1 w cursor)
  then show ?case by simp
next
  case (2 w cursor b bs)
  show ?case
  proof (cases "snd b \<le> cursor \<or> fst b \<ge> snd w")
    case True
    then show ?thesis using 2 by simp
  next
    case False
    have c: "max cursor (snd b) = snd b" using False by simp
    have IH: "(\<forall>p\<in>set (free_from w (min (snd w) (snd b)) bs).
        min (snd w) (snd b) \<le> fst p \<and> fst p < snd p \<and> snd p \<le> snd w)
      \<and> sorted_wrt (\<lambda>p q. snd p < fst q) (free_from w (min (snd w) (snd b)) bs)"
      using 2(2) [OF False] 2(3) unfolding c by simp
    then show ?thesis using False 2(3) by (fastforce simp: c)
  qed
qed

lemma free_intervals_spans:
  assumes "\<forall>b\<in>set occ. fst b < snd b" "fst w \<le> snd w"
  shows "spans (free_intervals w occ) = span w - spans occ"
proof -
  have "spans (sort_key fst occ) = spans occ" by (simp add: spans_def)
  then show ?thesis
    using assms free_from_spans [of "sort_key fst occ" w "fst w"]
    by (simp add: free_intervals_def span_def)
qed

lemma free_intervals_ordered:
  assumes "\<forall>b\<in>set occ. fst b < snd b"
  shows "\<forall>p\<in>set (free_intervals w occ). fst w \<le> fst p \<and> fst p < snd p \<and> snd p \<le> snd w"
    "sorted_wrt (\<lambda>p q. snd p < fst q) (free_intervals w occ)"
  using assms free_from_ordered [of "sort_key fst occ" w "fst w"]
  by (simp_all add: free_intervals_def)

lemma mapE_parse_wf:
  "mapE parse_court_interval ivs = Inr ps \<Longrightarrow> \<forall>p\<in>set ps. fst p < snd p"
proof (induction ivs arbitrary: ps)
  case (Cons i ivs)
  then show ?case by (fastforce simp: ok_iff dest: parse_court_interval_wf)
qed simp


section \<open>Round trip with toISOString\<close>

lemma day_ms: "n div ms_per_day * ms_per_day + n mod ms_per_day = n"
  by simp

lemma utc_fields:
  assumes "t mod 60000 = 0"
  shows "day_of t * ms_per_day + utc_hours t * 3600000 + utc_minutes t * 60000 = t"
    "0 \<le> utc_hours t" "utc_hours t \<le> 23" "0 \<le> utc_minutes t" "utc_minutes t \<le> 59"
proof -
  have h: "t mod 86400000 mod 3600000 = t mod 3600000" by (simp add: mod_mod_cancel)
  have m: "t mod 3600000 mod 60000 = 0" using assms by (simp add: mod_mod_cancel)
  have "t mod 86400000 = 3600000 * (t mod 86400000 div 3600000) + t mod 3600000"
    using mult_div_mod_eq [of 3600000 "t mod 86400000"] h by simp
  moreover have "t mod 3600000 = 60000 * (t mod 3600000 div 60000)"
    using mult_div_mod_eq [of 60000 "t mod 3600000"] m by simp
  moreover have "t = 86400000 * (t div 86400000) + t mod 86400000" by simp
  ultimately show "day_of t * ms_per_day + utc_hours t * 3600000 + utc_minutes t * 60000 = t"
    unfolding day_of_def utc_hours_def utc_minutes_def ms_per_day_def by linarith
  show "0 \<le> utc_hours t" "0 \<le> utc_minutes t"
    by (simp_all add: utc_hours_def utc_minutes_def ms_per_day_def pos_imp_zdiv_nonneg_iff)
  have "t mod 86400000 < 86400000" "t mod 3600000 < 3600000" by simp_all
  then have "t mod 86400000 div 3600000 < 24" "t mod 3600000 div 60000 < 60"
    by (simp_all add: div_less_iff_less_mult)
  then show "utc_hours t \<le> 23" "utc_minutes t \<le> 59"
    by (simp_all add: utc_hours_def utc_minutes_def ms_per_day_def)
qed

lemma iso_date_length [simp]: "length (iso_date n) = 10"
  by (simp add: iso_date_def split: prod.splits)

lemma match_minute_form:
  assumes "length ds = 10" "length hs = 2" "length ms = 2"
  shows "match_minute (ds @ CHR ''T'' # hs @ CHR '':'' # ms @ rest) =
     (case (match_date ds, digits_val 0 hs, digits_val 0 ms, match_zone (strip_seconds rest)) of
        (Some (y, m, d), Some h, Some mi, Some z) \<Rightarrow>
          Some \<lparr>im_year = y, im_month = m, im_day = d, im_hour = h, im_minute = mi, im_zone = z\<rparr>
      | _ \<Rightarrow> None)"
  using assms by (simp add: match_minute_def nth_append)

lemma iso_seconds:
  "t mod 60000 = 0 \<Longrightarrow> t mod 60000 div 1000 = (0::int)"
  "t mod 60000 = 0 \<Longrightarrow> t mod 1000 = (0::int)"
  using mod_mod_cancel [of 1000 60000 t] by simp_all

lemma digit_zero: "digit 0 = CHR ''0''"
  by code_simp

lemma strip_iso_seconds:
  "strip_seconds (CHR '':'' # pad2 0 @ CHR ''.'' # pad3 0 @ ''Z'') = ''Z''"
  by (simp add: pad2_def pad3_def digit_zero strip_seconds_def)

lemma minute_instant_to_iso:
  assumes "t mod 60000 = 0" "four_digit_year (day_of t)"
  shows "minute_instant (to_iso_string t) = Inr t"
proof -
  obtain y m d where c: "civil_of_day (day_of t) = (y, m, d)" by (cases "civil_of_day (day_of t)")
  note f = utc_fields [OF assms(1)]
  have "to_iso_string t = iso_date (day_of t) @ CHR ''T'' # pad2 (utc_hours t) @ CHR '':'' #
      pad2 (utc_minutes t) @ ('':'' @ pad2 0 @ ''.'' @ pad3 0 @ ''Z'')"
    using iso_seconds [OF assms(1)] by (simp add: to_iso_string_def)
  then have "match_minute (to_iso_string t) = Some \<lparr>im_year = y, im_month = m, im_day = d,
      im_hour = utc_hours t, im_minute = utc_minutes t, im_zone = Utc\<rparr>"
    using f by (simp only: match_minute_form [OF iso_date_length pad_length(1) pad_length(1)])
      (simp add: match_date_iso_date [OF assms(2)] c strip_iso_seconds match_zone_def)
  then show ?thesis
    using f c by (simp add: minute_instant_def date_parse_def parse_day_civil [OF c] zone_minutes_def
        zone_bad_def)
qed

section \<open>Property\<close>

text \<open>
  C3: The availability of a court is exact: the intervals returned for an opening window and
  a list of occupancies (in any order, overlapping or not), rendered as ISO strings, cover precisely the instants of the
  window that no occupancy covers, are not empty, stay inside the window, and come in
  ascending order with a gap between any two.
\<close>

theorem available_court_intervals_exact:
  assumes "available_court_intervals opening occupied = Inr ivs"
  shows "\<exists>w occ ps. parse_court_interval opening = Inr w \<and> mapE parse_court_interval occupied = Inr occ \<and>
     ivs = map render ps \<and> spans ps = span w - spans occ \<and>
     (\<forall>p\<in>set ps. fst w \<le> fst p \<and> fst p < snd p \<and> snd p \<le> snd w) \<and>
     sorted_wrt (\<lambda>p q. snd p < fst q) ps"
proof -
  obtain w occ where w: "parse_court_interval opening = Inr w" and o: "mapE parse_court_interval occupied = Inr occ"
    and ivs: "ivs = map render (free_intervals w occ)"
    using assms by (auto simp: available_court_intervals_def ok_iff)
  note wf = mapE_parse_wf [OF o]
  have "fst w \<le> snd w" using parse_court_interval_wf [OF w] by simp
  then show ?thesis
    using w o ivs free_intervals_spans [OF wf] free_intervals_ordered [OF wf, of w] by blast
qed

theorem available_court_intervals_exact_witness:
  "\<exists>ivs ps. available_court_intervals \<lparr>start_at = ''2026-03-02T08:00+08:00'', end_at = ''2026-03-02T12:00+08:00''\<rparr>
      [\<lparr>start_at = ''2026-03-02T01:00:00Z'', end_at = ''2026-03-02T02:00:00.000Z''\<rparr>,
       \<lparr>start_at = ''2026-03-02T00:00:00Z'', end_at = ''2026-03-02T00:30:00Z''\<rparr>] = Inr ivs \<and>
    length ivs = 2 \<and> ivs = map render ps \<and> sorted_wrt (\<lambda>p q. snd p < fst q) ps"
proof -
  let ?r = "[\<lparr>start_at = ''2026-03-02T00:30:00.000Z'', end_at = ''2026-03-02T01:00:00.000Z''\<rparr>,
         \<lparr>start_at = ''2026-03-02T02:00:00.000Z'', end_at = ''2026-03-02T04:00:00.000Z''\<rparr>]"
  have e: "available_court_intervals \<lparr>start_at = ''2026-03-02T08:00+08:00'', end_at = ''2026-03-02T12:00+08:00''\<rparr>
      [\<lparr>start_at = ''2026-03-02T01:00:00Z'', end_at = ''2026-03-02T02:00:00.000Z''\<rparr>,
       \<lparr>start_at = ''2026-03-02T00:00:00Z'', end_at = ''2026-03-02T00:30:00Z''\<rparr>] = Inr ?r"
    by code_simp
  obtain ps where ps: "?r = map render ps" "sorted_wrt (\<lambda>p q. snd p < fst q) ps"
    using available_court_intervals_exact [OF e] by (elim exE conjE) (rule that)
  have l: "length ?r = 2" by simp
  show ?thesis by (intro exI conjI) (rule e l ps)+
qed

end
