(* ===== verification/Allocation.thy ===== *)
theory Allocation
  imports Prelude "HOL-Library.Multiset"
begin

text \<open>
  Integer money of packages/domain/src/tennis-pricing.ts: \<open>assertCents\<close>,
  \<open>safeNumber\<close> and the largest-remainder split \<open>allocateCents\<close>, whose hand-out loop
  is shared with the pricing of a court interval. The locale \<open>allocator\<close> states what the
  clients of the split (the wallet debit and the refunds) rely on.
\<close>

datatype pricing_error =
    InvalidConfiguration string \<comment> \<open>the field named in the error's details\<close>
  | DiscountOverlap "string list"
  | OutsideOpeningHours
  | BelowMinimumDuration
  | PriceNotConfigured

definition valid_cents :: "int \<Rightarrow> bool" where
  [guard_defs]: "valid_cents n \<longleftrightarrow> 0 \<le> n \<and> n \<le> max_safe"

definition assert_cents :: "int \<Rightarrow> pricing_error + unit" where
  "assert_cents n = guardE (is_safe n \<and> \<not> n < 0) (InvalidConfiguration ''amountCents'')"

definition safe_number :: "int \<Rightarrow> pricing_error + int" where
  "safe_number n = bindE (assert_cents n) (\<lambda>_. Inr n)"

section \<open>The largest-remainder hand-out\<close>

record portion =
  p_index :: nat
  p_amount :: int
  p_remainder :: int

text \<open>
  The portions are objects: the loop increments the first \<open>extra\<close> of the copy ordered
  by remainder, and the amounts are read back in index order.
\<close>

fun hand_out :: "int \<Rightarrow> portion list \<Rightarrow> portion list" where
  "hand_out extra [] = []"
| "hand_out extra (p # ps) =
     (if extra = 0 then p # ps
      else p\<lparr>p_amount := p_amount p + 1\<rparr> # hand_out (extra - 1) ps)"

definition by_remainder :: "portion list \<Rightarrow> portion list" where
  "by_remainder ps = sort_key (\<lambda>p. - p_remainder p) ps"

definition settle_portions :: "int \<Rightarrow> portion list \<Rightarrow> int list" where
  "settle_portions extra ps = map p_amount (sort_key p_index (hand_out extra (by_remainder ps)))"

definition make_portions :: "int \<Rightarrow> int list \<Rightarrow> portion list" where
  "make_portions d ns =
     map (\<lambda>(i, n). \<lparr>p_index = i, p_amount = n div d, p_remainder = n mod d\<rparr>) (enumerate 0 ns)"

definition sum_amounts :: "portion list \<Rightarrow> int" where
  "sum_amounts ps = sum_list (map p_amount ps)"

definition allocate_cents :: "int \<Rightarrow> int list \<Rightarrow> pricing_error + int list" where
  "allocate_cents tot weights =
     bindE (assert_cents tot) (\<lambda>_.
     bindE (eachE assert_cents weights) (\<lambda>_.
     let sum = sum_list weights in
     if sum = 0 then
       (if tot \<noteq> 0 then Inl (InvalidConfiguration ''weights'') else Inr (map (\<lambda>_. 0) weights))
     else
       let portions = make_portions sum (map (\<lambda>w. tot * w) weights);
           extra = tot - sum_amounts portions
       in mapE safe_number (settle_portions extra portions)))"

section \<open>Lemmas on the hand-out\<close>

lemma assert_cents_Inr [ok_iff]: "assert_cents n = Inr u \<longleftrightarrow> valid_cents n"
  by (auto simp: assert_cents_def ok_iff is_safe_def valid_cents_def max_safe_def)

lemma assert_cents_ok: "valid_cents n \<Longrightarrow> assert_cents n = Inr ()"
  by (simp add: assert_cents_Inr)

lemma safe_number_Inr [ok_iff]: "safe_number n = Inr m \<longleftrightarrow> valid_cents n \<and> m = n"
  by (auto simp: safe_number_def ok_iff)

lemma mapE_safe_number: "(\<forall>n\<in>set ns. valid_cents n) \<Longrightarrow> mapE safe_number ns = Inr ns"
  by (induction ns) (simp_all add: safe_number_def assert_cents_def valid_cents_def is_safe_def max_safe_def)

lemma mapE_safe_number_Inr: "mapE safe_number ns = Inr ms \<Longrightarrow> ms = ns \<and> (\<forall>n\<in>set ns. valid_cents n)"
  by (induction ns arbitrary: ms) (auto simp: ok_iff)

lemma hand_out_indices [simp]: "map p_index (hand_out k ps) = map p_index ps"
  by (induction k ps rule: hand_out.induct) auto

lemma hand_out_length [simp]: "length (hand_out k ps) = length ps"
  by (induction k ps rule: hand_out.induct) auto

lemma sum_hand_out:
  "0 \<le> k \<Longrightarrow> k \<le> int (length ps) \<Longrightarrow> sum_amounts (hand_out k ps) = sum_amounts ps + k"
  by (induction k ps rule: hand_out.induct) (auto simp: sum_amounts_def)

text \<open>Each portion keeps its amount or gains one, and gains only when \<open>P\<close> holds of it.\<close>

definition bumped :: "(portion \<Rightarrow> bool) \<Rightarrow> portion \<Rightarrow> portion \<Rightarrow> bool" where
  "bumped P p q \<longleftrightarrow> q = p \<or> (P p \<and> q = p\<lparr>p_amount := p_amount p + 1\<rparr>)"

lemma hand_out_bumped: "list_all2 (bumped (\<lambda>_. True)) ps (hand_out k ps)"
  by (induction k ps rule: hand_out.induct) (auto simp: bumped_def list_all2_refl)

lemma hand_out_bumped_pos:
  assumes "sorted (map (\<lambda>p. - p_remainder p) ps)" "\<forall>p\<in>set ps. 0 \<le> p_remainder p \<and> p_remainder p < d"
    and "0 \<le> k" "k * d \<le> sum_list (map p_remainder ps)" "0 < d"
  shows "list_all2 (bumped (\<lambda>p. 0 < p_remainder p)) ps (hand_out k ps) \<and> k \<le> int (length ps)"
  using assms
proof (induction k ps rule: hand_out.induct)
  case (1 k)
  then have "\<not> 0 < k" by (simp add: mult_le_0_iff)
  with 1 show ?case by simp
next
  case (2 k p ps)
  show ?case
  proof (cases "k = 0")
    case True
    then show ?thesis by (simp add: list_all2_refl bumped_def)
  next
    case False
    have le: "p_remainder q \<le> p_remainder p" if "q \<in> set ps" for q
      using 2(2) that by auto
    have "0 < p_remainder p"
    proof (rule ccontr)
      assume "\<not> 0 < p_remainder p"
      then have "\<forall>q\<in>set (p # ps). p_remainder q = 0"
        using le 2(3) by (metis antisym_conv not_less order_trans set_ConsD)
      then have "sum_list (map p_remainder (p # ps)) = 0" by (intro sum_list_zero_map) auto
      moreover have "0 < k * d" using False 2 by simp
      ultimately show False using 2(5) by simp
    qed
    moreover have "(k - 1) * d \<le> sum_list (map p_remainder ps)"
      using 2(3,5) by (simp add: left_diff_distrib)
    ultimately show ?thesis
      using 2 False by (simp add: bumped_def)
  qed
qed

lemma make_portions_indices [simp]: "map p_index (make_portions d ns) = [0..<length ns]"
proof -
  have "map p_index (make_portions d ns) = map fst (enumerate 0 ns)"
    unfolding make_portions_def map_map by (rule map_cong) auto
  then show ?thesis by simp
qed

lemma make_portions_length [simp]: "length (make_portions d ns) = length ns"
  by (simp add: make_portions_def)

lemma make_portions_amounts [simp]: "map p_amount (make_portions d ns) = map (\<lambda>n. n div d) ns"
  by (simp add: make_portions_def case_prod_unfold o_def map_snd_enumerate_comp [of "\<lambda>n. n div d"])

lemma make_portions_remainders [simp]: "map p_remainder (make_portions d ns) = map (\<lambda>n. n mod d) ns"
  by (simp add: make_portions_def case_prod_unfold o_def map_snd_enumerate_comp [of "\<lambda>n. n mod d"])

lemma mset_by_remainder [simp]: "mset (by_remainder ps) = mset ps"
  by (simp add: by_remainder_def)

lemma by_remainder_length [simp]: "length (by_remainder ps) = length ps"
  by (simp add: by_remainder_def)

lemma by_remainder_set [simp]: "set (by_remainder ps) = set ps"
  by (simp add: by_remainder_def)

lemma by_remainder_sorted: "sorted (map (\<lambda>p. - p_remainder p) (by_remainder ps))"
  by (simp add: by_remainder_def)

lemma sum_list_by_remainder [simp]:
  "sum_list (map f (by_remainder ps)) = (sum_list (map f ps) :: int)"
  by (metis mset_by_remainder mset_map sum_mset_sum_list)

lemma sum_settle_portions:
  assumes "0 \<le> k" "k \<le> int (length ps)"
  shows "sum_list (settle_portions k ps) = sum_amounts ps + k"
proof -
  have "sum_list (settle_portions k ps) = sum_amounts (hand_out k (by_remainder ps))"
    unfolding settle_portions_def sum_amounts_def
    by (metis mset_map mset_sort sum_mset_sum_list)
  then show ?thesis using assms by (simp add: sum_hand_out) (simp add: sum_amounts_def)
qed

lemma settle_portions_length [simp]: "length (settle_portions k ps) = length ps"
  by (simp add: settle_portions_def)


text \<open>Read back in index order, the entry at an index is the portion of that index, bumped or not.\<close>

lemma settle_portions_nth:
  assumes idx: "map p_index ps = [0..<length ps]" and i: "i < length ps"
    and b: "list_all2 (bumped P) (by_remainder ps) (hand_out k (by_remainder ps))"
  shows "\<exists>q. bumped P (ps ! i) q \<and> settle_portions k ps ! i = p_amount q"
proof -
  let ?L = "hand_out k (by_remainder ps)"
  let ?M = "sort_key p_index ?L"
  have "mset (map p_index ?M) = mset (map p_index ?L)" by (metis mset_map mset_sort)
  also have "\<dots> = mset (map p_index ps)" by (metis hand_out_indices mset_by_remainder mset_map)
  finally have "mset (map p_index ?M) = mset [0..<length ps]" by (simp only: idx)
  then have M: "map p_index ?M = [0..<length ps]"
    by (metis sorted_sort_key sorted_sort_id properties_for_sort sorted_upt)
  have "length ?M = length ps" by simp
  then have Mi: "?M ! i \<in> set ?L" using i by (metis nth_mem set_sort)
  then obtain j where j: "j < length ?L" "?L ! j = ?M ! i" by (auto simp: in_set_conv_nth)
  then have bj: "bumped P (by_remainder ps ! j) (?M ! i)"
    using b by (metis list_all2_nthD2)
  have "p_index (?M ! i) = i" using M i by (metis add_0 length_upt minus_nat.diff_0 nth_map nth_upt \<open>length ?M = length ps\<close>)
  then have "p_index (by_remainder ps ! j) = i" using bj by (auto simp: bumped_def)
  moreover have "by_remainder ps ! j \<in> set ps" using j by (metis by_remainder_set hand_out_length nth_mem)
  then obtain l where l: "l < length ps" "ps ! l = by_remainder ps ! j" by (auto simp: in_set_conv_nth)
  moreover have "p_index (ps ! l) = l" using idx l by (metis add_0 nth_map nth_upt)
  ultimately have "by_remainder ps ! j = ps ! i" by simp
  then show ?thesis
    using bj i by (auto simp: settle_portions_def intro!: exI [of _ "?M ! i"])
qed

section \<open>The split of a total by weights\<close>

text \<open>What the clients of a split rely on.\<close>

locale allocator =
  fixes alloc :: "int \<Rightarrow> int list \<Rightarrow> 'e + int list"
  assumes alloc_sum: "alloc tot ws = Inr xs \<Longrightarrow> sum_list xs = tot"
    and alloc_length: "alloc tot ws = Inr xs \<Longrightarrow> length xs = length ws"
    and alloc_nonneg: "alloc tot ws = Inr xs \<Longrightarrow> x \<in> set xs \<Longrightarrow> 0 \<le> x"
    and alloc_le: "alloc tot ws = Inr xs \<Longrightarrow> tot \<le> sum_list ws \<Longrightarrow> i < length ws \<Longrightarrow> xs ! i \<le> ws ! i"
begin

lemma alloc_le_total: "alloc tot ws = Inr xs \<Longrightarrow> x \<in> set xs \<Longrightarrow> x \<le> tot"
  using member_le_sum_list_int [of x xs] alloc_nonneg alloc_sum by metis

lemma alloc_pair:
  assumes "alloc tot [a, b] = Inr xs"
  obtains x y where "xs = [x, y]" "x + y = tot" "0 \<le> x" "0 \<le> y" "tot \<le> a + b \<longrightarrow> x \<le> a \<and> y \<le> b"
proof -
  have len: "length xs = 2" using alloc_length [OF assms] by simp
  then obtain x y where xs: "xs = [x, y]" by (metis length_0_conv length_Suc_conv numeral_2_eq_2)
  show ?thesis
    using alloc_sum [OF assms] alloc_nonneg [OF assms] alloc_le [OF assms, of 0] alloc_le [OF assms, of 1]
    by (intro that [OF xs]) (simp_all add: xs)
qed

text \<open>What is left of every weight after the split is again a list of weights.\<close>

lemma alloc_rest:
  assumes "alloc tot ws = Inr xs" "tot \<le> sum_list ws"
  shows "list_all2 (\<lambda>x w. 0 \<le> x \<and> x \<le> w) xs ws"
  using alloc_length [OF assms(1)] alloc_nonneg [OF assms(1)] alloc_le [OF assms]
  by (auto simp: list_all2_conv_all_nth)

end

lemma sum_div_mod_list: "sum_list (map (\<lambda>n. n div d) ns) * d + sum_list (map (\<lambda>n. n mod d) ns) = (sum_list ns :: int)"
  by (induction ns) (auto simp: algebra_simps)

lemma sum_list_mult_const: "sum_list (map (\<lambda>w. c * w) ws) = (c * sum_list ws :: int)"
  by (induction ws) (auto simp: algebra_simps)

lemma sum_remainders_bound:
  "0 < d \<Longrightarrow> 0 \<le> sum_list (map (\<lambda>n. n mod d) ns) \<and> sum_list (map (\<lambda>n. n mod d) ns) \<le> int (length ns) * (d - 1 :: int)"
proof (induction ns)
  case (Cons n ns)
  have "0 \<le> n mod d" "n mod d \<le> d - 1" using Cons.prems by simp_all
  then show ?case using Cons by (simp add: algebra_simps)
qed simp

lemma allocate_portions:
  fixes ws :: "int list"
  defines "S \<equiv> sum_list ws" and "ns \<equiv> \<lambda>tot. map (\<lambda>w. tot * w) ws"
  assumes "0 < S" "0 \<le> tot" "\<forall>w\<in>set ws. 0 \<le> w"
  defines "ps \<equiv> make_portions S (ns tot)"
  defines "k \<equiv> tot - sum_amounts ps"
  shows "k * S = sum_list (map (\<lambda>n. n mod S) (ns tot))" "0 \<le> k" "k \<le> int (length ps)"
    "list_all2 (bumped (\<lambda>p. 0 < p_remainder p)) (by_remainder ps) (hand_out k (by_remainder ps))"
proof -
  have sa: "sum_amounts ps = sum_list (map (\<lambda>n. n div S) (ns tot))"
    unfolding sum_amounts_def ps_def by (simp only: make_portions_amounts)
  have "sum_list (ns tot) = tot * S" by (simp add: ns_def S_def sum_list_mult_const)
  then show kS: "k * S = sum_list (map (\<lambda>n. n mod S) (ns tot))"
    using sum_div_mod_list [of S "ns tot"] by (simp add: k_def sa left_diff_distrib)
  then have "0 \<le> k * S" using sum_remainders_bound [of S "ns tot"] assms by simp
  then show "0 \<le> k" using assms by (simp add: zero_le_mult_iff)
  have "sum_list (map p_remainder ps) = k * S"
    unfolding kS ps_def by (simp only: make_portions_remainders)
  then have "list_all2 (bumped (\<lambda>p. 0 < p_remainder p)) (by_remainder ps) (hand_out k (by_remainder ps))
      \<and> k \<le> int (length (by_remainder ps))"
    using assms \<open>0 \<le> k\<close>
    by (intro hand_out_bumped_pos [where d = S] by_remainder_sorted) (auto simp: ps_def make_portions_def)
  then show "k \<le> int (length ps)"
    "list_all2 (bumped (\<lambda>p. 0 < p_remainder p)) (by_remainder ps) (hand_out k (by_remainder ps))"
    by simp_all
qed


lemma ceil_le_weight:
  fixes w :: int
  assumes "0 < S" "0 \<le> w" "tot \<le> S" "0 \<le> tot" "0 < tot * w mod S"
  shows "tot * w div S + 1 \<le> w"
proof -
  have "tot * w \<le> S * w" using assms by (simp add: mult_right_mono)
  moreover have "S * (tot * w div S) + tot * w mod S = tot * w" by simp
  ultimately have "S * (tot * w div S) < S * w" using assms(5) by linarith
  then show ?thesis using assms(1) by (simp add: mult_less_cancel_left_pos)
qed

lemma floor_le_weight:
  fixes w :: int
  assumes "0 < S" "0 \<le> w" "tot \<le> S"
  shows "tot * w div S \<le> w"
proof -
  have "tot * w \<le> S * w" using assms by (simp add: mult_right_mono)
  moreover have "S * (tot * w div S) \<le> tot * w" using assms(1) by (metis div_mult_le_int mult.commute)
  ultimately have "S * (tot * w div S) \<le> S * w" by linarith
  then show ?thesis using assms(1) by (simp add: mult_le_cancel_left_pos)
qed

lemma settle_weights:
  fixes ws :: "int list"
  assumes "0 < sum_list ws" "0 \<le> tot" "\<forall>w\<in>set ws. 0 \<le> w" "i < length ws"
  defines "ps \<equiv> make_portions (sum_list ws) (map (\<lambda>w. tot * w) ws)"
  shows "let x = settle_portions (tot - sum_amounts ps) ps ! i; n = tot * ws ! i; S = sum_list ws
    in x = n div S \<or> (x = n div S + 1 \<and> 0 < n mod S)"
proof -
  have len: "length ps = length ws" by (simp add: ps_def)
  have am: "map p_amount ps ! i = tot * ws ! i div sum_list ws"
      "map p_remainder ps ! i = tot * ws ! i mod sum_list ws"
    using assms(4) by (simp_all only: ps_def make_portions_amounts make_portions_remainders) simp_all
  have "\<exists>q. bumped (\<lambda>p. 0 < p_remainder p) (ps ! i) q \<and>
      settle_portions (tot - sum_amounts ps) ps ! i = p_amount q"
    unfolding ps_def using assms(1-4)
    by (intro settle_portions_nth allocate_portions(4)) simp_all
  then show ?thesis using am assms(4) len by (auto simp: bumped_def Let_def)
qed

text \<open>The code's result on every branch: refused inputs, the all-zero weights, the split.\<close>

lemma allocate_cents_cases:
  assumes "allocate_cents tot ws = Inr xs"
  shows "valid_cents tot \<and> (\<forall>w\<in>set ws. valid_cents w) \<and>
    (if sum_list ws = 0 then tot = 0 \<and> xs = map (\<lambda>_. 0) ws
     else xs = settle_portions (tot - sum_amounts (make_portions (sum_list ws) (map (\<lambda>w. tot * w) ws)))
               (make_portions (sum_list ws) (map (\<lambda>w. tot * w) ws)))"
  using assms mapE_safe_number_Inr
  by (auto simp: allocate_cents_def Let_def ok_iff split: if_splits)

interpretation cents: allocator allocate_cents
proof
  fix tot ws xs
  assume A: "allocate_cents tot ws = Inr xs"
  note c = allocate_cents_cases [OF A]
  have pos: "sum_list ws \<noteq> 0 \<Longrightarrow> 0 < sum_list ws"
    using c sum_list_nonneg_int [of ws] by (force simp: valid_cents_def)
  have ws: "\<forall>w\<in>set ws. 0 \<le> w" and tot: "0 \<le> tot" using c by (auto simp: valid_cents_def)
  let ?ps = "make_portions (sum_list ws) (map (\<lambda>w. tot * w) ws)"
  show sum: "sum_list xs = tot"
  proof (cases "sum_list ws = 0")
    case True
    then show ?thesis using c by (simp add: sum_list_zero_map [of ws "\<lambda>_. 0"])
  next
    case False
    then show ?thesis
      using c allocate_portions(2,3) [OF pos [OF False] tot ws] by (simp add: sum_settle_portions)
  qed
  show len: "length xs = length ws" using c by (auto split: if_splits)
  show "0 \<le> x" if "x \<in> set xs" for x
  proof (cases "sum_list ws = 0")
    case False
    obtain i where i: "i < length ws" "xs ! i = x" using \<open>x \<in> set xs\<close> len by (metis in_set_conv_nth)
    have "0 \<le> tot * ws ! i div sum_list ws"
      using pos [OF False] tot ws i by (simp add: pos_imp_zdiv_nonneg_iff)
    then show ?thesis
      using settle_weights [OF pos [OF False] tot ws i(1)] c False i(2) by (auto simp: Let_def)
  qed (use c that in auto)
  show "xs ! i \<le> ws ! i" if le: "tot \<le> sum_list ws" and i: "i < length ws" for i
  proof (cases "sum_list ws = 0")
    case True
    then show ?thesis using c i ws by simp
  next
    case False
    have "0 \<le> ws ! i" using ws i by simp
    then show ?thesis
      using settle_weights [OF pos [OF False] tot ws i] c False
        ceil_le_weight [OF pos [OF False] _ le tot] floor_le_weight [OF pos [OF False] _ le]
      by (auto simp: Let_def)
  qed
qed

text \<open>On valid inputs the split is refused only when a positive total meets zero weights.\<close>

lemma allocate_cents_total:
  assumes "valid_cents tot" "\<forall>w\<in>set ws. valid_cents w" "sum_list ws = 0 \<Longrightarrow> tot = 0"
  shows "\<exists>xs. allocate_cents tot ws = Inr xs"
proof (cases "sum_list ws = 0")
  case True
  then show ?thesis
    using assms by (simp add: allocate_cents_def assert_cents_ok eachE_ok)
next
  case False
  have ws: "\<forall>w\<in>set ws. 0 \<le> w" and tot: "0 \<le> tot" using assms by (auto simp: valid_cents_def)
  have pos: "0 < sum_list ws" using False sum_list_nonneg_int [of ws] ws by force
  define ps where "ps = make_portions (sum_list ws) (map (\<lambda>w. tot * w) ws)"
  define xs where "xs = settle_portions (tot - sum_amounts ps) ps"
  have sum: "sum_list xs = tot"
    unfolding xs_def ps_def using allocate_portions(2,3) [OF pos tot ws] by (simp add: sum_settle_portions)
  have len: "length xs = length ws" by (simp add: xs_def ps_def)
  have nn: "0 \<le> x" if x: "x \<in> set xs" for x
  proof -
    obtain i where i: "i < length ws" "xs ! i = x" using x len by (metis in_set_conv_nth)
    have "0 \<le> tot * ws ! i div sum_list ws"
      using pos tot ws i by (simp add: pos_imp_zdiv_nonneg_iff)
    then show ?thesis
      using settle_weights [OF pos tot ws i(1)] i(2) by (auto simp: Let_def xs_def ps_def)
  qed
  have "x \<le> tot" if "x \<in> set xs" for x
    using member_le_sum_list_int [OF that nn] by (simp add: sum)
  then have "\<forall>x\<in>set xs. valid_cents x" using nn assms(1) by (fastforce simp: valid_cents_def)
  then have "mapE safe_number xs = Inr xs" by (rule mapE_safe_number)
  then have "allocate_cents tot ws = Inr xs"
    using assms(1,2) False
    by (simp add: allocate_cents_def Let_def xs_def ps_def assert_cents_ok eachE_ok)
  then show ?thesis by blast
qed

text \<open>Every share is within one cent of the proportional one (both multiplied by the sum).\<close>

lemma allocate_cents_near:
  assumes A: "allocate_cents tot ws = Inr xs" and i: "i < length ws"
  shows "\<bar>xs ! i * sum_list ws - tot * ws ! i\<bar> \<le> sum_list ws"
proof (cases "sum_list ws = 0")
  case True
  then show ?thesis using allocate_cents_cases [OF A] i by simp
next
  case False
  note c = allocate_cents_cases [OF A]
  have ws: "\<forall>w\<in>set ws. 0 \<le> w" and tot: "0 \<le> tot" using c by (auto simp: valid_cents_def)
  have pos: "0 < sum_list ws" using False sum_list_nonneg_int [of ws] ws by force
  let ?n = "tot * ws ! i" and ?S = "sum_list ws"
  obtain q r where q: "q = ?n div ?S" "q * ?S + r = ?n" "0 \<le> r" "r < ?S"
    using pos by (metis div_mult_mod_eq pos_mod_bound pos_mod_sign)
  have "xs ! i = ?n div ?S \<or> xs ! i = ?n div ?S + 1"
    using settle_weights [OF pos tot ws i] c False by (auto simp: Let_def)
  then have "xs ! i * ?S = q * ?S \<or> xs ! i * ?S = q * ?S + ?S" using q(1) by (auto simp: distrib_right)
  then show ?thesis using q(2-4) by linarith
qed

section \<open>Property\<close>

text \<open>
  C10: The split of an amount by weights is exact: it never loses or invents a cent, gives one
  share per weight, no share is negative, every share is within one cent of the proportional
  one, and an amount that does not exceed the sum of the weights never exceeds a weight in
  its share.
\<close>

theorem allocate_cents_exact:
  assumes "allocate_cents tot ws = Inr xs"
  shows "sum_list xs = tot \<and> length xs = length ws \<and>
     (\<forall>i<length ws. 0 \<le> xs ! i \<and> \<bar>xs ! i * sum_list ws - tot * ws ! i\<bar> \<le> sum_list ws \<and>
        (tot \<le> sum_list ws \<longrightarrow> xs ! i \<le> ws ! i))"
proof -
  have near: "\<bar>xs ! i * sum_list ws - tot * ws ! i\<bar> \<le> sum_list ws" if "i < length ws" for i
    using allocate_cents_near [OF assms that] .
  moreover have "0 \<le> xs ! i" if "i < length ws" for i
    using cents.alloc_nonneg [OF assms] cents.alloc_length [OF assms] that by simp
  ultimately show ?thesis
    using cents.alloc_sum [OF assms] cents.alloc_length [OF assms] cents.alloc_le [OF assms] by auto
qed

theorem allocate_cents_exact_witness:
  "allocate_cents 100 [1, 1, 1] = Inr [34, 33, 33] \<and> sum_list [34, 33, 33 :: int] = 100"
proof -
  have "allocate_cents 100 [1, 1, 1] = Inr [34, 33, 33]" by code_simp
  from allocate_cents_exact [OF this] this show ?thesis by simp
qed

end
