(* ===== verification/Discounts.thy ===== *)
theory Discounts
  imports JsDate Allocation
begin

text \<open>
  The configuration part of packages/domain/src/tennis-pricing.ts: dates, minute windows,
  opening hours and discount rules with their validation and the overlap test of two rules.
  The text comparisons of dates are JavaScript's lexicographic comparison of strings.
\<close>

section \<open>Strings\<close>

definition js_space :: "char \<Rightarrow> bool" where
  "js_space c \<longleftrightarrow> of_char c \<in> {9, 10, 11, 12, 13, 32, 160 :: nat}"

definition js_trim :: "string \<Rightarrow> string" where
  "js_trim s = rev (dropWhile js_space (rev (dropWhile js_space s)))"

definition blank :: "string \<Rightarrow> bool" where
  "blank s \<longleftrightarrow> js_trim s = []"

fun str_less :: "string \<Rightarrow> string \<Rightarrow> bool" where
  "str_less _ [] = False"
| "str_less [] (_ # _) = True"
| "str_less (a # as) (b # bs) =
     ((of_char a :: nat) < of_char b \<or> (a = b \<and> str_less as bs))"

definition str_le :: "string \<Rightarrow> string \<Rightarrow> bool" where
  "str_le a b \<longleftrightarrow> \<not> str_less b a"

section \<open>Records\<close>

record opening_window =
  ow_weekday :: int
  ow_start :: int
  ow_end :: int

record discount_rule =
  dr_id :: string
  dr_name :: string
  dr_venue :: string
  dr_courts :: "string list"
  dr_from :: string
  dr_to :: string
  dr_weekdays :: "int list"
  dr_start :: int
  dr_end :: int
  dr_bps :: int

section \<open>Validation\<close>

definition assert_date :: "string \<Rightarrow> pricing_error + instant" where
  "assert_date s =
     (case date_day s of None \<Rightarrow> Inl (InvalidConfiguration ''date'') | Some n \<Rightarrow> Inr (n * ms_per_day))"

definition assert_minutes :: "int \<Rightarrow> int \<Rightarrow> pricing_error + unit" where
  "assert_minutes s e =
     guardE (\<not> (s < 0 \<or> e > 1440 \<or> s \<ge> e \<or> s mod 15 \<noteq> 0 \<or> e mod 15 \<noteq> 0))
       (InvalidConfiguration ''timeWindow'')"

definition assert_weekday :: "int \<Rightarrow> pricing_error + unit" where
  "assert_weekday d = guardE (\<not> (d < 0 \<or> d > 6)) (InvalidConfiguration ''weekday'')"

fun windows_overlap :: "opening_window list \<Rightarrow> bool" where
  "windows_overlap [] = False"
| "windows_overlap (w # ws) =
     (list_ex (\<lambda>v. ow_weekday w = ow_weekday v \<and> ow_start w < ow_end v \<and> ow_end w > ow_start v) ws
      \<or> windows_overlap ws)"

definition validate_opening_hours :: "opening_window list \<Rightarrow> pricing_error + unit" where
  "validate_opening_hours ws =
     bindE (eachE (\<lambda>w. bindE (assert_weekday (ow_weekday w)) (\<lambda>_. assert_minutes (ow_start w) (ow_end w))) ws) (\<lambda>_.
     guardE (\<not> windows_overlap ws) (InvalidConfiguration ''openingHours''))"

definition validate_minimum_minutes :: "int \<Rightarrow> pricing_error + unit" where
  "validate_minimum_minutes m =
     guardE (\<not> (\<not> is_safe m \<or> m < 15 \<or> m mod 15 \<noteq> 0)) (InvalidConfiguration ''minimumBookingMinutes'')"

definition validate_discount_rule :: "discount_rule \<Rightarrow> pricing_error + unit" where
  "validate_discount_rule r =
     bindE (guardE (\<not> (blank (dr_id r) \<or> blank (dr_name r) \<or> blank (dr_venue r) \<or> dr_courts r = []
         \<or> list_ex blank (dr_courts r) \<or> \<not> distinct (dr_courts r)
         \<or> dr_weekdays r = [] \<or> \<not> distinct (dr_weekdays r)
         \<or> dr_bps r < 0 \<or> dr_bps r > 10000)) (InvalidConfiguration ''discount'')) (\<lambda>_.
     bindE (eachE assert_weekday (dr_weekdays r)) (\<lambda>_.
     bindE (assert_minutes (dr_start r) (dr_end r)) (\<lambda>_.
     bindE (assert_date (dr_from r)) (\<lambda>f.
     bindE (assert_date (dr_to r)) (\<lambda>t.
     guardE (\<not> f > t) (InvalidConfiguration ''dateRange''))))))"

definition discounts_overlap :: "discount_rule \<Rightarrow> discount_rule \<Rightarrow> pricing_error + bool" where
  "discounts_overlap a b =
     bindE (validate_discount_rule a) (\<lambda>_.
     bindE (validate_discount_rule b) (\<lambda>_.
     if dr_venue a \<noteq> dr_venue b \<or> \<not> list_ex (\<lambda>c. c \<in> set (dr_courts b)) (dr_courts a)
        \<or> dr_start a \<ge> dr_end b \<or> dr_start b \<ge> dr_end a
     then Inr False
     else
       bindE (assert_date (dr_from a)) (\<lambda>fa. bindE (assert_date (dr_from b)) (\<lambda>fb.
       bindE (assert_date (dr_to a)) (\<lambda>ta. bindE (assert_date (dr_to b)) (\<lambda>tb.
       let first = max fa fb; last = min ta tb in
       if first > last then Inr False
       else
         let weekday = weekday_of_day (day_of first) in
         Inr (list_ex (\<lambda>day. day \<in> set (dr_weekdays b) \<and>
                first + (day - weekday + 7) mod 7 * 86400000 \<le> last) (dr_weekdays a))))))))"

fun check_rules :: "string list \<Rightarrow> discount_rule list \<Rightarrow> pricing_error + unit" where
  "check_rules ids [] = Inr ()"
| "check_rules ids (r # rs) =
     bindE (validate_discount_rule r) (\<lambda>_.
     if dr_id r \<in> set ids then Inl (InvalidConfiguration ''duplicateRuleId'')
     else check_rules (dr_id r # ids) rs)"

fun check_pairs :: "discount_rule list \<Rightarrow> pricing_error + unit" where
  "check_pairs [] = Inr ()"
| "check_pairs (r # rs) =
     bindE (eachE (\<lambda>other. bindE (discounts_overlap r other) (\<lambda>b.
        guardE (\<not> b) (DiscountOverlap [dr_id r, dr_id other]))) rs) (\<lambda>_. check_pairs rs)"

definition validate_discount_set :: "discount_rule list \<Rightarrow> pricing_error + unit" where
  "validate_discount_set rules = bindE (check_rules [] rules) (\<lambda>_. check_pairs rules)"

section \<open>The rule that prices a quarter hour\<close>

text \<open>The local calendar view of an instant: ISO date, weekday (0 is Sunday) and minute of the day.\<close>

record local_slot =
  ls_date :: string
  ls_weekday :: int
  ls_minute :: int

definition rule_applies :: "discount_rule \<Rightarrow> local_slot \<Rightarrow> bool" where
  "rule_applies r s \<longleftrightarrow>
     str_le (dr_from r) (ls_date s) \<and> str_le (ls_date s) (dr_to r) \<and>
     ls_weekday s \<in> set (dr_weekdays r) \<and>
     dr_start r \<le> ls_minute s \<and> ls_minute s + 15 \<le> dr_end r"

definition window_covers :: "opening_window \<Rightarrow> local_slot \<Rightarrow> bool" where
  "window_covers w s \<longleftrightarrow>
     ow_weekday w = ls_weekday s \<and> ow_start w \<le> ls_minute s \<and> ls_minute s + 15 \<le> ow_end w"

section \<open>Dates as strings are ordered as dates\<close>

lemma str_less_irrefl [simp]: "\<not> str_less s s"
  by (induction s) auto

lemma str_less_append:
  "length a = length b \<Longrightarrow> str_less (a @ x) (b @ y) \<longleftrightarrow> str_less a b \<or> (a = b \<and> str_less x y)"
  by (induction a b rule: list_induct2) auto

lemma of_char_digit [simp]: "0 \<le> n \<Longrightarrow> n < 10 \<Longrightarrow> of_char (digit n) = 48 + nat n"
  by (simp add: digit_def of_char_of)

lemma digit_eq_iff: "0 \<le> a \<Longrightarrow> a < 10 \<Longrightarrow> 0 \<le> b \<Longrightarrow> b < 10 \<Longrightarrow> digit a = digit b \<longleftrightarrow> a = b"
  by (metis digit_val_digit option.inject)

lemma str_less_pad2:
  assumes "0 \<le> a" "a < 100" "0 \<le> b" "b < 100"
  shows "str_less (pad2 a) (pad2 b) \<longleftrightarrow> a < b" "pad2 a = pad2 b \<longleftrightarrow> a = b"
proof -
  have d: "0 \<le> a div 10" "a div 10 < 10" "0 \<le> b div 10" "b div 10 < 10"
    using assms by (simp_all add: div_less_iff_less_mult pos_imp_zdiv_nonneg_iff)
  have m: "a = 10 * (a div 10) + a mod 10" "b = 10 * (b div 10) + b mod 10" by simp_all
  have "a < b \<longleftrightarrow> a div 10 < b div 10 \<or> (a div 10 = b div 10 \<and> a mod 10 < b mod 10)"
    using m pos_mod_bound [of 10 a] pos_mod_bound [of 10 b] pos_mod_sign [of 10 a] pos_mod_sign [of 10 b]
    by linarith
  then show "str_less (pad2 a) (pad2 b) \<longleftrightarrow> a < b"
    using d by (auto simp: pad2_def digit_eq_iff nat_less_eq_zless)
  have "pad2 a = pad2 b \<longleftrightarrow> a div 10 = b div 10 \<and> a mod 10 = b mod 10"
    using d by (simp add: pad2_def digit_eq_iff)
  then show "pad2 a = pad2 b \<longleftrightarrow> a = b" using m by metis
qed

lemma str_less_pad4:
  assumes "0 \<le> a" "a < 10000" "0 \<le> b" "b < 10000"
  shows "str_less (pad4 a) (pad4 b) \<longleftrightarrow> a < b" "pad4 a = pad4 b \<longleftrightarrow> a = b"
proof -
  have d: "0 \<le> a div 100" "a div 100 < 100" "0 \<le> b div 100" "b div 100 < 100"
    using assms by (simp_all add: div_less_iff_less_mult pos_imp_zdiv_nonneg_iff)
  have r: "0 \<le> a mod 100" "a mod 100 < 100" "0 \<le> b mod 100" "b mod 100 < 100" by simp_all
  have m: "a = 100 * (a div 100) + a mod 100" "b = 100 * (b div 100) + b mod 100" by simp_all
  have "a < b \<longleftrightarrow> a div 100 < b div 100 \<or> (a div 100 = b div 100 \<and> a mod 100 < b mod 100)"
    using m r by linarith
  then show "str_less (pad4 a) (pad4 b) \<longleftrightarrow> a < b"
    using d r by (simp add: pad4_def str_less_append str_less_pad2)
  have "pad4 a = pad4 b \<longleftrightarrow> a div 100 = b div 100 \<and> a mod 100 = b mod 100"
    using d r by (simp add: pad4_def str_less_pad2)
  then show "pad4 a = pad4 b \<longleftrightarrow> a = b" using m by metis
qed

lemma year_of_day_mono: "n \<le> m \<Longrightarrow> year_of_day n \<le> year_of_day m"
proof (rule ccontr)
  assume nm: "n \<le> m" and "\<not> year_of_day n \<le> year_of_day m"
  then have "year_start (year_of_day m + 1) \<le> year_start (year_of_day n)" by (intro year_start_mono) simp
  then show False using nm year_of_day_bounds [of n] year_of_day_bounds [of m] by linarith
qed

lemma month_of_yday_mono: "a \<le> b \<Longrightarrow> month_of_yday l a \<le> month_of_yday l b"
  by (simp add: month_of_yday_def month_start_def)

lemma civil_less:
  assumes "civil_of_day a = (y, m, d)" "civil_of_day b = (y', m', d')" "a < b"
  shows "y < y' \<or> (y = y' \<and> (m < m' \<or> (m = m' \<and> d < d')))"
proof -
  have y: "y = year_of_day a" "y' = year_of_day b" using assms by (simp_all add: civil_of_day_def Let_def)
  have "y \<le> y'" unfolding y using assms by (intro year_of_day_mono) simp
  moreover have "m \<le> m'" "m = m' \<Longrightarrow> d < d'" if "y = y'"
    using assms that month_of_yday_mono [of "a - year_start y" "b - year_start y" "is_leap y"]
    by (auto simp: civil_of_day_def Let_def)
  ultimately show ?thesis by fastforce
qed

lemma iso_date_less:
  assumes "four_digit_year a" "four_digit_year b"
  shows "str_less (iso_date a) (iso_date b) \<longleftrightarrow> a < b"
proof -
  obtain y m d y' m' d' where c: "civil_of_day a = (y, m, d)" "civil_of_day b = (y', m', d')"
    by (metis prod_cases3)
  have r: "0 \<le> y" "y < 10000" "0 \<le> y'" "y' < 10000"
      "0 \<le> m" "m < 100" "0 \<le> m'" "m' < 100" "0 \<le> d" "d < 100" "0 \<le> d'" "d' < 100"
    using assms c make_day_civil [OF c(1)] make_day_civil [OF c(2)]
      days_in_month_range [of m y] days_in_month_range [of m' y']
    by (auto simp: four_digit_year_def)
  have less: "str_less (iso_date a) (iso_date b) \<longleftrightarrow>
      y < y' \<or> (y = y' \<and> (m < m' \<or> (m = m' \<and> d < d')))"
    using r by (simp add: iso_date_def c str_less_append str_less_pad4 str_less_pad2)
  show ?thesis
  proof
    assume "a < b"
    then show "str_less (iso_date a) (iso_date b)" using less civil_less [OF c] by blast
  next
    assume s: "str_less (iso_date a) (iso_date b)"
    show "a < b"
    proof (rule ccontr)
      assume "\<not> a < b"
      then have "a = b \<or> b < a" by linarith
      then show False using s less civil_less [OF c(2,1)] c by auto
    qed
  qed
qed

lemma iso_date_le: "four_digit_year a \<Longrightarrow> four_digit_year b \<Longrightarrow> str_le (iso_date a) (iso_date b) \<longleftrightarrow> a \<le> b"
  by (auto simp: str_le_def iso_date_less)

section \<open>What the validation of a rule gives\<close>

definition rule_wf :: "discount_rule \<Rightarrow> bool" where
  "rule_wf r \<longleftrightarrow> (\<exists>f t. date_day (dr_from r) = Some f \<and> date_day (dr_to r) = Some t \<and> f \<le> t) \<and>
     dr_courts r \<noteq> [] \<and> dr_weekdays r \<noteq> [] \<and> distinct (dr_weekdays r) \<and>
     (\<forall>d\<in>set (dr_weekdays r). 0 \<le> d \<and> d \<le> 6) \<and>
     0 \<le> dr_bps r \<and> dr_bps r \<le> 10000 \<and>
     0 \<le> dr_start r \<and> dr_start r < dr_end r \<and> dr_end r \<le> 1440 \<and>
     dr_start r mod 15 = 0 \<and> dr_end r mod 15 = 0"

lemma assert_date_Inr: "assert_date s = Inr t \<longleftrightarrow> (\<exists>n. date_day s = Some n \<and> t = n * ms_per_day)"
  by (auto simp: assert_date_def split: option.splits)

lemma ms_per_day_le [simp]: "a * ms_per_day \<le> b * ms_per_day \<longleftrightarrow> a \<le> b" "a * ms_per_day < b * ms_per_day \<longleftrightarrow> a < b"
  by (auto simp: ms_per_day_def)

lemma validate_discount_rule_wf: "validate_discount_rule r = Inr () \<Longrightarrow> rule_wf r"
  by (auto simp: validate_discount_rule_def rule_wf_def ok_iff assert_date_Inr assert_minutes_def assert_weekday_def
      not_less)

lemma rule_days:
  assumes "rule_wf r" "four_digit_year n" "date_day (dr_from r) = Some f" "date_day (dr_to r) = Some t"
  shows "str_le (dr_from r) (iso_date n) \<and> str_le (iso_date n) (dr_to r) \<longleftrightarrow> f \<le> n \<and> n \<le> t"
  using assms by (metis date_day_SomeD iso_date_le)

section \<open>The overlap test is exact\<close>

text \<open>The local view of minute m of day n.\<close>

definition slot_at :: "int \<Rightarrow> int \<Rightarrow> local_slot" where
  "slot_at n m = \<lparr>ls_date = iso_date n, ls_weekday = weekday_of_day n, ls_minute = m\<rparr>"

definition slot_ok :: "local_slot \<Rightarrow> bool" where
  "slot_ok s \<longleftrightarrow> (\<exists>n. four_digit_year n \<and> ls_date s = iso_date n \<and> ls_weekday s = weekday_of_day n) \<and>
     0 \<le> ls_minute s \<and> ls_minute s < 1440"

lemma slot_okE:
  assumes "slot_ok s"
  obtains n where "four_digit_year n" "s = slot_at n (ls_minute s)"
  using assms by (auto simp: slot_ok_def slot_at_def)

lemma weekday_range: "0 \<le> weekday_of_day n \<and> weekday_of_day n \<le> 6"
  using pos_mod_bound [of 7] pos_mod_sign [of 7] by (simp add: weekday_of_day_def flip: zle_diff1_eq)

lemma civil_of_day_year: "fst (civil_of_day n) = year_of_day n"
  by (simp add: civil_of_day_def Let_def)

text \<open>The first day from f on that has weekday w.\<close>

lemma next_weekday:
  fixes f :: int
  assumes w: "0 \<le> w" "w \<le> 6" and k_def: "k = (w - weekday_of_day f + 7) mod 7"
  shows "weekday_of_day (f + k) = w" "0 \<le> k" "\<And>n. f \<le> n \<Longrightarrow> weekday_of_day n = w \<Longrightarrow> f + k \<le> n"
proof -
  have "(weekday_of_day f + k) mod 7 = w"
    using assms by (simp add: k_def mod_add_right_eq)
  then show "weekday_of_day (f + k) = w" by (simp add: weekday_shift)
  show "0 \<le> k" by (simp add: k_def)
  fix n assume n: "f \<le> n" "weekday_of_day n = w"
  have "weekday_of_day n = (weekday_of_day f + (n - f)) mod 7" using weekday_shift [of f "n - f"] by simp
  then have "(n - f) mod 7 = (w - weekday_of_day f) mod 7"
    using n by (metis add_diff_cancel_left' mod_diff_left_eq)
  then have "k = (n - f) mod 7" by (simp add: k_def)
  then show "f + k \<le> n" using n zmod_le_nonneg_dividend [of "n - f" 7] by linarith
qed

lemma common_minute:
  assumes "rule_wf a" "rule_wf b"
  shows "(\<exists>m. dr_start a \<le> m \<and> m + 15 \<le> dr_end a \<and> dr_start b \<le> m \<and> m + 15 \<le> dr_end b \<and> 0 \<le> m \<and> m < 1440 \<and> m mod 15 = 0)
     \<longleftrightarrow> dr_start a < dr_end b \<and> dr_start b < dr_end a" (is "?L \<longleftrightarrow> ?R")
proof
  assume ?R
  define m where "m = max (dr_start a) (dr_start b)"
  have "m mod 15 = 0" "m < dr_end a" "m < dr_end b" using assms \<open>?R\<close> by (auto simp: rule_wf_def m_def max_def)
  moreover have "x + 15 \<le> y" if "x mod 15 = 0" "y mod 15 = 0" "x < y" for x y :: int
    using that by presburger
  ultimately have "m + 15 \<le> dr_end a" "m + 15 \<le> dr_end b" using assms by (auto simp: rule_wf_def)
  then show ?L using assms \<open>m mod 15 = 0\<close> by (intro exI [of _ m]) (auto simp: rule_wf_def m_def)
qed auto

lemma discounts_overlap_wf: "discounts_overlap a b = Inr v \<Longrightarrow> rule_wf a \<and> rule_wf b"
  by (auto simp: discounts_overlap_def bindE_Inr_iff intro: validate_discount_rule_wf)

lemma discounts_overlap_cases:
  assumes "discounts_overlap a b = Inr v"
  obtains fa ta fb tb where
    "rule_wf a" "rule_wf b"
    "date_day (dr_from a) = Some fa" "date_day (dr_to a) = Some ta"
    "date_day (dr_from b) = Some fb" "date_day (dr_to b) = Some tb"
    "v \<longleftrightarrow> dr_venue a = dr_venue b \<and> (\<exists>c\<in>set (dr_courts a). c \<in> set (dr_courts b)) \<and>
       dr_start a < dr_end b \<and> dr_start b < dr_end a \<and> max fa fb \<le> min ta tb \<and>
       (\<exists>d\<in>set (dr_weekdays a). d \<in> set (dr_weekdays b) \<and>
          max fa fb + (d - weekday_of_day (max fa fb) + 7) mod 7 \<le> min ta tb)"
proof -
  have wf: "rule_wf a" "rule_wf b"
    using discounts_overlap_wf [OF assms] by simp_all
  then obtain fa ta fb tb where d: "date_day (dr_from a) = Some fa" "date_day (dr_to a) = Some ta"
      "date_day (dr_from b) = Some fb" "date_day (dr_to b) = Some tb"
    by (auto simp: rule_wf_def)
  have mx: "max (x * ms_per_day) (y * ms_per_day) = max x y * ms_per_day"
      "min (x * ms_per_day) (y * ms_per_day) = min x y * ms_per_day" for x y
    by (auto simp: max_def min_def)
  have day: "day_of (x * ms_per_day) = x" for x by (simp add: day_of_def ms_per_day_def)
  have step: "x * ms_per_day + k * 86400000 \<le> y * ms_per_day \<longleftrightarrow> x + k \<le> y" for x k y
    by (auto simp: ms_per_day_def)
  let ?off = "dr_venue a \<noteq> dr_venue b \<or> \<not> list_ex (\<lambda>c. c \<in> set (dr_courts b)) (dr_courts a)
      \<or> dr_start a \<ge> dr_end b \<or> dr_start b \<ge> dr_end a"
  let ?hit = "list_ex (\<lambda>day. day \<in> set (dr_weekdays b) \<and>
      max fa fb + (day - weekday_of_day (max fa fb) + 7) mod 7 \<le> min ta tb) (dr_weekdays a)"
  have val: "validate_discount_rule a = Inr ()" "validate_discount_rule b = Inr ()"
    using assms by (simp_all add: discounts_overlap_def bindE_Inr_iff)
  have ad: "assert_date (dr_from a) = Inr (fa * ms_per_day)" "assert_date (dr_to a) = Inr (ta * ms_per_day)"
      "assert_date (dr_from b) = Inr (fb * ms_per_day)" "assert_date (dr_to b) = Inr (tb * ms_per_day)"
    using d by (simp_all add: assert_date_def)
  have "discounts_overlap a b = Inr (\<not> ?off \<and> \<not> max fa fb > min ta tb \<and> ?hit)"
    unfolding discounts_overlap_def val ad bindE_simps mx Let_def day step ms_per_day_le by (auto simp del: min_less_iff_disj)
  then have "v \<longleftrightarrow> \<not> ?off \<and> \<not> max fa fb > min ta tb \<and> ?hit" using assms by simp
  then have "v \<longleftrightarrow> dr_venue a = dr_venue b \<and> (\<exists>c\<in>set (dr_courts a). c \<in> set (dr_courts b)) \<and>
       dr_start a < dr_end b \<and> dr_start b < dr_end a \<and> max fa fb \<le> min ta tb \<and>
       (\<exists>d\<in>set (dr_weekdays a). d \<in> set (dr_weekdays b) \<and>
          max fa fb + (d - weekday_of_day (max fa fb) + 7) mod 7 \<le> min ta tb)"
    by (simp only: list_ex_iff not_less de_Morgan_disj not_not not_le conj_assoc)
  with wf d show ?thesis by (rule that)
qed

lemma discounts_overlap_iff:
  assumes "discounts_overlap a b = Inr v"
  shows "v \<longleftrightarrow> dr_venue a = dr_venue b \<and> (\<exists>c\<in>set (dr_courts a). c \<in> set (dr_courts b)) \<and>
     (\<exists>n m. four_digit_year n \<and> 0 \<le> m \<and> m < 1440 \<and> m mod 15 = 0 \<and>
        rule_applies a (slot_at n m) \<and> rule_applies b (slot_at n m))"
proof -
  from assms obtain fa ta fb tb where wf: "rule_wf a" "rule_wf b"
    and d: "date_day (dr_from a) = Some fa" "date_day (dr_to a) = Some ta"
      "date_day (dr_from b) = Some fb" "date_day (dr_to b) = Some tb"
    and v: "v \<longleftrightarrow> dr_venue a = dr_venue b \<and> (\<exists>c\<in>set (dr_courts a). c \<in> set (dr_courts b)) \<and>
       dr_start a < dr_end b \<and> dr_start b < dr_end a \<and> max fa fb \<le> min ta tb \<and>
       (\<exists>d\<in>set (dr_weekdays a). d \<in> set (dr_weekdays b) \<and>
          max fa fb + (d - weekday_of_day (max fa fb) + 7) mod 7 \<le> min ta tb)"
    by (rule discounts_overlap_cases)
  have mid: "four_digit_year n" if "max fa fb \<le> n" "n \<le> min ta tb" for n
  proof -
    have "four_digit_year fa" "four_digit_year ta" using d date_day_SomeD by blast+
    then show ?thesis using that year_of_day_mono [of fa n] year_of_day_mono [of n ta]
      by (auto simp: four_digit_year_def civil_of_day_year)
  qed
  have app: "rule_applies r (slot_at n m) \<longleftrightarrow> (f \<le> n \<and> n \<le> t) \<and> weekday_of_day n \<in> set (dr_weekdays r)
      \<and> dr_start r \<le> m \<and> m + 15 \<le> dr_end r"
    if "rule_wf r" "date_day (dr_from r) = Some f" "date_day (dr_to r) = Some t" "four_digit_year n" for r f t n m
    using rule_days [OF that(1,4,2,3)] by (auto simp: rule_applies_def slot_at_def)
  have days: "(\<exists>d\<in>set (dr_weekdays a). d \<in> set (dr_weekdays b) \<and>
        max fa fb + (d - weekday_of_day (max fa fb) + 7) mod 7 \<le> min ta tb) \<longleftrightarrow>
      (\<exists>n. four_digit_year n \<and> max fa fb \<le> n \<and> n \<le> min ta tb \<and>
        weekday_of_day n \<in> set (dr_weekdays a) \<and> weekday_of_day n \<in> set (dr_weekdays b))" (is "?L \<longleftrightarrow> ?R")
  proof
    assume ?L
    then obtain x where x: "x \<in> set (dr_weekdays a)" "x \<in> set (dr_weekdays b)"
        "max fa fb + (x - weekday_of_day (max fa fb) + 7) mod 7 \<le> min ta tb" by blast
    then have "0 \<le> x" "x \<le> 6" using wf by (auto simp: rule_wf_def)
    note nw = next_weekday [OF this refl, of "max fa fb"]
    let ?n = "max fa fb + (x - weekday_of_day (max fa fb) + 7) mod 7"
    have "max fa fb \<le> ?n" using nw(2) by linarith
    with nw(1) x mid [of ?n] show ?R by (intro exI [of _ ?n]) (simp only: simp_thms)
  next
    assume ?R
    then obtain n where n: "max fa fb \<le> n" "n \<le> min ta tb"
      "weekday_of_day n \<in> set (dr_weekdays a)" "weekday_of_day n \<in> set (dr_weekdays b)" by blast
    have "max fa fb + (weekday_of_day n - weekday_of_day (max fa fb) + 7) mod 7 \<le> n"
      using next_weekday(3) [OF _ _ refl, of "weekday_of_day n" "max fa fb" n] weekday_range [of n] n(1) by simp
    then show ?L using n by (intro bexI [of _ "weekday_of_day n"]) auto
  qed
  have "(\<exists>n m. four_digit_year n \<and> 0 \<le> m \<and> m < 1440 \<and> m mod 15 = 0 \<and>
        rule_applies a (slot_at n m) \<and> rule_applies b (slot_at n m)) \<longleftrightarrow>
      (\<exists>n. four_digit_year n \<and> max fa fb \<le> n \<and> n \<le> min ta tb \<and>
        weekday_of_day n \<in> set (dr_weekdays a) \<and> weekday_of_day n \<in> set (dr_weekdays b)) \<and>
      (\<exists>m. dr_start a \<le> m \<and> m + 15 \<le> dr_end a \<and> dr_start b \<le> m \<and> m + 15 \<le> dr_end b \<and> 0 \<le> m \<and> m < 1440 \<and> m mod 15 = 0)"
    by (simp only: app [OF wf(1) d(1,2)] app [OF wf(2) d(3,4)] max.bounded_iff min.bounded_iff cong: conj_cong,
      rule iffI; elim exE conjE; intro exI conjI; assumption)
  then show ?thesis using v days common_minute [OF wf] by auto
qed

section \<open>A validated set has one rule per quarter hour at most\<close>

lemma check_rules_ok:
  "check_rules ids rs = Inr () \<Longrightarrow>
     (\<forall>r\<in>set rs. rule_wf r) \<and> distinct (map dr_id rs) \<and> set ids \<inter> dr_id ` set rs = {}"
proof (induction ids rs rule: check_rules.induct)
  case (2 ids r rs)
  then show ?case by (auto simp: ok_iff dest: validate_discount_rule_wf split: if_splits)
qed simp

lemma check_pairs_ok:
  "check_pairs rs = Inr () \<Longrightarrow> i < j \<Longrightarrow> j < length rs \<Longrightarrow> discounts_overlap (rs ! i) (rs ! j) = Inr False"
proof (induction rs arbitrary: i j)
  case (Cons r rs)
  show ?case
  proof (cases i)
    case 0
    then have "rs ! (j - 1) \<in> set rs" using Cons.prems by (intro nth_mem) simp
    then show ?thesis using Cons.prems 0 by (auto simp: ok_iff nth_Cons')
  next
    case (Suc i')
    then show ?thesis using Cons.prems Cons.IH [of i' "j - 1"] by (auto simp: ok_iff nth_Cons')
  qed
qed simp

lemma not_overlap_not_both:
  assumes "discounts_overlap a b = Inr False" "slot_ok s" "dr_venue a = dr_venue b"
    "c \<in> set (dr_courts a)" "c \<in> set (dr_courts b)"
  shows "\<not> (rule_applies a s \<and> rule_applies b s)"
proof
  assume both: "rule_applies a s \<and> rule_applies b s"
  obtain n where n: "four_digit_year n" "s = slot_at n (ls_minute s)" using assms(2) by (rule slot_okE)
  have wf: "rule_wf a" "rule_wf b" using discounts_overlap_wf [OF assms(1)] by simp_all
  have "dr_start a < dr_end b" "dr_start b < dr_end a"
    using both by (auto simp: rule_applies_def)
  then obtain m where m: "dr_start a \<le> m" "m + 15 \<le> dr_end a" "dr_start b \<le> m"
      "m + 15 \<le> dr_end b" "0 \<le> m" "m < 1440" "m mod 15 = 0"
    using common_minute [OF wf] by (metis (no_types))
  have "ls_date s = iso_date n" "ls_weekday s = weekday_of_day n"
    using arg_cong [OF n(2), of ls_date] arg_cong [OF n(2), of ls_weekday] by (simp_all add: slot_at_def)
  then have "rule_applies a (slot_at n m)" "rule_applies b (slot_at n m)"
    using both m by (simp_all add: rule_applies_def slot_at_def)
  then have "\<exists>n m. four_digit_year n \<and> 0 \<le> m \<and> m < 1440 \<and> m mod 15 = 0 \<and>
      rule_applies a (slot_at n m) \<and> rule_applies b (slot_at n m)"
    using m(5-7) n(1) by (intro exI [of _ n] exI [of _ m] conjI) simp_all
  moreover have "\<exists>c\<in>set (dr_courts a). c \<in> set (dr_courts b)" using assms(4,5) by blast
  ultimately show False using discounts_overlap_iff [OF assms(1)] assms(3) by simp
qed

lemma at_most_one_rule:
  assumes "validate_discount_set rs = Inr ()" "slot_ok s"
    and common: "\<forall>r\<in>set rs. dr_venue r = v \<and> c \<in> set (dr_courts r)"
    and r: "r \<in> set rs" "rule_applies r s" and r': "r' \<in> set rs" "rule_applies r' s"
  shows "r = r'"
proof -
  obtain i j where ij: "i < length rs" "rs ! i = r" "j < length rs" "rs ! j = r'"
    using r(1) r'(1) by (metis in_set_conv_nth)
  have p: "check_pairs rs = Inr ()" using assms(1) by (auto simp: validate_discount_set_def ok_iff)
  have "\<not> i < j" "\<not> j < i"
    using check_pairs_ok [OF p] not_overlap_not_both [OF _ assms(2), of r r' c]
      not_overlap_not_both [OF _ assms(2), of r' r c] ij r r' common by metis+
  then show ?thesis using ij by (metis linorder_neqE_nat)
qed

lemma find_unique:
  assumes "\<And>x y. x \<in> set xs \<Longrightarrow> y \<in> set xs \<Longrightarrow> P x \<Longrightarrow> P y \<Longrightarrow> x = y" "set xs = set ys"
  shows "find P xs = find P ys"
proof -
  have f: "find P zs = Some x" if "x \<in> set xs" "P x" "set zs = set xs" for zs x
  proof -
    have "find P zs \<noteq> None" using that by (auto simp: find_None_iff)
    then obtain y where y: "find P zs = Some y" by blast
    then have "y \<in> set zs" "P y" by (auto simp: find_Some_iff)
    then show ?thesis using assms(1) that y by blast
  qed
  show ?thesis
  proof (cases "\<exists>x\<in>set xs. P x")
    case True
    then show ?thesis using f assms(2) by metis
  next
    case False
    then show ?thesis using assms(2) by (metis find_None_iff)
  qed
qed

section \<open>Property\<close>

text \<open>
  C4: The overlap test of two discount rules is exact: it answers true precisely when both
  rules belong to one venue, share a court, and there is a date and a quarter hour of that
  date to which both rules apply.
\<close>

theorem discounts_overlap_exact:
  assumes "discounts_overlap a b = Inr v"
  shows "v \<longleftrightarrow> dr_venue a = dr_venue b \<and> (\<exists>c\<in>set (dr_courts a). c \<in> set (dr_courts b)) \<and>
     (\<exists>n m. four_digit_year n \<and> 0 \<le> m \<and> m < 1440 \<and> m mod 15 = 0 \<and>
        rule_applies a (slot_at n m) \<and> rule_applies b (slot_at n m))"
  by (rule discounts_overlap_iff [OF assms])

definition example_rule :: discount_rule where
  "example_rule = \<lparr>dr_id = ''a'', dr_name = ''a'', dr_venue = ''v'', dr_courts = [''c'', ''d''],
     dr_from = ''2026-02-27'', dr_to = ''2026-03-04'', dr_weekdays = [0, 3], dr_start = 600, dr_end = 720, dr_bps = 8000\<rparr>"

definition example_rule2 :: discount_rule where
  "example_rule2 = \<lparr>dr_id = ''b'', dr_name = ''b'', dr_venue = ''v'', dr_courts = [''d''],
     dr_from = ''2026-03-01'', dr_to = ''2026-03-10'', dr_weekdays = [3, 4], dr_start = 705, dr_end = 900, dr_bps = 0\<rparr>"

theorem discounts_overlap_exact_witness:
  "discounts_overlap example_rule example_rule2 = Inr True \<and>
   (\<exists>n m. four_digit_year n \<and> 0 \<le> m \<and> m < 1440 \<and> m mod 15 = 0 \<and>
      rule_applies example_rule (slot_at n m) \<and> rule_applies example_rule2 (slot_at n m))"
proof -
  have "validate_discount_rule example_rule = Inr ()" "validate_discount_rule example_rule2 = Inr ()"
    by code_simp+
  moreover have "assert_date (dr_from example_rule) = Inr (20511 * ms_per_day)"
      "assert_date (dr_to example_rule) = Inr (20516 * ms_per_day)"
      "assert_date (dr_from example_rule2) = Inr (20513 * ms_per_day)"
      "assert_date (dr_to example_rule2) = Inr (20522 * ms_per_day)"
    by code_simp+
  ultimately have "discounts_overlap example_rule example_rule2 = Inr True"
    by (simp add: discounts_overlap_def Let_def day_of_def ms_per_day_def weekday_of_day_def)
      (simp add: example_rule_def example_rule2_def)
  from discounts_overlap_exact [OF this] this show ?thesis by blast
qed

end
