(* ===== verification/Pricing.thy ===== *)
theory Pricing
  imports CourtInterval Discounts
begin

text \<open>
  The pricing part of packages/domain/src/tennis-pricing.ts: the local calendar of a venue,
  the opening-hours test, the opening intervals of a range and the price of a court interval.
  The time zone data (Intl.DateTimeFormat) is the parameter \<open>fmt\<close>: for a zone name the
  formatted parts of every instant, or None where the constructor throws.
\<close>

section \<open>The calendar of a zone\<close>

record date_parts =
  pt_year :: string
  pt_month :: string
  pt_day :: string
  pt_weekday :: string
  pt_hour :: string
  pt_minute :: string

type_synonym intl = "string \<Rightarrow> (instant \<Rightarrow> date_parts) option"

definition assert_timezone :: "intl \<Rightarrow> string \<Rightarrow> pricing_error + unit" where
  "assert_timezone fmt tz =
     bindE (guardE (\<not> blank tz) (InvalidConfiguration ''timezone'')) (\<lambda>_.
     case fmt tz of None \<Rightarrow> Inl (InvalidConfiguration ''timezone'') | Some _ \<Rightarrow> Inr ())"

definition weekday_names :: "string list" where
  "weekday_names = [''Sun'', ''Mon'', ''Tue'', ''Wed'', ''Thu'', ''Fri'', ''Sat'']"

fun index_of :: "'a \<Rightarrow> 'a list \<Rightarrow> int" where
  "index_of x [] = -1"
| "index_of x (y # ys) = (if x = y then 0 else let i = index_of x ys in if i < 0 then -1 else i + 1)"

definition pad_start :: "nat \<Rightarrow> char \<Rightarrow> string \<Rightarrow> string" where
  "pad_start n c s = replicate (n - length s) c @ s"

text \<open>
  The minute of a slot is only compared with \<open>>=\<close> against a validated start (which is
  not negative), so a not-a-number minute is the value -1: both fail the comparison.
\<close>

definition local_of :: "(instant \<Rightarrow> date_parts) \<Rightarrow> instant \<Rightarrow> local_slot" where
  "local_of parts t =
     (let p = parts t in
      \<lparr>ls_date = pad_start 4 CHR ''0'' (pt_year p) @ ''-'' @ pt_month p @ ''-'' @ pt_day p,
       ls_weekday = index_of (pt_weekday p) weekday_names,
       ls_minute = (case (digits_val 0 (pt_hour p), digits_val 0 (pt_minute p)) of
          (Some h, Some m) \<Rightarrow> h * 60 + m | _ \<Rightarrow> -1)\<rparr>)"

definition calendar :: "intl \<Rightarrow> string \<Rightarrow> pricing_error + (instant \<Rightarrow> local_slot)" where
  "calendar fmt tz =
     bindE (assert_timezone fmt tz) (\<lambda>_.
     case fmt tz of None \<Rightarrow> Inl (InvalidConfiguration ''timezone'') | Some parts \<Rightarrow> Inr (local_of parts))"

section \<open>Opening hours\<close>

definition step_ms :: int where
  "step_ms = 15 * 60000"

text \<open>The loop of the quarter hours from \<open>s\<close> up to, not including, \<open>e\<close>.\<close>

function quarters :: "instant \<Rightarrow> instant \<Rightarrow> instant list" where
  "quarters s e = (if s < e then s # quarters (s + step_ms) e else [])"
  by pat_completeness auto
termination by (relation "measure (\<lambda>(s, e). nat (e - s))") (auto simp: step_ms_def)

declare quarters.simps [simp del]

datatype price_failure = BadInterval interval_error | PricingError pricing_error

definition in_interval :: "interval_error + 'a \<Rightarrow> price_failure + 'a" where
  "in_interval m = (case m of Inl x \<Rightarrow> Inl (BadInterval x) | Inr y \<Rightarrow> Inr y)"

definition in_pricing :: "pricing_error + 'a \<Rightarrow> price_failure + 'a" where
  "in_pricing m = (case m of Inl x \<Rightarrow> Inl (PricingError x) | Inr y \<Rightarrow> Inr y)"

definition slot_open :: "opening_window list \<Rightarrow> local_slot \<Rightarrow> bool" where
  "slot_open ws s \<longleftrightarrow> list_ex (\<lambda>w. window_covers w s) ws"

definition quarter_open :: "opening_window list \<Rightarrow> (instant \<Rightarrow> local_slot) \<Rightarrow> instant \<Rightarrow> bool" where
  "quarter_open ws local t = slot_open ws (local t)"

definition is_within_opening_hours ::
  "intl \<Rightarrow> court_interval \<Rightarrow> string \<Rightarrow> opening_window list \<Rightarrow> price_failure + bool" where
  "is_within_opening_hours fmt i tz ws =
     bindE (in_pricing (validate_opening_hours ws)) (\<lambda>_.
     bindE (in_interval (parse_court_interval i)) (\<lambda>p.
     bindE (in_pricing (calendar fmt tz)) (\<lambda>local.
     Inr (list_all (quarter_open ws local) (quarters (fst p) (snd p))))))"

text \<open>One turn of the loop of \<open>openingIntervals\<close>; the result grows at its head here.\<close>

definition add_opening :: "instant \<Rightarrow> court_interval list \<Rightarrow> court_interval list" where
  "add_opening t acc =
     (let s = to_iso_string t; e = to_iso_string (t + step_ms) in
      case acc of
        [] \<Rightarrow> [\<lparr>start_at = s, end_at = e\<rparr>]
      | p # ps \<Rightarrow> (if end_at p = s then p\<lparr>end_at := e\<rparr> # ps else \<lparr>start_at = s, end_at = e\<rparr> # p # ps))"

definition opening_step ::
  "opening_window list \<Rightarrow> (instant \<Rightarrow> local_slot) \<Rightarrow> instant \<Rightarrow> court_interval list \<Rightarrow> court_interval list" where
  "opening_step ws local t acc = (if quarter_open ws local t then add_opening t acc else acc)"

definition opening_intervals ::
  "intl \<Rightarrow> court_interval \<Rightarrow> string \<Rightarrow> opening_window list \<Rightarrow> price_failure + court_interval list" where
  "opening_intervals fmt rng tz ws =
     bindE (in_pricing (validate_opening_hours ws)) (\<lambda>_.
     bindE (in_interval (parse_court_interval rng)) (\<lambda>p.
     bindE (in_pricing (calendar fmt tz)) (\<lambda>local.
     Inr (rev (fold (opening_step ws local) (quarters (fst p) (snd p)) [])))))"

section \<open>The price of a court interval\<close>

record price_segment = court_interval +
  sg_hourly :: int
  sg_bps :: int
  sg_rule :: "string option"
  sg_amount :: int

record court_price = court_interval +
  cp_court :: string
  cp_venue :: string
  cp_total :: int
  cp_segments :: "price_segment list"

record price_input =
  pi_court :: string
  pi_venue :: string
  pi_timezone :: string
  pi_hourly :: "int option"
  pi_minimum :: "int option"
  pi_hours :: "opening_window list"
  pi_interval :: court_interval
  pi_discounts :: "discount_rule list"

record price_part =
  pp_numerator :: int
  pp_segment :: price_segment

definition denominator :: int where
  "denominator = 40000"

definition rule_bps :: "discount_rule option \<Rightarrow> int" where
  "rule_bps r = (case r of None \<Rightarrow> 10000 | Some x \<Rightarrow> dr_bps x)"

definition new_part :: "int \<Rightarrow> discount_rule option \<Rightarrow> instant \<Rightarrow> price_part" where
  "new_part hourly rule t =
     \<lparr>pp_numerator = hourly * rule_bps rule,
      pp_segment = \<lparr>start_at = to_iso_string t, end_at = to_iso_string (t + step_ms), sg_hourly = hourly,
        sg_bps = rule_bps rule, sg_rule = map_option dr_id rule, sg_amount = 0\<rparr>\<rparr>"

text \<open>One turn of the pricing loop; the parts grow at the head of the list here.\<close>

definition add_quarter :: "int \<Rightarrow> discount_rule option \<Rightarrow> instant \<Rightarrow> price_part list \<Rightarrow> price_part list" where
  "add_quarter hourly rule t acc =
     (case acc of
        [] \<Rightarrow> [new_part hourly rule t]
      | p # ps \<Rightarrow>
          (if sg_rule (pp_segment p) = map_option dr_id rule \<and> sg_bps (pp_segment p) = rule_bps rule
           then \<lparr>pp_numerator = pp_numerator p + hourly * rule_bps rule,
                 pp_segment = (pp_segment p)\<lparr>end_at := to_iso_string (t + step_ms)\<rparr>\<rparr> # ps
           else new_part hourly rule t # p # ps))"

definition quarter_rule :: "discount_rule list \<Rightarrow> (instant \<Rightarrow> local_slot) \<Rightarrow> instant \<Rightarrow> discount_rule option" where
  "quarter_rule ds local t = (let slot = local t in find (\<lambda>r. rule_applies r slot) ds)"

definition price_step ::
  "int \<Rightarrow> discount_rule list \<Rightarrow> (instant \<Rightarrow> local_slot) \<Rightarrow> instant \<Rightarrow> price_part list \<Rightarrow> price_part list" where
  "price_step hourly ds local t acc = add_quarter hourly (quarter_rule ds local t) t acc"

definition settle_parts :: "price_part list \<Rightarrow> int \<times> int list" where
  "settle_parts parts =
     (let ns = map pp_numerator parts;
          total = (sum_list ns + denominator div 2) div denominator;
          amounts = make_portions denominator ns;
          extra = total - sum_amounts amounts
      in (total, settle_portions extra amounts))"

definition applicable_rules :: "price_input \<Rightarrow> discount_rule list" where
  "applicable_rules x =
     filter (\<lambda>r. dr_venue r = pi_venue x \<and> pi_court x \<in> set (dr_courts r)) (pi_discounts x)"

definition price_court_interval :: "intl \<Rightarrow> price_input \<Rightarrow> price_failure + court_price" where
  "price_court_interval fmt x =
     bindE (in_interval (parse_court_interval (pi_interval x))) (\<lambda>(s, e).
     case (pi_hourly x, pi_minimum x) of
       (Some hourly, Some minimum) \<Rightarrow>
         bindE (in_pricing (assert_cents hourly)) (\<lambda>_.
         bindE (in_pricing (validate_minimum_minutes minimum)) (\<lambda>_.
         bindE (guardE (\<not> e - s < minimum * 60000) (PricingError BelowMinimumDuration)) (\<lambda>_.
         bindE (is_within_opening_hours fmt (pi_interval x) (pi_timezone x) (pi_hours x)) (\<lambda>open.
         bindE (guardE open (PricingError OutsideOpeningHours)) (\<lambda>_.
         let discounts = applicable_rules x in
         bindE (in_pricing (validate_discount_set discounts)) (\<lambda>_.
         bindE (in_pricing (calendar fmt (pi_timezone x))) (\<lambda>local.
         let parts = rev (fold (price_step hourly discounts local) (quarters s e) []);
             settled = settle_parts parts
         in bindE (in_pricing (safe_number (fst settled))) (\<lambda>total.
            bindE (in_pricing (mapE safe_number (snd settled))) (\<lambda>amounts.
            Inr \<lparr>start_at = to_iso_string s, end_at = to_iso_string e, cp_court = pi_court x,
              cp_venue = pi_venue x, cp_total = total,
              cp_segments = map2 (\<lambda>p a. (pp_segment p)\<lparr>sg_amount := a\<rparr>) parts amounts\<rparr>)))))))))
     | _ \<Rightarrow> Inl (PricingError PriceNotConfigured))"

section \<open>Quarter hours\<close>

lemma quarters_Cons: "s < e \<Longrightarrow> quarters s e = s # quarters (s + step_ms) e"
  by (subst quarters.simps) simp

lemma quarters_Nil: "e \<le> s \<Longrightarrow> quarters s e = []"
  by (subst quarters.simps) simp

lemma step_pos [simp]: "0 < step_ms" "0 \<le> step_ms"
  by (simp_all add: step_ms_def)

lemma grid_shift: "(m - (s + step_ms)) mod step_ms = (m - s) mod step_ms"
  using minus_mod_self2 [of "m - s" step_ms] by (simp add: algebra_simps)

lemma grid_next: "s mod step_ms = 0 \<Longrightarrow> t mod step_ms = 0 \<Longrightarrow> s < t \<Longrightarrow> s + step_ms \<le> t"
  using zdvd_imp_le [of step_ms "t - s"] dvd_diff [of step_ms t s] by (simp add: mod_eq_0_iff_dvd)

lemma quarters_append:
  "s \<le> m \<Longrightarrow> m \<le> e \<Longrightarrow> (m - s) mod step_ms = 0 \<Longrightarrow> quarters s e = quarters s m @ quarters m e"
proof (induction s m rule: quarters.induct)
  case (1 s m)
  show ?case
  proof (cases "s < m")
    case True
    then have "\<not> m < s + step_ms" using 1(4) mod_pos_pos_trivial [of "m - s" step_ms] by auto
    moreover have "(m - (s + step_ms)) mod step_ms = 0" using 1(4) by (simp add: grid_shift)
    ultimately show ?thesis using 1(1) True 1(3) by (simp add: quarters_Cons)
  next
    case False
    then show ?thesis using 1(2) by (simp add: quarters_Nil)
  qed
qed

lemma quarters_snoc:
  assumes "s \<le> m" "(m - s) mod step_ms = 0"
  shows "quarters s (m + step_ms) = quarters s m @ [m]"
  using quarters_append [of s m "m + step_ms"] assms by (simp add: quarters_Cons quarters_Nil)

lemma set_quarters: "s mod step_ms = 0 \<Longrightarrow> t \<in> set (quarters s e) \<longleftrightarrow> s \<le> t \<and> t < e \<and> t mod step_ms = 0"
proof (induction s e rule: quarters.induct)
  case (1 s e)
  show ?case
  proof (cases "s < e")
    case True
    have "(s + step_ms) mod step_ms = 0" using 1(2) by simp
    then have "t \<in> set (quarters (s + step_ms) e) \<longleftrightarrow> s + step_ms \<le> t \<and> t < e \<and> t mod step_ms = 0"
      using 1(1) True by simp
    moreover have "s \<le> t \<and> t < e \<and> t mod step_ms = 0 \<longleftrightarrow> t = s \<or> (s + step_ms \<le> t \<and> t < e \<and> t mod step_ms = 0)"
    proof (cases "t mod step_ms = 0 \<and> s < t")
      case True
      then show ?thesis using grid_next [of s t] 1(2) by auto
    next
      case False
      moreover have "s + step_ms \<le> t \<Longrightarrow> s < t" using step_pos(1) by linarith
      ultimately show ?thesis using \<open>s < e\<close> 1(2) by (metis order_le_less)
    qed
    ultimately show ?thesis using True by (simp add: quarters_Cons)
  next
    case False
    then show ?thesis by (auto simp: quarters_Nil)
  qed
qed

text \<open>Induction over a run of quarter hours, one more at the end.\<close>

lemma quarters_induct [consumes 2, case_names base step]:
  assumes "s \<le> e" "(e - s) mod step_ms = 0" and "P s []"
    and step: "\<And>m. s \<le> m \<Longrightarrow> m < e \<Longrightarrow> (m - s) mod step_ms = 0 \<Longrightarrow> P m (quarters s m) \<Longrightarrow>
      P (m + step_ms) (quarters s m @ [m])"
  shows "P e (quarters s e)"
proof -
  define k where "k = nat ((e - s) div step_ms)"
  have e: "e = s + int k * step_ms"
    using assms(1,2) by (simp add: k_def pos_imp_zdiv_nonneg_iff) (metis add.commute diff_add_cancel dvd_mult_div_cancel mod_0_imp_dvd mult.commute)
  have "P (s + int j * step_ms) (quarters s (s + int j * step_ms))" if "j \<le> k" for j
    using that
  proof (induction j)
    case 0
    then show ?case using assms(3) by (simp add: quarters_Nil)
  next
    case (Suc j)
    let ?m = "s + int j * step_ms"
    have "?m < e" using Suc(2) by (simp add: e mult_less_cancel_right not_le)
    then show ?case
      using step [of ?m] Suc quarters_snoc [of s ?m] by (simp add: algebra_simps)
  qed
  then show ?thesis using e by blast
qed

section \<open>The parts are the maximal runs of one rule\<close>

definition rule_key :: "discount_rule option \<Rightarrow> string option \<times> int" where
  "rule_key r = (map_option dr_id r, rule_bps r)"

text \<open>What a run of quarter hours under one rule contributes.\<close>

definition run_part :: "int \<Rightarrow> (instant \<Rightarrow> discount_rule option) \<Rightarrow> instant list \<Rightarrow> price_part" where
  "run_part hourly rule r =
     \<lparr>pp_numerator = sum_list (map (\<lambda>t. hourly * rule_bps (rule t)) r),
      pp_segment = \<lparr>start_at = to_iso_string (hd r), end_at = to_iso_string (last r + step_ms),
        sg_hourly = hourly, sg_bps = rule_bps (rule (hd r)), sg_rule = map_option dr_id (rule (hd r)),
        sg_amount = 0\<rparr>\<rparr>"

definition maximal_runs :: "(instant \<Rightarrow> 'k) \<Rightarrow> instant list \<Rightarrow> instant list list \<Rightarrow> bool" where
  "maximal_runs key ts rs \<longleftrightarrow> concat rs = ts \<and> [] \<notin> set rs \<and>
     (\<forall>r\<in>set rs. \<forall>t\<in>set r. key t = key (hd r)) \<and>
     successively (\<lambda>a b. key (hd a) \<noteq> key (hd b)) rs"

lemma run_part_single: "run_part h rule [t] = new_part h (rule t) t"
  by (simp add: run_part_def new_part_def)

lemma maximal_runs_snoc:
  assumes "maximal_runs key ts (rs @ [r])"
  shows "key (hd r) = key t \<Longrightarrow> maximal_runs key (ts @ [t]) (rs @ [r @ [t]])"
    "key (hd r) \<noteq> key t \<Longrightarrow> maximal_runs key (ts @ [t]) ((rs @ [r]) @ [[t]])"
  using assms by (auto simp: maximal_runs_def successively_append_iff)

lemma add_quarter_runs:
  assumes "maximal_runs (\<lambda>t. rule_key (rule t)) ts (rev rs)"
  shows "\<exists>rs'. maximal_runs (\<lambda>t. rule_key (rule t)) (ts @ [t]) (rev rs') \<and>
     add_quarter h (rule t) t (map (run_part h rule) rs) = map (run_part h rule) rs'"
proof (cases rs)
  case Nil
  then show ?thesis
    using assms by (intro exI [of _ "[[t]]"]) (auto simp: maximal_runs_def add_quarter_def run_part_single)
next
  case (Cons r rs0)
  then have r: "maximal_runs (\<lambda>t. rule_key (rule t)) ts (rev rs0 @ [r])" "r \<noteq> []"
    using assms by (auto simp: maximal_runs_def)
  have key: "sg_rule (pp_segment (run_part h rule r)) = map_option dr_id (rule t) \<and>
      sg_bps (pp_segment (run_part h rule r)) = rule_bps (rule t) \<longleftrightarrow>
      (\<lambda>t. rule_key (rule t)) (hd r) = (\<lambda>t. rule_key (rule t)) t"
    by (simp add: run_part_def rule_key_def)
  show ?thesis
  proof (cases "(\<lambda>t. rule_key (rule t)) (hd r) = (\<lambda>t. rule_key (rule t)) t")
    case True
    have "run_part h rule (r @ [t]) = \<lparr>pp_numerator = pp_numerator (run_part h rule r) + h * rule_bps (rule t),
        pp_segment = (pp_segment (run_part h rule r))\<lparr>end_at := to_iso_string (t + step_ms)\<rparr>\<rparr>"
      using r(2) by (simp add: run_part_def)
    then show ?thesis
      using maximal_runs_snoc(1) [OF r(1) True] key True
      by (intro exI [of _ "(r @ [t]) # rs0"]) (simp add: Cons add_quarter_def)
  next
    case False
    then show ?thesis
      using maximal_runs_snoc(2) [OF r(1) False] key
      by (intro exI [of _ "[t] # r # rs0"]) (simp add: Cons add_quarter_def run_part_single)
  qed
qed

lemma fold_quarters_runs:
  "\<exists>rs. maximal_runs (\<lambda>t. rule_key (rule t)) ts rs \<and>
     rev (fold (\<lambda>t. add_quarter h (rule t) t) ts []) = map (run_part h rule) rs"
proof -
  have "\<exists>rs. maximal_runs (\<lambda>t. rule_key (rule t)) ts (rev rs) \<and>
      fold (\<lambda>t. add_quarter h (rule t) t) ts [] = map (run_part h rule) rs"
  proof (induction ts rule: rev_induct)
    case Nil
    then show ?case by (simp add: maximal_runs_def)
  next
    case (snoc t ts)
    then obtain rs where "maximal_runs (\<lambda>t. rule_key (rule t)) ts (rev rs)"
      "fold (\<lambda>t. add_quarter h (rule t) t) ts [] = map (run_part h rule) rs" by blast
    then show ?case using add_quarter_runs by simp
  qed
  then show ?thesis by (metis rev_map rev_rev_ident)
qed

lemma run_numerators:
  "maximal_runs key ts rs \<Longrightarrow>
     sum_list (map (pp_numerator \<circ> run_part h rule) rs) = sum_list (map (\<lambda>t. h * rule_bps (rule t)) ts)"
proof -
  have "sum_list (map (pp_numerator \<circ> run_part h rule) rs) =
      sum_list (map (\<lambda>t. h * rule_bps (rule t)) (concat rs))"
    by (induction rs) (auto simp: run_part_def)
  then show "maximal_runs key ts rs \<Longrightarrow> ?thesis" by (simp add: maximal_runs_def)
qed

section \<open>Settling the parts\<close>

lemma div_add_half:
  fixes a r :: int
  shows "(a * 40000 + r + 20000) div 40000 = a + (r + 20000) div 40000"
  by simp

lemma settle_parts_sum:
  assumes "settle_parts parts = (tot, amounts)"
  shows "tot = (sum_list (map pp_numerator parts) + 20000) div 40000"
    "sum_list amounts = tot" "length amounts = length parts"
proof -
  let ?ns = "map pp_numerator parts"
  let ?ps = "make_portions denominator ?ns"
  let ?R = "sum_list (map (\<lambda>n. n mod denominator) ?ns)"
  have D: "denominator = 40000" by (simp add: denominator_def)
  have sa: "sum_amounts ?ps = sum_list (map (\<lambda>n. n div denominator) ?ns)"
    unfolding sum_amounts_def by (simp only: make_portions_amounts)
  show t: "tot = (sum_list ?ns + 20000) div 40000"
    using assms by (simp add: settle_parts_def Let_def D)
  have "sum_list ?ns = sum_list (map (\<lambda>n. n div denominator) ?ns) * 40000 + ?R"
    using sum_div_mod_list [of denominator ?ns] by (simp only: D)
  then have extra: "tot - sum_amounts ?ps = (?R + 20000) div 40000"
    unfolding t sa by (simp only: div_add_half)
  have R: "0 \<le> ?R" "?R \<le> int (length parts) * 39999"
    using sum_remainders_bound [of denominator ?ns] by (simp_all add: D)
  have "?R + 20000 < 40000 * (int (length parts) + 1)" using R by (simp add: algebra_simps)
  then have "(?R + 20000) div 40000 < int (length parts) + 1" by (simp add: div_less_iff_less_mult mult.commute)
  moreover have "0 \<le> (?R + 20000) div 40000" using R by (simp add: pos_imp_zdiv_nonneg_iff)
  ultimately have k: "0 \<le> tot - sum_amounts ?ps" "tot - sum_amounts ?ps \<le> int (length ?ps)"
    by (simp_all add: extra)
  have am: "amounts = settle_portions (tot - sum_amounts ?ps) ?ps"
    using assms by (auto simp: settle_parts_def Let_def)
  show "sum_list amounts = tot" unfolding am using sum_settle_portions [OF k] by simp
  show "length amounts = length parts" unfolding am by simp
qed

section \<open>The price\<close>

lemma in_interval_Inr [ok_iff]: "in_interval m = Inr y \<longleftrightarrow> m = Inr y"
  by (cases m) (simp_all add: in_interval_def)

lemma in_pricing_Inr [ok_iff]: "in_pricing m = Inr y \<longleftrightarrow> m = Inr y"
  by (cases m) (simp_all add: in_pricing_def)

definition price_parts :: "price_input \<Rightarrow> int \<Rightarrow> (instant \<Rightarrow> local_slot) \<Rightarrow> instant \<Rightarrow> instant \<Rightarrow> price_part list" where
  "price_parts x hourly local s e =
     rev (fold (price_step hourly (applicable_rules x) local) (quarters s e) [])"

lemma price_step_fun: "price_step h ds local = (\<lambda>t. add_quarter h (quarter_rule ds local t) t)"
  by (simp add: fun_eq_iff price_step_def)

text \<open>A successful call, taken apart once for all its users.\<close>

lemma price_court_interval_Inr:
  "price_court_interval fmt x = Inr p \<longleftrightarrow>
     (\<exists>s e hourly minimum local. parse_court_interval (pi_interval x) = Inr (s, e) \<and>
        pi_hourly x = Some hourly \<and> pi_minimum x = Some minimum \<and> valid_cents hourly \<and>
        validate_minimum_minutes minimum = Inr () \<and> minimum * 60000 \<le> e - s \<and>
        is_within_opening_hours fmt (pi_interval x) (pi_timezone x) (pi_hours x) = Inr True \<and>
        validate_discount_set (applicable_rules x) = Inr () \<and>
        calendar fmt (pi_timezone x) = Inr local \<and>
        valid_cents (fst (settle_parts (price_parts x hourly local s e))) \<and>
        (\<forall>a\<in>set (snd (settle_parts (price_parts x hourly local s e))). valid_cents a) \<and>
        p = \<lparr>start_at = to_iso_string s, end_at = to_iso_string e, cp_court = pi_court x,
          cp_venue = pi_venue x, cp_total = fst (settle_parts (price_parts x hourly local s e)),
          cp_segments = map2 (\<lambda>q a. (pp_segment q)\<lparr>sg_amount := a\<rparr>) (price_parts x hourly local s e)
            (snd (settle_parts (price_parts x hourly local s e)))\<rparr>)" (is "?L \<longleftrightarrow> ?R")
proof
  assume L: ?L
  obtain s e where i: "parse_court_interval (pi_interval x) = Inr (s, e)"
    using L by (auto simp: price_court_interval_def ok_iff)
  obtain hourly minimum where c: "pi_hourly x = Some hourly" "pi_minimum x = Some minimum"
    using L by (auto simp: price_court_interval_def ok_iff split: option.splits)
  show ?R
    using L unfolding price_court_interval_def price_parts_def Let_def
    by (auto simp: ok_iff i c dest!: mapE_safe_number_Inr)
next
  assume ?R
  then show ?L
    unfolding price_court_interval_def price_parts_def Let_def
    by (auto simp: ok_iff in_pricing_def in_interval_def assert_cents_ok mapE_safe_number safe_number_def)
qed

section \<open>Opening intervals cover exactly the open quarter hours\<close>

lemma day_of_mono: "s \<le> t \<Longrightarrow> day_of s \<le> day_of t"
  by (simp add: day_of_def ms_per_day_def zdiv_mono1)

lemma four_digit_iff: "four_digit_year n \<longleftrightarrow> 0 \<le> year_of_day n \<and> year_of_day n \<le> 9999"
  by (simp add: four_digit_year_def civil_of_day_year)

lemma four_digit_between:
  "four_digit_year (day_of s) \<Longrightarrow> four_digit_year (day_of e) \<Longrightarrow> s \<le> t \<Longrightarrow> t \<le> e \<Longrightarrow> four_digit_year (day_of t)"
  using year_of_day_mono [OF day_of_mono, of s t] year_of_day_mono [OF day_of_mono, of t e]
  by (simp add: four_digit_iff)

lemma to_iso_inj:
  assumes "a mod 60000 = 0" "four_digit_year (day_of a)" "b mod 60000 = 0" "four_digit_year (day_of b)"
  shows "to_iso_string a = to_iso_string b \<longleftrightarrow> a = b"
  using minute_instant_to_iso [OF assms(1,2)] minute_instant_to_iso [OF assms(3,4)] by (metis sum.inject(2))

lemma grid_minute: "t mod step_ms = 0 \<Longrightarrow> t mod 60000 = (0::int)"
  using mod_mod_cancel [of 60000 step_ms t] by (simp add: step_ms_def)

lemma span_join: "a \<le> b \<Longrightarrow> b \<le> c \<Longrightarrow> span (a, c) = span (a, b) \<union> span (b, c)"
  by (auto simp: span_def)

definition opening_inv :: "(instant \<Rightarrow> bool) \<Rightarrow> instant \<Rightarrow> instant \<Rightarrow> instant list \<Rightarrow> parsed_interval list \<Rightarrow> bool" where
  "opening_inv P s m ts ps \<longleftrightarrow>
     spans ps = (\<Union>t\<in>{t \<in> set ts. P t}. span (t, t + step_ms)) \<and>
     sorted_wrt (\<lambda>q p. snd p < fst q) ps \<and>
     (\<forall>p\<in>set ps. s \<le> fst p \<and> fst p < snd p \<and> snd p \<le> m \<and> fst p mod step_ms = 0 \<and> snd p mod step_ms = 0)"

lemma opening_inv_step:
  assumes inv: "opening_inv P s m ts ps" and "s \<le> m" "m < e" "m mod step_ms = 0" "P m"
    and years: "\<And>t. s \<le> t \<Longrightarrow> t \<le> e \<Longrightarrow> four_digit_year (day_of t)"
  shows "\<exists>ps'. add_opening m (map render ps) = map render ps' \<and> opening_inv P s (m + step_ms) (ts @ [m]) ps'"
proof (cases ps)
  case Nil
  then show ?thesis
    using assms by (intro exI [of _ "[(m, m + step_ms)]"])
      (auto simp: add_opening_def render_def opening_inv_def Let_def span_def step_ms_def)
next
  case (Cons p rest)
  have p: "s \<le> fst p" "fst p < snd p" "snd p \<le> m" "fst p mod step_ms = 0" "snd p mod step_ms = 0"
    using inv Cons by (auto simp: opening_inv_def)
  have same: "to_iso_string (snd p) = to_iso_string m \<longleftrightarrow> snd p = m"
    using p assms by (intro to_iso_inj years grid_minute) simp_all
  have u: "(\<Union>t\<in>{t \<in> set (ts @ [m]). P t}. span (t, t + step_ms)) = spans ps \<union> span (m, m + step_ms)"
    using inv \<open>P m\<close> by (auto simp: opening_inv_def)
  have m1: "(m + step_ms) mod step_ms = 0" using assms by simp
  show ?thesis
  proof (cases "snd p = m")
    case True
    have "add_opening m (map render ps) = map render ((fst p, m + step_ms) # rest)"
      using True by (simp add: Cons add_opening_def render_def Let_def)
    moreover have "opening_inv P s (m + step_ms) (ts @ [m]) ((fst p, m + step_ms) # rest)"
      unfolding opening_inv_def
    proof (intro conjI)
      have "span (fst p, m + step_ms) = span p \<union> span (m, m + step_ms)"
        using span_join [of "fst p" m "m + step_ms"] p(2) True by (cases p) (simp add: step_ms_def)
      then show "spans ((fst p, m + step_ms) # rest) = (\<Union>t\<in>{t \<in> set (ts @ [m]). P t}. span (t, t + step_ms))"
        unfolding u Cons by auto
      show "sorted_wrt (\<lambda>q p. snd p < fst q) ((fst p, m + step_ms) # rest)"
        using inv by (simp add: opening_inv_def Cons)
      have "snd q \<le> m + step_ms" if "q \<in> set rest" for q
        using inv that by (fastforce simp: opening_inv_def Cons step_ms_def)
      then show "\<forall>p\<in>set ((fst p, m + step_ms) # rest). s \<le> fst p \<and> fst p < snd p \<and> snd p \<le> m + step_ms
          \<and> fst p mod step_ms = 0 \<and> snd p mod step_ms = 0"
        using inv p m1 True by (auto simp: opening_inv_def Cons step_ms_def)
    qed
    ultimately show ?thesis by blast
  next
    case False
    have "add_opening m (map render ps) = map render ((m, m + step_ms) # ps)"
      using False same by (simp add: Cons add_opening_def render_def Let_def)
    moreover have "opening_inv P s (m + step_ms) (ts @ [m]) ((m, m + step_ms) # ps)"
      unfolding opening_inv_def u using inv p m1 False assms(2,4)
      by (fastforce simp: opening_inv_def Cons step_ms_def)
    ultimately show ?thesis by blast
  qed
qed

lemma opening_fold:
  assumes "s \<le> e" "s mod step_ms = 0" "e mod step_ms = 0"
    and "\<And>t. s \<le> t \<Longrightarrow> t \<le> e \<Longrightarrow> four_digit_year (day_of t)"
  shows "\<exists>ps. fold (\<lambda>t acc. if P t then add_opening t acc else acc) (quarters s e) [] = map render ps \<and>
     opening_inv P s e (quarters s e) ps"
proof -
  have "(e - s) mod step_ms = 0" using assms(2,3) by (simp add: mod_diff_eq [symmetric])
  with \<open>s \<le> e\<close> show ?thesis
  proof (induction rule: quarters_induct)
    case base
    then show ?case by (simp add: opening_inv_def)
  next
    case (step m)
    then obtain ps where ps: "fold (\<lambda>t acc. if P t then add_opening t acc else acc) (quarters s m) [] = map render ps"
      "opening_inv P s m (quarters s m) ps" by blast
    have m: "m mod step_ms = 0" using step(3) assms(2) by (metis add.right_neutral diff_add_cancel mod_add_eq mod_0 add.commute)
    show ?case
    proof (cases "P m")
      case True
      then show ?thesis using opening_inv_step [OF ps(2) step(1,2) m True assms(4)] ps(1) by simp
    next
      case False
      have "opening_inv P s (m + step_ms) (quarters s m @ [m]) ps"
      proof -
        have "{t \<in> set (quarters s m @ [m]). P t} = {t \<in> set (quarters s m). P t}" using False by auto
        then show ?thesis using ps(2) by (auto simp: opening_inv_def step_ms_def)
      qed
      then show ?thesis using ps(1) False by auto
    qed
  qed
qed

lemma quarter_of:
  assumes "q mod step_ms = 0"
  shows "t \<in> span (q, q + step_ms) \<longleftrightarrow> q = t - t mod step_ms"
proof
  assume "t \<in> span (q, q + step_ms)"
  then have "0 \<le> t - q" "t - q < step_ms" by (auto simp: span_def)
  then have "(t - q) mod step_ms = t - q" by simp
  then have "t mod step_ms = t - q" using assms by (metis diff_zero mod_diff_right_eq)
  then show "q = t - t mod step_ms" by simp
next
  assume "q = t - t mod step_ms"
  moreover have "0 \<le> t mod step_ms" "t mod step_ms < step_ms" by simp_all
  ultimately show "t \<in> span (q, q + step_ms)" by (auto simp: span_def)
qed

lemma open_quarters_span:
  assumes "s mod step_ms = 0" "e mod step_ms = 0"
  shows "(\<Union>t\<in>{t \<in> set (quarters s e). P t}. span (t, t + step_ms)) = {t. s \<le> t \<and> t < e \<and> P (t - t mod step_ms)}"
    (is "?L = ?R")
proof -
  have q: "t - t mod step_ms \<in> set (quarters s e) \<longleftrightarrow> s \<le> t \<and> t < e" for t
  proof -
    let ?q = "t - t mod step_ms"
    have g: "?q mod step_ms = 0" by (simp add: mod_diff_right_eq)
    have b: "?q \<le> t" "t < ?q + step_ms"
      using pos_mod_sign [OF step_pos(1), of t] pos_mod_bound [OF step_pos(1), of t] by linarith+
    have "s \<le> t \<longleftrightarrow> s \<le> ?q" using grid_next [OF g assms(1)] b by linarith
    moreover have "t < e \<longleftrightarrow> ?q < e" using grid_next [OF g assms(2)] b by linarith
    ultimately show ?thesis using set_quarters [OF assms(1)] g by simp
  qed
  have "t \<in> ?L \<longleftrightarrow> t \<in> ?R" for t
  proof -
    have "t \<in> ?L \<longleftrightarrow> (\<exists>x. x \<in> set (quarters s e) \<and> P x \<and> x = t - t mod step_ms)"
      using quarter_of set_quarters [OF assms(1)] by (auto 4 3)
    then show ?thesis using q by auto
  qed
  then show ?thesis by blast
qed

section \<open>The local slots of a lawful calendar\<close>

text \<open>
  What is relied on of Intl: the parts show the clock of some local time l that is within a
  day of the instant.
\<close>

definition shows_local :: "date_parts \<Rightarrow> instant \<Rightarrow> bool" where
  "shows_local p l \<longleftrightarrow>
     (case civil_of_day (day_of l) of (y, m, d) \<Rightarrow>
        pad_start 4 CHR ''0'' (pt_year p) = pad4 y \<and> pt_month p = pad2 m \<and> pt_day p = pad2 d) \<and>
     pt_weekday p = weekday_names ! nat (weekday_of_day (day_of l)) \<and>
     pt_hour p = pad2 (utc_hours l) \<and> pt_minute p = pad2 (utc_minutes l)"

definition intl_law :: "intl \<Rightarrow> bool" where
  "intl_law fmt \<longleftrightarrow> (\<forall>z f t. fmt z = Some f \<longrightarrow>
     (\<exists>l. \<bar>l - t\<bar> \<le> ms_per_day \<and> (four_digit_year (day_of l) \<longrightarrow> shows_local (f t) l)))"

text \<open>A provider that satisfies the law: zones at a fixed offset.\<close>

definition zone_parts :: "int \<Rightarrow> instant \<Rightarrow> date_parts" where
  "zone_parts off t =
     (let l = t + off * 60000 in
      case civil_of_day (day_of l) of (y, m, d) \<Rightarrow>
        \<lparr>pt_year = pad4 y, pt_month = pad2 m, pt_day = pad2 d,
         pt_weekday = weekday_names ! nat (weekday_of_day (day_of l)),
         pt_hour = pad2 (utc_hours l), pt_minute = pad2 (utc_minutes l)\<rparr>)"

definition fixed_zone :: "string \<Rightarrow> int \<Rightarrow> intl" where
  "fixed_zone name off z = (if z = name then Some (zone_parts off) else None)"

lemma fixed_zone_law: "\<bar>off\<bar> \<le> 1440 \<Longrightarrow> intl_law (fixed_zone name off)"
  unfolding intl_law_def
proof (intro allI impI)
  fix z f t assume off: "\<bar>off\<bar> \<le> 1440" and f: "fixed_zone name off z = Some f"
  have "\<bar>t + off * 60000 - t\<bar> \<le> ms_per_day" using off by (simp add: ms_per_day_def)
  moreover have "shows_local (f t) (t + off * 60000)"
    using f by (cases "civil_of_day (day_of (t + off * 60000))")
      (auto simp: fixed_zone_def zone_parts_def shows_local_def pad_start_def Let_def split: if_splits)
  ultimately show "\<exists>l. \<bar>l - t\<bar> \<le> ms_per_day \<and> (four_digit_year (day_of l) \<longrightarrow> shows_local (f t) l)"
    by blast
qed

lemma index_of_weekday: "0 \<le> w \<Longrightarrow> w \<le> 6 \<Longrightarrow> index_of (weekday_names ! nat w) weekday_names = w"
proof -
  assume "0 \<le> w" "w \<le> 6"
  then have "w = 0 \<or> w = 1 \<or> w = 2 \<or> w = 3 \<or> w = 4 \<or> w = 5 \<or> w = 6" by linarith
  then show ?thesis by (elim disjE) (simp_all add: weekday_names_def)
qed

lemma utc_hours_range: "0 \<le> utc_hours l \<and> utc_hours l \<le> 23"
proof -
  have "l mod ms_per_day < 24 * 3600000" "0 \<le> l mod ms_per_day" by (simp_all add: ms_per_day_def)
  then have "l mod ms_per_day div 3600000 < 24" by (simp add: div_less_iff_less_mult)
  then show ?thesis using \<open>0 \<le> l mod ms_per_day\<close> by (simp add: utc_hours_def pos_imp_zdiv_nonneg_iff)
qed

lemma utc_minutes_range: "0 \<le> utc_minutes l \<and> utc_minutes l \<le> 59"
proof -
  have "l mod 3600000 < 60 * 60000" "0 \<le> l mod 3600000" by simp_all
  then have "l mod 3600000 div 60000 < 60" by (simp add: div_less_iff_less_mult)
  then show ?thesis using \<open>0 \<le> l mod 3600000\<close> by (simp add: utc_minutes_def pos_imp_zdiv_nonneg_iff)
qed

text \<open>The years in which local dates have four digits whatever the zone.\<close>

definition plain_years :: "instant \<Rightarrow> instant \<Rightarrow> bool" where
  "plain_years s e \<longleftrightarrow> 1 \<le> year_of_day (day_of s) \<and> year_of_day (day_of e) \<le> 9998"

lemma year_near:
  assumes "\<bar>n - k\<bar> \<le> 2"
  shows "year_of_day k - 1 \<le> year_of_day n" "year_of_day n \<le> year_of_day k + 1"
proof -
  have "year_start (year_of_day k - 1) + 365 \<le> year_start (year_of_day k)"
    using year_start_Suc [of "year_of_day k - 1"] by (simp split: if_splits)
  then have "year_start (year_of_day k - 1) \<le> n" using assms year_of_day_bounds [of k] by linarith
  then show "year_of_day k - 1 \<le> year_of_day n"
    using year_of_day_bounds [of n] year_start_mono [of "year_of_day n + 1" "year_of_day k - 1"] by linarith
  have "year_start (year_of_day k + 1) + 365 \<le> year_start (year_of_day k + 2)"
    using year_start_Suc [of "year_of_day k + 1"] by (auto simp: add.commute split: if_splits)
  then have "n < year_start (year_of_day k + 2)" using assms year_of_day_bounds [of k] by linarith
  then show "year_of_day n \<le> year_of_day k + 1"
    using year_of_day_bounds [of n] year_start_mono [of "year_of_day k + 2" "year_of_day n"] by linarith
qed

lemma day_of_near: "\<bar>l - t\<bar> \<le> ms_per_day \<Longrightarrow> \<bar>day_of l - day_of t\<bar> \<le> 2"
proof -
  assume a: "\<bar>l - t\<bar> \<le> ms_per_day"
  have "day_of l \<le> day_of (t + ms_per_day)" "day_of (t + - 1 * ms_per_day) \<le> day_of l"
    using a by (intro day_of_mono; simp)+
  then show ?thesis by (simp add: day_of_def ms_per_day_def)
qed

lemma calendar_slot_ok:
  assumes "intl_law fmt" "calendar fmt z = Inr local" "plain_years s e" "s \<le> t" "t \<le> e"
  shows "slot_ok (local t)"
proof -
  obtain f where f: "fmt z = Some f" using assms(2) by (auto simp: calendar_def ok_iff split: option.splits)
  obtain l where l: "\<bar>l - t\<bar> \<le> ms_per_day" "four_digit_year (day_of l) \<longrightarrow> shows_local (f t) l"
    using assms(1) f unfolding intl_law_def by blast
  have "four_digit_year (day_of l)"
    using year_near [OF day_of_near [OF l(1)]] assms(3) year_of_day_mono [OF day_of_mono [OF assms(4)]]
      year_of_day_mono [OF day_of_mono [OF assms(5)]] by (simp add: four_digit_iff plain_years_def)
  then have sh: "shows_local (f t) l" "four_digit_year (day_of l)" using l by simp_all
  have "local t = slot_at (day_of l) (utc_hours l * 60 + utc_minutes l)"
    using assms(2) sh(1) f utc_hours_range [of l] utc_minutes_range [of l] weekday_range [of "day_of l"]
    by (auto simp: calendar_def local_of_def ok_iff shows_local_def slot_at_def iso_date_def index_of_weekday Let_def
        split: prod.splits)
  then show ?thesis
    using sh(2) utc_hours_range [of l] utc_minutes_range [of l]
    by (auto simp: slot_ok_def slot_at_def)
qed

section \<open>The order of the rules does not matter\<close>

lemma discounts_overlap_Inr_iff:
  "(\<exists>v. discounts_overlap a b = Inr v) \<longleftrightarrow> validate_discount_rule a = Inr () \<and> validate_discount_rule b = Inr ()"
proof
  assume v: "validate_discount_rule a = Inr () \<and> validate_discount_rule b = Inr ()"
  then have "rule_wf a" "rule_wf b" by (auto intro: validate_discount_rule_wf)
  then show "\<exists>v. discounts_overlap a b = Inr v"
    using v by (auto simp: discounts_overlap_def rule_wf_def assert_date_def Let_def)
qed (auto simp: discounts_overlap_def bindE_Inr_iff)

lemma discounts_overlap_sym: "discounts_overlap a b = Inr v \<Longrightarrow> discounts_overlap b a = Inr v"
proof -
  assume ab: "discounts_overlap a b = Inr v"
  then obtain w where ba: "discounts_overlap b a = Inr w" using discounts_overlap_Inr_iff by metis
  have e: "(rule_applies a y \<and> rule_applies b y) = (rule_applies b y \<and> rule_applies a y)" for y by blast
  have c: "(\<exists>c\<in>set (dr_courts a). c \<in> set (dr_courts b)) = (\<exists>c\<in>set (dr_courts b). c \<in> set (dr_courts a))" by blast
  have "v = w" unfolding discounts_overlap_iff [OF ab] discounts_overlap_iff [OF ba]
    by (simp only: e c eq_commute [of "dr_venue a"])
  then show ?thesis using ba by simp
qed

lemma check_rules_iff:
  "check_rules ids rs = Inr () \<longleftrightarrow>
     (\<forall>r\<in>set rs. validate_discount_rule r = Inr ()) \<and> distinct (map dr_id rs) \<and> set ids \<inter> dr_id ` set rs = {}"
  by (induction ids rs rule: check_rules.induct) (auto simp: ok_iff split: if_splits)

lemma check_pairs_iff:
  "check_pairs rs = Inr () \<longleftrightarrow> sorted_wrt (\<lambda>a b. discounts_overlap a b = Inr False) rs"
  by (induction rs) (auto simp: ok_iff)

lemma sorted_wrt_symmetric:
  assumes "\<And>a b. R a b \<Longrightarrow> R b a" "distinct xs"
  shows "sorted_wrt R xs \<longleftrightarrow> (\<forall>x\<in>set xs. \<forall>y\<in>set xs. x \<noteq> y \<longrightarrow> R x y)"
  using assms(2) by (induction xs) (auto dest: assms(1))

lemma validate_discount_set_iff:
  "validate_discount_set rs = Inr () \<longleftrightarrow>
     (\<forall>r\<in>set rs. validate_discount_rule r = Inr ()) \<and> distinct (map dr_id rs) \<and>
     (\<forall>a\<in>set rs. \<forall>b\<in>set rs. a \<noteq> b \<longrightarrow> discounts_overlap a b = Inr False)"
proof -
  have "sorted_wrt (\<lambda>a b. discounts_overlap a b = Inr False) rs \<longleftrightarrow>
      (\<forall>a\<in>set rs. \<forall>b\<in>set rs. a \<noteq> b \<longrightarrow> discounts_overlap a b = Inr False)" if "distinct (map dr_id rs)"
  proof (rule sorted_wrt_symmetric)
    show "distinct rs" using that by (simp add: distinct_map)
  qed (rule discounts_overlap_sym)
  moreover have "validate_discount_set rs = Inr () \<longleftrightarrow> check_rules [] rs = Inr () \<and> check_pairs rs = Inr ()"
    by (auto simp: validate_discount_set_def bindE_Inr_iff)
  ultimately show ?thesis
    unfolding check_rules_iff check_pairs_iff by (cases "distinct (map dr_id rs)") simp_all
qed

lemma validate_discount_set_perm:
  assumes "mset rs = mset rs'" "validate_discount_set rs = Inr ()"
  shows "validate_discount_set rs' = Inr ()"
proof -
  have "set rs = set rs'" "distinct (map dr_id rs) \<longleftrightarrow> distinct (map dr_id rs')"
    using assms(1) by (metis mset_eq_setD) (metis assms(1) mset_eq_imp_distinct_iff mset_map)
  then show ?thesis using assms(2) unfolding validate_discount_set_iff by simp
qed

lemma applicable_rule_unique:
  assumes "intl_law fmt" "calendar fmt z = Inr local" "plain_years s e" "s \<le> t" "t \<le> e"
    and "validate_discount_set (applicable_rules x) = Inr ()"
    and "mset (applicable_rules x) = mset rs"
  shows "find (\<lambda>r. rule_applies r (local t)) (applicable_rules x) = find (\<lambda>r. rule_applies r (local t)) rs"
proof (rule find_unique)
  show "set (applicable_rules x) = set rs" using assms(7) by (rule mset_eq_setD)
  fix r r' assume r: "r \<in> set (applicable_rules x)" "r' \<in> set (applicable_rules x)"
    "rule_applies r (local t)" "rule_applies r' (local t)"
  have "\<forall>r\<in>set (applicable_rules x). dr_venue r = pi_venue x \<and> pi_court x \<in> set (dr_courts r)"
    by (auto simp: applicable_rules_def)
  then show "r = r'"
    using at_most_one_rule [OF assms(6) calendar_slot_ok [OF assms(1-5)]] r by metis
qed

lemma fold_cong_set: "(\<And>t. t \<in> set ts \<Longrightarrow> f t = g t) \<Longrightarrow> fold f ts acc = fold g ts acc"
  by (induction ts arbitrary: acc) auto

lemma price_parts_perm:
  assumes "intl_law fmt" "calendar fmt z = Inr local" "plain_years s e" "s mod step_ms = 0"
    and "validate_discount_set (applicable_rules x) = Inr ()" "mset ds = mset (pi_discounts x)"
  shows "price_parts x h local s e = price_parts (x\<lparr>pi_discounts := ds\<rparr>) h local s e"
proof -
  have m: "mset (applicable_rules x) = mset (applicable_rules (x\<lparr>pi_discounts := ds\<rparr>))"
    using assms(6) by (simp add: applicable_rules_def)
  have "quarter_rule (applicable_rules x) local t = quarter_rule (applicable_rules (x\<lparr>pi_discounts := ds\<rparr>)) local t"
    if "t \<in> set (quarters s e)" for t
    using that set_quarters [OF assms(4)] unfolding quarter_rule_def Let_def
    by (intro applicable_rule_unique [OF assms(1-3) _ _ assms(5) m]) auto
  then show ?thesis
    unfolding price_parts_def price_step_fun by (intro arg_cong [of _ _ rev] fold_cong_set) simp
qed

section \<open>Properties\<close>

lemma parse_grid: "parse_court_interval i = Inr (s, e) \<Longrightarrow> s < e \<and> s mod step_ms = 0 \<and> e mod step_ms = 0"
  using parse_court_interval_wf [of i "(s, e)"] by (simp add: step_ms_def)

lemma settle_pair: "settle_parts ps = (fst (settle_parts ps), snd (settle_parts ps))"
  by simp

lemma map_pp_segment_amounts:
  "length as = length ps \<Longrightarrow> map sg_amount (map2 (\<lambda>q a. (pp_segment q)\<lparr>sg_amount := a\<rparr>) ps as) = as"
  by (induction as ps rule: list_induct2) auto

lemma map2_unamounted:
  "length as = length ps \<Longrightarrow>
   map (\<lambda>g. (start_at g, end_at g, sg_rule g, sg_bps g)) (map2 (\<lambda>q a. (pp_segment q)\<lparr>sg_amount := a\<rparr>) ps as) =
   map (\<lambda>q. (start_at (pp_segment q), end_at (pp_segment q), sg_rule (pp_segment q), sg_bps (pp_segment q))) ps"
  by (induction as ps rule: list_induct2) auto

text \<open>A priced interval on which the properties below are exercised.\<close>

definition sample_rule :: discount_rule where
  "sample_rule = \<lparr>dr_id = ''r'', dr_name = ''noon'', dr_venue = ''v'', dr_courts = [''c''], dr_from = ''2026-03-01'',
     dr_to = ''2026-03-31'', dr_weekdays = [1, 2], dr_start = 600, dr_end = 720, dr_bps = 8000\<rparr>"

definition sample_rule2 :: discount_rule where
  "sample_rule2 = sample_rule\<lparr>dr_id := ''r2'', dr_weekdays := [1], dr_start := 720, dr_end := 780, dr_bps := 5000\<rparr>"

definition sample_price_input :: price_input where
  "sample_price_input = \<lparr>pi_court = ''c'', pi_venue = ''v'', pi_timezone = ''Z'', pi_hourly = Some 9999,
     pi_minimum = Some 30, pi_hours = [\<lparr>ow_weekday = 1, ow_start = 480, ow_end = 1200\<rparr>],
     pi_interval = \<lparr>start_at = ''2026-03-02T01:30:00Z'', end_at = ''2026-03-02T02:30:00Z''\<rparr>,
     pi_discounts = [sample_rule, sample_rule2]\<rparr>"




definition sample_local :: "instant \<Rightarrow> local_slot" where
  "sample_local = local_of (zone_parts 480)"

lemma sample_interval: "parse_court_interval (pi_interval sample_price_input) = Inr (1772415000000, 1772418600000)"
  by code_simp

lemma sample_calendar: "calendar (fixed_zone ''Z'' 480) (pi_timezone sample_price_input) = Inr sample_local"
  by (simp add: calendar_def assert_timezone_def fixed_zone_def sample_price_input_def sample_local_def
      blank_def js_trim_def js_space_def)

lemma sample_open:
  "is_within_opening_hours (fixed_zone ''Z'' 480) (pi_interval sample_price_input) (pi_timezone sample_price_input)
     (pi_hours sample_price_input) = Inr True"
proof -
  have v: "validate_opening_hours (pi_hours sample_price_input) = Inr ()" by code_simp
  have a: "list_all (quarter_open (pi_hours sample_price_input) sample_local) (quarters 1772415000000 1772418600000)"
    by code_simp
  show ?thesis
    unfolding is_within_opening_hours_def
    by (simp only: v sample_interval sample_calendar in_pricing_def in_interval_def sum.case bindE_simps fst_conv snd_conv a)
qed

lemma sample_settled:
  "settle_parts (price_parts sample_price_input 9999 sample_local 1772415000000 1772418600000) = (8999, [4999, 4000])"
  by code_simp

lemma sample_priced:
  "\<exists>p. price_court_interval (fixed_zone ''Z'' 480) sample_price_input = Inr p \<and> cp_total p = 8999"
proof -
  have "pi_hourly sample_price_input = Some 9999" "pi_minimum sample_price_input = Some 30"
    by (simp_all add: sample_price_input_def)
  moreover have "validate_minimum_minutes 30 = Inr ()" "validate_discount_set (applicable_rules sample_price_input) = Inr ()"
    by code_simp+
  ultimately show ?thesis
    unfolding price_court_interval_Inr
    by (simp add: sample_interval sample_open sample_calendar sample_settled valid_cents_def max_safe_def)
qed
text \<open>
  C1: The price of a court interval is exact: the total is the sum over its quarter hours of
  the hourly price times the basis points in force, divided by 40000 and rounded half up, and
  the amounts of the segments add up to that total with no cent lost or invented.
\<close>

theorem price_total_exact:
  assumes "price_court_interval fmt x = Inr p" "parse_court_interval (pi_interval x) = Inr (s, e)"
    and "pi_hourly x = Some hourly" "calendar fmt (pi_timezone x) = Inr local"
  shows "cp_total p = (sum_list (map (\<lambda>t. hourly * rule_bps (quarter_rule (applicable_rules x) local t))
             (quarters s e)) + 20000) div 40000 \<and>
         sum_list (map sg_amount (cp_segments p)) = cp_total p"
proof -
  let ?rule = "\<lambda>t. quarter_rule (applicable_rules x) local t"
  let ?parts = "price_parts x hourly local s e"
  obtain rs where rs: "maximal_runs (\<lambda>t. rule_key (?rule t)) (quarters s e) rs"
      "?parts = map (run_part hourly ?rule) rs"
    using fold_quarters_runs [of ?rule "quarters s e" hourly] by (auto simp: price_parts_def price_step_fun)
  have ns: "sum_list (map pp_numerator ?parts) = sum_list (map (\<lambda>t. hourly * rule_bps (?rule t)) (quarters s e))"
    using run_numerators [OF rs(1)] by (simp add: rs(2))
  note st = settle_parts_sum [OF settle_pair, of ?parts]
  have p: "cp_total p = fst (settle_parts ?parts)"
    "cp_segments p = map2 (\<lambda>q a. (pp_segment q)\<lparr>sg_amount := a\<rparr>) ?parts (snd (settle_parts ?parts))"
    using assms by (auto simp: price_court_interval_Inr)
  have "cp_total p = (sum_list (map (\<lambda>t. hourly * rule_bps (?rule t)) (quarters s e)) + 20000) div 40000"
    using st(1) by (simp add: p ns)
  moreover have "sum_list (map sg_amount (cp_segments p)) = cp_total p"
    using st(2,3) by (simp only: p map_pp_segment_amounts)
  ultimately show ?thesis by blast
qed


theorem price_total_exact_witness:
  "\<exists>p. price_court_interval (fixed_zone ''Z'' 480) sample_price_input = Inr p \<and> cp_total p = 8999 \<and>
     (sum_list (map (\<lambda>t. 9999 * rule_bps (quarter_rule (applicable_rules sample_price_input) sample_local t))
        (quarters 1772415000000 1772418600000)) + 20000) div 40000 = 8999 \<and>
     sum_list (map sg_amount (cp_segments p)) = 8999"
proof -
  obtain p where p: "price_court_interval (fixed_zone ''Z'' 480) sample_price_input = Inr p" "cp_total p = 8999"
    using sample_priced by blast
  have "pi_hourly sample_price_input = Some 9999" by (simp add: sample_price_input_def)
  from price_total_exact [OF p(1) sample_interval this sample_calendar] p show ?thesis by auto
qed

text \<open>
  C5: The segments of a price are the maximal runs of quarter hours under one discount rule:
  together they are the quarter hours of the interval in order, every segment starts where its
  first quarter hour does and ends where its last one ends, carries the rule and basis points
  of all of its quarter hours, and two neighbouring segments differ in rule or basis points.
\<close>

theorem price_segments_runs:
  assumes "price_court_interval fmt x = Inr p" "parse_court_interval (pi_interval x) = Inr (s, e)"
    and "calendar fmt (pi_timezone x) = Inr local"
  shows "\<exists>rs. maximal_runs (\<lambda>t. rule_key (quarter_rule (applicable_rules x) local t)) (quarters s e) rs \<and>
     map (\<lambda>g. (start_at g, end_at g, sg_rule g, sg_bps g)) (cp_segments p) =
     map (\<lambda>r. (to_iso_string (hd r), to_iso_string (last r + step_ms),
                 rule_key (quarter_rule (applicable_rules x) local (hd r)))) rs"
proof -
  let ?rule = "\<lambda>t. quarter_rule (applicable_rules x) local t"
  obtain hourly where h: "pi_hourly x = Some hourly" using assms(1) by (auto simp: price_court_interval_Inr)
  let ?parts = "price_parts x hourly local s e"
  obtain rs where rs: "maximal_runs (\<lambda>t. rule_key (?rule t)) (quarters s e) rs"
      "?parts = map (run_part hourly ?rule) rs"
    using fold_quarters_runs [of ?rule "quarters s e" hourly] by (auto simp: price_parts_def price_step_fun)
  have len: "length (snd (settle_parts ?parts)) = length ?parts"
    using settle_parts_sum(3) [OF settle_pair] .
  have "cp_segments p = map2 (\<lambda>q a. (pp_segment q)\<lparr>sg_amount := a\<rparr>) ?parts (snd (settle_parts ?parts))"
    using assms h by (auto simp: price_court_interval_Inr)
  then have "map (\<lambda>g. (start_at g, end_at g, sg_rule g, sg_bps g)) (cp_segments p) =
      map (\<lambda>q. (start_at (pp_segment q), end_at (pp_segment q), sg_rule (pp_segment q), sg_bps (pp_segment q))) ?parts"
    using len by (simp only: map2_unamounted)
  then show ?thesis using rs by (intro exI [of _ rs]) (simp add: run_part_def rule_key_def)
qed

theorem price_segments_runs_witness:
  "\<exists>p rs. price_court_interval (fixed_zone ''Z'' 480) sample_price_input = Inr p \<and>
     maximal_runs (\<lambda>t. rule_key (quarter_rule (applicable_rules sample_price_input) sample_local t))
       (quarters 1772415000000 1772418600000) rs \<and> length (cp_segments p) = length rs"
proof -
  obtain p where p: "price_court_interval (fixed_zone ''Z'' 480) sample_price_input = Inr p"
    using sample_priced by blast
  from price_segments_runs [OF p sample_interval sample_calendar] obtain rs where
    rs: "maximal_runs (\<lambda>t. rule_key (quarter_rule (applicable_rules sample_price_input) sample_local t))
          (quarters 1772415000000 1772418600000) rs"
      "map (\<lambda>g. (start_at g, end_at g, sg_rule g, sg_bps g)) (cp_segments p) =
       map (\<lambda>r. (to_iso_string (hd r), to_iso_string (last r + step_ms),
          rule_key (quarter_rule (applicable_rules sample_price_input) sample_local (hd r)))) rs"
    by (elim exE conjE)
  have "length (cp_segments p) = length rs" using arg_cong [OF rs(2), of length] by (simp only: length_map)
  with p rs(1) show ?thesis by blast
qed



lemma opening_intervals_spec:
  assumes "opening_intervals fmt rng tz ws = Inr ivs" "parse_court_interval rng = Inr (s, e)"
    and "calendar fmt tz = Inr local" "four_digit_year (day_of s)" "four_digit_year (day_of e)"
  shows "\<exists>ps. ivs = map render ps \<and> sorted_wrt (\<lambda>p q. snd p < fst q) ps \<and>
     spans ps = {t. s \<le> t \<and> t < e \<and> slot_open ws (local (t - t mod step_ms))} \<and>
     (\<forall>p\<in>set ps. s \<le> fst p \<and> fst p < snd p \<and> snd p \<le> e \<and> fst p mod step_ms = 0 \<and> snd p mod step_ms = 0) \<and>
     (is_within_opening_hours fmt rng tz ws = Inr True \<longleftrightarrow> spans ps = span (s, e))"
proof -
  note g = parse_grid [OF assms(2)]
  have "s \<le> e" "s mod step_ms = 0" "e mod step_ms = 0" using g by simp_all
  from opening_fold [OF this four_digit_between [OF assms(4,5)], of "quarter_open ws local"]
  obtain ps where ps: "fold (opening_step ws local) (quarters s e) [] = map render ps"
      "opening_inv (quarter_open ws local) s e (quarters s e) ps"
    by (auto simp: opening_step_def [abs_def])
  have v: "validate_opening_hours ws = Inr ()" using assms(1) by (auto simp: opening_intervals_def ok_iff)
  have ivs: "ivs = map render (rev ps)"
    using assms ps(1) by (auto simp: opening_intervals_def ok_iff rev_map)
  have sp: "spans (rev ps) = {t. s \<le> t \<and> t < e \<and> slot_open ws (local (t - t mod step_ms))}"
    using ps(2) open_quarters_span [of s e "quarter_open ws local"] g
    by (simp add: opening_inv_def spans_def quarter_open_def)
  have w: "is_within_opening_hours fmt rng tz ws = Inr True \<longleftrightarrow> (\<forall>t\<in>set (quarters s e). slot_open ws (local t))"
    using v assms by (auto simp: is_within_opening_hours_def in_pricing_def in_interval_def list_all_iff quarter_open_def)
  have "(\<forall>t\<in>set (quarters s e). slot_open ws (local t)) \<longleftrightarrow> spans (rev ps) = span (s, e)"
  proof
    assume "\<forall>t\<in>set (quarters s e). slot_open ws (local t)"
    moreover have "t - t mod step_ms \<in> set (quarters s e)" if "s \<le> t" "t < e" for t
      using open_quarters_span [of s e "\<lambda>q. q = t - t mod step_ms"] g that by auto
    ultimately show "spans (rev ps) = span (s, e)" unfolding sp by (auto simp: span_def)
  next
    assume all: "spans (rev ps) = span (s, e)"
    show "\<forall>t\<in>set (quarters s e). slot_open ws (local t)"
    proof
      fix t assume "t \<in> set (quarters s e)"
      then have "t \<in> span (s, e)" "t mod step_ms = 0" using set_quarters [of s t e] g by (auto simp: span_def)
      moreover from this(1) have "slot_open ws (local (t - t mod step_ms))" unfolding all [symmetric] sp by simp
      ultimately show "slot_open ws (local t)" by simp
    qed
  qed
  moreover have "sorted_wrt (\<lambda>p q. snd p < fst q) (rev ps)"
    using ps(2) by (simp add: opening_inv_def sorted_wrt_rev)
  moreover have "\<forall>p\<in>set (rev ps). s \<le> fst p \<and> fst p < snd p \<and> snd p \<le> e \<and> fst p mod step_ms = 0 \<and> snd p mod step_ms = 0"
    using ps(2) by (simp add: opening_inv_def)
  ultimately show ?thesis using ivs sp w by blast
qed

text \<open>
  C7: The opening intervals of a range cover exactly the instants of the range whose quarter
  hour is open under some window of that weekday, as non-empty separate intervals on the
  quarter-hour grid, inside the range, in ascending order, that never touch; and an interval is within opening hours exactly when all of it is covered.
\<close>

theorem opening_intervals_exact:
  assumes "opening_intervals fmt rng tz ws = Inr ivs" "parse_court_interval rng = Inr (s, e)"
    and "calendar fmt tz = Inr local" "four_digit_year (day_of s)" "four_digit_year (day_of e)"
  shows "\<exists>ps. ivs = map render ps \<and> sorted_wrt (\<lambda>p q. snd p < fst q) ps \<and>
     spans ps = {t. s \<le> t \<and> t < e \<and> slot_open ws (local (t - t mod step_ms))} \<and>
     (\<forall>p\<in>set ps. s \<le> fst p \<and> fst p < snd p \<and> snd p \<le> e \<and> fst p mod step_ms = 0 \<and> snd p mod step_ms = 0) \<and>
     (is_within_opening_hours fmt rng tz ws = Inr True \<longleftrightarrow> spans ps = span (s, e))"
  by (rule opening_intervals_spec [OF assms])

theorem opening_intervals_exact_witness:
  "\<exists>ivs. opening_intervals (fixed_zone ''Z'' 480) (pi_interval sample_price_input) ''Z''
      (pi_hours sample_price_input) = Inr ivs \<and>
     (\<exists>ps. ivs = map render ps \<and> spans ps = span (1772415000000, 1772418600000))"
proof -
  have v: "validate_opening_hours (pi_hours sample_price_input) = Inr ()" by code_simp
  have z: "pi_timezone sample_price_input = ''Z''" by (simp add: sample_price_input_def)
  obtain ivs where ivs: "opening_intervals (fixed_zone ''Z'' 480) (pi_interval sample_price_input) ''Z''
      (pi_hours sample_price_input) = Inr ivs"
    unfolding opening_intervals_def
    by (simp add: v sample_interval sample_calendar [unfolded z] in_pricing_def in_interval_def)
  have "four_digit_year (day_of 1772415000000)" "four_digit_year (day_of 1772418600000)" by code_simp+
  note opening_intervals_exact [OF ivs sample_interval sample_calendar [unfolded z] this]
  then obtain ps where "ivs = map render ps" "spans ps = span (1772415000000, 1772418600000)"
    using sample_open [unfolded z] by blast
  then show ?thesis using ivs by blast
qed

end
