(* ===== verification/WalletDebit.thy ===== *)
theory WalletDebit
  imports Allocation "HOL-Library.Sublist"
begin

text \<open>
  packages/domain/src/tennis-wallet.ts: the allocation of a debit over the wallet batches in
  credit order. The greedy spending of the available totals is its abstract specification.
\<close>

record wallet_batch =
  wb_id :: string
  wb_principal :: cents
  wb_gift :: cents
  wb_avail_principal :: cents
  wb_avail_gift :: cents

record wallet_portion =
  wp_batch :: string
  wp_principal :: cents
  wp_gift :: cents

datatype wallet_code =
    InsufficientBalance | InvalidWalletAmount | InvalidTopup | TopupReferenceReused
  | PaymentAlreadyPending | OrderNotPayable | InvalidPaymentEvent | PaymentEventReused
  | PaymentTransactionReused

datatype wallet_failure = WalletError wallet_code | WalletAmountError pricing_error

definition in_wallet :: "pricing_error + 'a \<Rightarrow> wallet_failure + 'a" where
  "in_wallet m = (case m of Inl e \<Rightarrow> Inl (WalletAmountError e) | Inr x \<Rightarrow> Inr x)"

definition wb_available :: "wallet_batch \<Rightarrow> cents" where
  "wb_available b = wb_avail_principal b + wb_avail_gift b"

definition check_batch :: "wallet_batch \<Rightarrow> wallet_failure + unit" where
  "check_batch b =
     bindE (in_wallet (eachE assert_cents [wb_principal b, wb_gift b, wb_avail_principal b, wb_avail_gift b])) (\<lambda>_.
     bindE (guardE (\<not> (wb_avail_principal b > wb_principal b \<or> wb_avail_gift b > wb_gift b))
       (WalletError InvalidWalletAmount)) (\<lambda>_.
     in_wallet (assert_cents (wb_available b))))"

definition split_portion :: "wallet_batch \<Rightarrow> cents \<Rightarrow> int list \<Rightarrow> wallet_portion" where
  "split_portion b tk allocated =
     (let p = max (tk - wb_avail_gift b) (min (allocated ! 0) (wb_avail_principal b))
      in \<lparr>wp_batch = wb_id b, wp_principal = p, wp_gift = tk - p\<rparr>)"

text \<open>The loop over the batches, with what remains to be debited.\<close>

fun debit_loop :: "cents \<Rightarrow> wallet_batch list \<Rightarrow> wallet_failure + wallet_portion list" where
  "debit_loop remaining [] = (if remaining \<noteq> 0 then Inl (WalletError InsufficientBalance) else Inr [])"
| "debit_loop remaining (b # bs) =
     bindE (check_batch b) (\<lambda>_.
     let tk = min remaining (wb_available b) in
     if tk = 0 then debit_loop remaining bs
     else
       bindE (in_wallet (allocate_cents tk [wb_principal b, wb_gift b])) (\<lambda>allocated.
       bindE (if remaining - tk = 0 then Inr [] else debit_loop (remaining - tk) bs) (\<lambda>rest.
       Inr (split_portion b tk allocated # rest))))"

definition allocate_wallet_debit :: "cents \<Rightarrow> wallet_batch list \<Rightarrow> wallet_failure + wallet_portion list" where
  "allocate_wallet_debit amount batches =
     bindE (in_wallet (assert_cents amount)) (\<lambda>_. debit_loop amount batches)"

section \<open>The specification: greedy spending in credit order\<close>

fun greedy :: "cents \<Rightarrow> cents list \<Rightarrow> cents list" where
  "greedy amt [] = []"
| "greedy amt (a # as) = min amt a # greedy (amt - min amt a) as"

definition wp_total :: "wallet_portion \<Rightarrow> cents" where
  "wp_total p = wp_principal p + wp_gift p"

lemma greedy_zero: "\<forall>a\<in>set as. 0 \<le> a \<Longrightarrow> filter (\<lambda>n. n \<noteq> 0) (greedy 0 as) = []"
  by (induction as) (auto simp: min_def)

section \<open>Lemmas\<close>

lemma in_wallet_Inr [ok_iff]: "in_wallet m = Inr y \<longleftrightarrow> m = Inr y"
  by (cases m) (simp_all add: in_wallet_def)

definition batch_ok :: "wallet_batch \<Rightarrow> bool" where
  "batch_ok b \<longleftrightarrow> valid_cents (wb_principal b) \<and> valid_cents (wb_gift b) \<and> valid_cents (wb_avail_principal b)
     \<and> valid_cents (wb_avail_gift b) \<and> wb_avail_principal b \<le> wb_principal b \<and> wb_avail_gift b \<le> wb_gift b
     \<and> valid_cents (wb_available b)"

lemma check_batch_Inr: "check_batch b = Inr () \<longleftrightarrow> batch_ok b"
  by (auto simp: check_batch_def batch_ok_def ok_iff)

lemma batch_avail_nonneg: "batch_ok b \<Longrightarrow> 0 \<le> wb_available b"
  by (simp add: batch_ok_def valid_cents_def)

text \<open>A portion respects what its batch has left of either kind of money.\<close>

definition portion_fits :: "wallet_batch \<Rightarrow> wallet_portion \<Rightarrow> bool" where
  "portion_fits b p \<longleftrightarrow> wp_batch p = wb_id b \<and>
     0 \<le> wp_principal p \<and> wp_principal p \<le> wb_avail_principal b \<and>
     0 \<le> wp_gift p \<and> wp_gift p \<le> wb_avail_gift b \<and> 0 < wp_total p"

lemma split_portion_fits:
  assumes "batch_ok b" "0 < tk" "tk \<le> wb_available b"
    and "allocate_cents tk [wb_principal b, wb_gift b] = Inr xs"
  shows "portion_fits b (split_portion b tk xs)" "wp_total (split_portion b tk xs) = tk"
proof -
  obtain x y where x: "xs = [x, y]" "x + y = tk" "0 \<le> x" "0 \<le> y" by (rule cents.alloc_pair [OF assms(4)])
  then show "portion_fits b (split_portion b tk xs)" "wp_total (split_portion b tk xs) = tk"
    using assms(1-3)
    by (auto simp: split_portion_def portion_fits_def wp_total_def Let_def batch_ok_def valid_cents_def wb_available_def)
qed

lemma debit_loop_ok:
  assumes "debit_loop amt bs = Inr ps" "0 \<le> amt"
  shows "sum_list (map wp_total ps) = amt \<and> (\<exists>qs. subseq qs bs \<and> list_all2 portion_fits qs ps)"
  using assms
proof (induction amt bs arbitrary: ps rule: debit_loop.induct)
  case (1 remaining)
  then show ?case by (auto split: if_splits)
next
  case (2 remaining b bs)
  let ?tk = "min remaining (wb_available b)"
  have b: "batch_ok b" using 2(3) by (auto simp: ok_iff check_batch_Inr)
  note an = batch_avail_nonneg [OF b]
  show ?case
  proof (cases "?tk = 0")
    case True
    then have "debit_loop remaining bs = Inr ps" using 2(3) by (auto simp: ok_iff Let_def)
    from 2(1) [OF refl True this 2(4)] show ?thesis by blast
  next
    case False
    obtain xs rest where xs: "allocate_cents ?tk [wb_principal b, wb_gift b] = Inr xs"
      and rest: "(if remaining - ?tk = 0 then Inr [] else debit_loop (remaining - ?tk) bs) = Inr rest"
      and ps: "ps = split_portion b ?tk xs # rest"
      using 2(3) False by (auto simp: ok_iff Let_def)
    have tk: "0 < ?tk" "?tk \<le> wb_available b" using False an 2(4) by (simp_all add: min_def split: if_splits)
    note fits = split_portion_fits [OF b tk xs]
    have "sum_list (map wp_total rest) = remaining - ?tk \<and> (\<exists>qs. subseq qs bs \<and> list_all2 portion_fits qs rest)"
    proof (cases "remaining - ?tk = 0")
      case True
      then have "rest = []" using rest by simp
      then show ?thesis using True by (auto intro: exI [of _ "[]"])
    next
      case False
      have "debit_loop (remaining - ?tk) bs = Inr rest" using rest unfolding if_not_P [OF False] .
      moreover have "0 \<le> remaining - ?tk" by simp
      ultimately show ?thesis using 2(2) [OF refl \<open>?tk \<noteq> 0\<close> False] by blast
    qed
    then obtain qs where "sum_list (map wp_total rest) = remaining - ?tk" "subseq qs bs" "list_all2 portion_fits qs rest"
      by blast
    then show ?thesis using fits ps by (auto intro!: exI [of _ "b # qs"])
  qed
qed

lemma debit_loop_greedy:
  assumes "debit_loop amt bs = Inr ps" "0 \<le> amt" "\<forall>b\<in>set bs. 0 \<le> wb_available b"
  shows "map wp_total ps = filter (\<lambda>n. n \<noteq> 0) (greedy amt (map wb_available bs))"
  using assms
proof (induction amt bs arbitrary: ps rule: debit_loop.induct)
  case (1 remaining)
  then show ?case by (auto split: if_splits)
next
  case (2 remaining b bs)
  let ?tk = "min remaining (wb_available b)"
  have b: "batch_ok b" using 2(3) by (auto simp: ok_iff check_batch_Inr)
  note an = batch_avail_nonneg [OF b]
  show ?case
  proof (cases "?tk = 0")
    case True
    then have "debit_loop remaining bs = Inr ps" using 2(3) by (auto simp: ok_iff Let_def)
    from 2(1) [OF refl True this 2(4)] 2(5) True show ?thesis by simp
  next
    case False
    obtain xs rest where xs: "allocate_cents ?tk [wb_principal b, wb_gift b] = Inr xs"
      and rest: "(if remaining - ?tk = 0 then Inr [] else debit_loop (remaining - ?tk) bs) = Inr rest"
      and ps: "ps = split_portion b ?tk xs # rest"
      using 2(3) False by (auto simp: ok_iff Let_def)
    have tk: "0 < ?tk" "?tk \<le> wb_available b" using False an 2(4) by (simp_all add: min_def split: if_splits)
    have "map wp_total rest = filter (\<lambda>n. n \<noteq> 0) (greedy (remaining - ?tk) (map wb_available bs))"
    proof (cases "remaining - ?tk = 0")
      case True
      then have "rest = []" using rest by simp
      then show ?thesis using True 2(5) greedy_zero [of "map wb_available bs"] by simp
    next
      case False
      have "debit_loop (remaining - ?tk) bs = Inr rest" using rest unfolding if_not_P [OF False] .
      moreover have "0 \<le> remaining - ?tk" by simp
      ultimately show ?thesis using 2(2) [OF refl \<open>?tk \<noteq> 0\<close> False] 2(5) by simp
    qed
    then show ?thesis using split_portion_fits(2) [OF b tk xs] ps False by simp
  qed
qed

text \<open>On well-formed batches the debit succeeds exactly when the balance is sufficient.\<close>

lemma debit_loop_total:
  assumes "\<forall>b\<in>set bs. batch_ok b" "0 \<le> amt" "amt \<le> max_safe"
  shows "if amt \<le> sum_list (map wb_available bs) then \<exists>ps. debit_loop amt bs = Inr ps
         else debit_loop amt bs = Inl (WalletError InsufficientBalance)"
  using assms
proof (induction amt bs rule: debit_loop.induct)
  case (1 remaining)
  then show ?case by auto
next
  case (2 remaining b bs)
  let ?tk = "min remaining (wb_available b)"
  have b: "batch_ok b" using 2(3) by simp
  note an = batch_avail_nonneg [OF b]
  have nn: "0 \<le> sum_list (map wb_available bs)"
    using 2(3) batch_avail_nonneg by (intro sum_list_nonneg) auto
  have c: "check_batch b = Inr ()" using b by (simp add: check_batch_Inr)
  show ?case
  proof (cases "?tk = 0")
    case True
    then have "debit_loop remaining (b # bs) = debit_loop remaining bs" by (simp add: c)
    moreover have "remaining \<le> sum_list (map wb_available (b # bs)) \<longleftrightarrow> remaining \<le> sum_list (map wb_available bs)"
      using True nn an 2(4) by (auto simp: min_def split: if_splits)
    ultimately show ?thesis using 2(1) [OF refl True] 2(3-5) by simp
  next
    case False
    have "valid_cents ?tk" using an 2(4,5) by (simp add: valid_cents_def)
    then obtain xs where xs: "allocate_cents ?tk [wb_principal b, wb_gift b] = Inr xs"
      using allocate_cents_total [of ?tk "[wb_principal b, wb_gift b]"] b False
      by (auto simp: batch_ok_def valid_cents_def wb_available_def)
    show ?thesis
    proof (cases "remaining - ?tk = 0")
      case True
      then have "remaining \<le> wb_available b" "?tk = remaining" by simp_all
      then show ?thesis using False nn xs by (simp add: c in_wallet_def)
    next
      case rem: False
      then have tk: "?tk = wb_available b" by simp
      have "remaining \<le> sum_list (map wb_available (b # bs)) \<longleftrightarrow> remaining - ?tk \<le> sum_list (map wb_available bs)"
        unfolding tk by auto
      moreover have "debit_loop remaining (b # bs) =
          bindE (debit_loop (remaining - wb_available b) bs) (\<lambda>rest. Inr (split_portion b (wb_available b) xs # rest))"
        using False rem xs unfolding tk by (simp add: c tk in_wallet_def Let_def)
      moreover have "0 \<le> remaining - ?tk" "remaining - ?tk \<le> max_safe" using an 2(4,5) by auto
      ultimately show ?thesis
        using 2(2) [OF refl False rem] 2(3) unfolding tk by (auto split: if_splits)
    qed
  qed
qed

section \<open>Properties\<close>

text \<open>
  C2: A wallet debit is exact and never overdraws: the portions add up to the amount; they
  belong to a subsequence of the batches in credit order, and each one takes a positive amount
  of which the principal part fits into the principal its batch has available and the gift
  part into the gift money its batch has available.
\<close>

theorem wallet_debit_exact:
  assumes "allocate_wallet_debit amount batches = Inr ps"
  shows "sum_list (map wp_total ps) = amount \<and> (\<exists>qs. subseq qs batches \<and> list_all2 portion_fits qs ps)"
proof -
  have "debit_loop amount batches = Inr ps" "0 \<le> amount"
    using assms by (auto simp: allocate_wallet_debit_def ok_iff valid_cents_def)
  then show ?thesis by (rule debit_loop_ok)
qed

definition sample_batches :: "wallet_batch list" where
  "sample_batches =
    [\<lparr>wb_id = ''b1'', wb_principal = 1000, wb_gift = 200, wb_avail_principal = 100, wb_avail_gift = 150\<rparr>,
     \<lparr>wb_id = ''b2'', wb_principal = 500, wb_gift = 0, wb_avail_principal = 0, wb_avail_gift = 0\<rparr>,
     \<lparr>wb_id = ''b3'', wb_principal = 300, wb_gift = 100, wb_avail_principal = 300, wb_avail_gift = 100\<rparr>]"

lemma sample_debit:
  "allocate_wallet_debit 350 sample_batches =
     Inr [\<lparr>wp_batch = ''b1'', wp_principal = 100, wp_gift = 150\<rparr>,
          \<lparr>wp_batch = ''b3'', wp_principal = 75, wp_gift = 25\<rparr>]"
proof -
  have "allocate_cents 250 [1000, 200] = Inr [208, 42]" "allocate_cents 100 [300, 100] = Inr [75, 25]"
    by code_simp+
  then show ?thesis
    by (simp add: allocate_wallet_debit_def sample_batches_def check_batch_def in_wallet_def assert_cents_def
        wb_available_def is_safe_def max_safe_def split_portion_def)
qed

theorem wallet_debit_exact_witness:
  "\<exists>ps. allocate_wallet_debit 350 sample_batches = Inr ps \<and> sum_list (map wp_total ps) = 350 \<and>
     (\<exists>qs. subseq qs sample_batches \<and> list_all2 portion_fits qs ps)"
  using wallet_debit_exact [OF sample_debit] sample_debit by blast

text \<open>
  C8: A wallet debit spends the batches first in, first out: the totals of its portions are
  the non-zero entries of the greedy spending of the available totals in credit order, so a
  batch is touched only after every earlier one has been used up.
\<close>

theorem wallet_debit_fifo:
  assumes "allocate_wallet_debit amount batches = Inr ps" "\<forall>b\<in>set batches. 0 \<le> wb_available b"
  shows "map wp_total ps = filter (\<lambda>n. n \<noteq> 0) (greedy amount (map wb_available batches))"
proof -
  have "debit_loop amount batches = Inr ps" "0 \<le> amount"
    using assms by (auto simp: allocate_wallet_debit_def ok_iff valid_cents_def)
  then show ?thesis using debit_loop_greedy assms(2) by blast
qed

theorem wallet_debit_fifo_witness:
  "\<exists>ps. allocate_wallet_debit 350 sample_batches = Inr ps \<and>
     map wp_total ps = filter (\<lambda>n. n \<noteq> 0) (greedy 350 (map wb_available sample_batches))"
proof -
  have "\<forall>b\<in>set sample_batches. 0 \<le> wb_available b" by (simp add: sample_batches_def wb_available_def)
  from wallet_debit_fifo [OF sample_debit this] sample_debit show ?thesis by blast
qed

text \<open>
  C9: On well-formed batches a debit of a valid amount is refused exactly when the available
  balance does not cover it, and then with the insufficient-balance error.
\<close>

theorem wallet_debit_total:
  assumes "\<forall>b\<in>set batches. batch_ok b" "valid_cents amount"
  shows "if amount \<le> sum_list (map wb_available batches)
         then \<exists>ps. allocate_wallet_debit amount batches = Inr ps
         else allocate_wallet_debit amount batches = Inl (WalletError InsufficientBalance)"
proof -
  have "in_wallet (assert_cents amount) = Inr ()" using assms(2) by (simp add: in_wallet_def assert_cents_ok)
  then show ?thesis
    using debit_loop_total [OF assms(1), of amount] assms(2) by (simp add: allocate_wallet_debit_def valid_cents_def)
qed

theorem wallet_debit_total_witness:
  "allocate_wallet_debit 651 sample_batches = Inl (WalletError InsufficientBalance) \<and>
   (\<exists>ps. allocate_wallet_debit 650 sample_batches = Inr ps)"
proof -
  have b: "\<forall>b\<in>set sample_batches. batch_ok b"
    by (simp add: sample_batches_def batch_ok_def valid_cents_def wb_available_def max_safe_def)
  have s: "sum_list (map wb_available sample_batches) = 650" by (simp add: sample_batches_def wb_available_def)
  have "valid_cents 651" "valid_cents 650" by (simp_all add: valid_cents_def max_safe_def)
  from wallet_debit_total [OF b this(1)] wallet_debit_total [OF b this(2)] show ?thesis
    unfolding s by simp
qed

end
