(* ===== verification/Db.thy ===== *)
theory Db
  imports Pricing WalletDebit
begin

text \<open>
  The database of packages/db/src/tennis as the model sees it: one record per row of the
  tables that the modelled operations read or write (packages/db/src/tennis/migrations), the
  database as the record of those tables, the error classes of the operations and the
  transaction monad in which every operation of the later theories is written. A table is the
  list of its rows in insertion order. Times are instants; a text column is a string. A
  transaction also counts how often it has read the clock and drawn a random UUID, so that the
  environment can supply both.
\<close>

section \<open>JSON values\<close>

datatype json =
    JNull | JBool bool | JNum int | JStr string | JArr "json list" | JObj "(string \<times> json) list"

definition j_field :: "string \<Rightarrow> json \<Rightarrow> json option" where
  "j_field k j = (case j of JObj kvs \<Rightarrow> map_of kvs k | _ \<Rightarrow> None)"

definition j_string :: "string \<Rightarrow> json \<Rightarrow> string option" where
  "j_string k j = (case j_field k j of Some (JStr s) \<Rightarrow> Some s | _ \<Rightarrow> None)"

definition j_opt :: "('a \<Rightarrow> json) \<Rightarrow> 'a option \<Rightarrow> json" where
  "j_opt f x = (case x of None \<Rightarrow> JNull | Some y \<Rightarrow> f y)"

section \<open>Actors\<close>

record delegation =
  dg_token :: string
  dg_conversation :: string
  dg_request :: string
  dg_venue :: string
  dg_generation :: int

record gateway_identity =
  gi_integration :: string
  gi_binding :: string
  gi_token :: string

text \<open>
  A \<open>TenantActor\<close> or \<open>CustomerActor\<close>. The WeakMaps that bind a delegation or a
  gateway identity to an actor object are fields of the actor here.
\<close>

record actor =
  ac_subject :: string
  ac_tenant :: string
  ac_customer :: "string option"
  ac_delegation :: "delegation option"
  ac_gateway :: "gateway_identity option"

definition system_actor :: "string \<Rightarrow> actor" where
  "system_actor tenant = \<lparr>ac_subject = ''system:tennis'', ac_tenant = tenant, ac_customer = None,
     ac_delegation = None, ac_gateway = None\<rparr>"

datatype permission =
    PRead | PBook | PManageAssets | PManagePrices | PRefund | PHoldUnpaid | PManageMembers | PReconcilePayments

section \<open>Rows\<close>

record tenant_row =
  tn_id :: string
  tn_active :: bool

datatype role = Admin | Staff | Viewer

record membership_row =
  ms_tenant :: string
  ms_subject :: string
  ms_role :: role
  ms_active :: bool
  ms_all_venues :: bool
  ms_permissions :: "permission list"

record membership_venue_row =
  mv_tenant :: string
  mv_subject :: string
  mv_venue :: string

record account_row =
  la_subject :: string
  la_active :: bool

record conversation_row =
  cv_id :: string
  cv_tenant :: string
  cv_subject :: string
  cv_venue :: string
  cv_generation :: int
  cv_agent_mode :: bool

record delegation_row =
  de_token :: string
  de_tenant :: string
  de_conversation :: string
  de_request :: string
  de_generation :: int
  de_expires :: instant
  de_gateway_binding :: "string option"

record gateway_integration_row =
  gn_id :: string
  gn_tenant :: string
  gn_token :: string
  gn_active :: bool
  gn_paused :: bool
  gn_expires :: "instant option"

record gateway_binding_row =
  gb_id :: string
  gb_tenant :: string
  gb_integration :: string
  gb_subject :: string
  gb_active :: bool
  gb_customer_kind :: bool
  gb_customer :: "string option"

record court_profile =
  pf_specification :: string
  pf_lighting :: string
  pf_climate :: string
  pf_surface_note :: string
  pf_description :: string
  pf_playing_length_cm :: "int option"
  pf_playing_width_cm :: "int option"
  pf_total_length_cm :: "int option"
  pf_total_width_cm :: "int option"

record venue_row =
  vn_id :: string
  vn_tenant :: string
  vn_name :: string
  vn_address :: string
  vn_timezone :: string
  vn_active :: bool
  vn_hours :: "opening_window list"
  vn_minimum :: "int option"
  vn_revision :: int

record court_row =
  ct_id :: string
  ct_tenant :: string
  ct_venue :: string
  ct_name :: string
  ct_active :: bool
  ct_environment :: string \<comment> \<open>INDOOR, COVERED or OUTDOOR: the columns indoor and covered\<close>
  ct_surface :: string
  ct_profile :: court_profile
  ct_hourly :: "int option"
  ct_revision :: int

record discount_row =
  ds_tenant :: string
  ds_rule :: discount_rule
  ds_active :: bool
  ds_revision :: int

datatype occupancy_kind = Booking | Course | Maintenance

record occupancy_row =
  oc_id :: string
  oc_tenant :: string
  oc_court :: string
  oc_kind :: occupancy_kind
  oc_source :: string
  oc_start :: instant
  oc_end :: instant
  oc_revision :: int
  oc_released :: "instant option"
  oc_line :: "string option"
  oc_amendment :: "string option"

record audit_row =
  au_id :: string
  au_tenant :: string
  au_subject :: string
  au_action :: string
  au_resource :: string
  au_details :: "(string \<times> json) list"

record receipt_row =
  rc_tenant :: string
  rc_subject :: string
  rc_key :: string
  rc_venue :: string
  rc_type :: string
  rc_hash :: string
  rc_result :: "json option"
  rc_completed :: "instant option"

record command_link_row =
  cl_tenant :: string
  cl_conversation :: string
  cl_request :: string
  cl_subject :: string
  cl_key :: string

record customer_row =
  cu_id :: string
  cu_tenant :: string
  cu_nickname :: string
  cu_phone :: "string option"
  cu_subject :: "string option"
  cu_active :: bool

record policy_row =
  bp_tenant :: string
  bp_quote_minutes :: int
  bp_hold_minutes :: int
  bp_revision :: int

record priced_selection =
  ps_venue :: string
  ps_revision :: int
  ps_total :: cents
  ps_lines :: "court_price list"

record quote_row =
  qt_id :: string
  qt_tenant :: string
  qt_venue :: string
  qt_customer :: string
  qt_created_by :: string
  qt_price :: priced_selection
  qt_expires :: instant
  qt_hold_minutes :: int
  qt_created :: instant

datatype order_status = Held | Confirmed | Expired | Cancelled | Completed
datatype payment_state = Unpaid | Paid | PartiallyRefunded | Refunded | NotRequired
datatype hold_kind = PaymentHold | StaffHold

record order_row =
  or_id :: string
  or_tenant :: string
  or_venue :: string
  or_customer :: string
  or_quote :: string
  or_created_by :: string
  or_status :: order_status
  or_payment :: payment_state
  or_total :: cents
  or_hold_kind :: hold_kind
  or_hold_until :: "instant option"
  or_hold_reason :: "string option"
  or_request :: json
  or_price :: priced_selection
  or_revision :: int
  or_created :: instant
  or_updated :: instant

record order_line_row =
  ol_id :: string
  ol_tenant :: string
  ol_venue :: string
  ol_order :: string
  ol_court :: string
  ol_position :: nat
  ol_start :: instant
  ol_end :: instant
  ol_amount :: cents
  ol_funding :: cents
  ol_price :: court_price
  ol_cancelled :: "instant option"
  ol_cancelled_before_payment :: bool

datatype source_kind = Offline | MockSource | WechatSource

record batch_row =
  wr_id :: string
  wr_tenant :: string
  wr_customer :: string
  wr_venue :: string
  wr_principal :: cents
  wr_gift :: cents
  wr_avail_principal :: cents
  wr_avail_gift :: cents
  wr_res_principal :: cents
  wr_res_gift :: cents
  wr_source_kind :: source_kind
  wr_source_reference :: string
  wr_reason :: string
  wr_created_by :: string

datatype allocation_status = Reserved | Consumed | Released

record allocation_row =
  wa_tenant :: string
  wa_customer :: string
  wa_payment :: string
  wa_batch :: string
  wa_principal :: cents
  wa_gift :: cents
  wa_status :: allocation_status

datatype entry_kind = ETopup | EReserve | ERelease | EConsume | ERefund

record entry_row =
  we_id :: string
  we_tenant :: string
  we_customer :: string
  we_batch :: string
  we_kind :: entry_kind
  we_principal :: cents
  we_gift :: cents
  we_source :: string
  we_created :: instant

datatype provider = MockProvider | WechatProvider | WalletProvider
datatype payment_status = Pending | Succeeded | Failed | PExpired | PCancelled | RefundRequired

record payment_row =
  py_id :: string
  py_tenant :: string
  py_venue :: string
  py_customer :: string
  py_order :: string
  py_amendment :: "string option"
  py_provider :: provider
  py_merchant :: string
  py_external :: cents
  py_wallet :: cents
  py_status :: payment_status
  py_transaction :: "string option"
  py_created_by :: string
  py_created :: instant
  py_settled :: "instant option"

record payment_event_row =
  pe_provider :: provider
  pe_merchant :: string
  pe_event :: string
  pe_tenant :: string
  pe_payment :: string
  pe_hash :: string
  pe_outcome :: string

record external_receipt_row =
  er_provider :: provider
  er_merchant :: string
  er_transaction :: string
  er_tenant :: string
  er_payment :: string
  er_amount :: cents

datatype exception_kind = LatePayment | DuplicatePayment

record exception_row =
  fx_id :: string
  fx_tenant :: string
  fx_payment :: string
  fx_kind :: exception_kind
  fx_transaction :: string
  fx_open :: bool
  fx_external :: cents

datatype channel_source = OrderSource | TopupSource

record channel_transaction_row =
  cx_provider :: provider
  cx_merchant :: string
  cx_transaction :: string
  cx_tenant :: string
  cx_source_type :: channel_source
  cx_source :: string
  cx_amount :: cents

text \<open>A binding and the snapshot of it that requests to the channel carry.\<close>

record merchant_binding =
  mb_id :: string
  mb_tenant :: string
  mb_version :: int
  mb_provider :: provider
  mb_merchant :: string
  mb_app :: "string option"
  mb_credential :: "string option"

record merchant_row = merchant_binding +
  mb_active :: bool
  mb_created_by :: "string option"

record operator_row =
  op_subject :: string
  op_active :: bool

record auth_audit_row =
  aa_id :: string
  aa_subject :: string
  aa_tenant :: string
  aa_action :: string
  aa_resource :: string
  aa_details :: "(string \<times> json) list"

datatype operation_kind = OrderOp | TopupOp | RefundOp | ExceptionRefundOp
datatype operation_state = OpReady | OpInFlight | OpPending | OpUnknown | OpSucceeded | OpFailed

text \<open>\<open>PaymentPortInput\<close> and \<open>RefundPortInput\<close> of payment-port.ts.\<close>

record payment_request =
  pq_binding :: merchant_binding
  pq_operation :: string
  pq_order_no :: string
  pq_kind :: channel_source
  pq_source :: string
  pq_amount :: cents
  pq_expires :: instant

record refund_request =
  rq_binding :: merchant_binding
  rq_operation :: string
  rq_order_no :: string
  rq_source :: string
  rq_transaction :: string
  rq_refund_no :: string
  rq_refund :: string
  rq_amount :: cents
  rq_original :: "cents option"

datatype channel_request = PaymentRequest payment_request | RefundRequest refund_request

text \<open>\<open>PaymentEventData\<close> and \<open>RefundEventData\<close> of payment-port.ts.\<close>

record payment_event =
  ev_provider :: provider
  ev_merchant :: string
  ev_payment :: string
  ev_event :: string
  ev_transaction :: "string option"
  ev_succeeded :: bool
  ev_amount :: cents
  ev_issued :: int

record refund_event =
  rv_provider :: provider
  rv_merchant :: string
  rv_refund :: string
  rv_event :: string
  rv_transaction :: "string option"
  rv_provider_refund :: "string option"
  rv_succeeded :: bool
  rv_amount :: cents
  rv_issued :: int

datatype channel_event = PaymentEvent payment_event | RefundEvent refund_event

record channel_operation_row =
  co_id :: string
  co_tenant :: string
  co_kind :: operation_kind
  co_source :: string
  co_generation :: int
  co_binding :: string
  co_provider :: provider
  co_request :: channel_request
  co_hash :: string
  co_state :: operation_state
  co_lease_token :: "string option"
  co_lease_until :: "instant option"
  co_attempts :: int
  co_checkout :: "(string \<times> instant) option"
  co_last_checked :: "instant option"
  co_next_check :: instant
  co_error :: "string option"

record channel_observation_row =
  ob_id :: string
  ob_operation :: string
  ob_tenant :: string
  ob_provider :: provider
  ob_merchant :: string
  ob_refund_kind :: bool
  ob_event :: string
  ob_hash :: string
  ob_payload :: channel_event
  ob_applied :: "instant option"

datatype amendment_status = AmQuoted | AmAwaiting | AmApplied | AmCancelled | AmExpired

record amendment_row =
  am_id :: string
  am_tenant :: string
  am_venue :: string
  am_order :: string
  am_customer :: string
  am_created_by :: string
  am_base_revision :: int
  am_unpaid :: bool
  am_reason :: string
  am_status :: amendment_status
  am_expires :: instant
  am_hold_until :: "instant option"
  am_hold_minutes :: int
  am_supplemental :: cents
  am_suggested :: cents
  am_approved :: "cents option"
  am_request :: "json option"
  am_created :: instant
  am_applied :: "instant option"

record amendment_line_row =
  al_tenant :: string
  al_amendment :: string
  al_line :: string
  al_old_court :: string
  al_old_start :: instant
  al_old_end :: instant
  al_old_amount :: cents
  al_new :: court_price
  al_occupancy :: string
  al_cap_delta :: cents
  al_suggested :: cents
  al_approved :: "cents option"

record refund_group_row =
  rg_id :: string
  rg_tenant :: string
  rg_venue :: string
  rg_order :: string
  rg_customer :: string
  rg_amendment :: "string option"
  rg_reason :: string
  rg_created_by :: string
  rg_amount :: cents

datatype refund_status = RfRequested | RfProcessing | RfSucceeded | RfFailed

record refund_row =
  rf_id :: string
  rf_tenant :: string
  rf_venue :: string
  rf_order :: string
  rf_customer :: string
  rf_payment :: string
  rf_group :: string
  rf_amount :: cents
  rf_wallet :: cents
  rf_external :: cents
  rf_status :: refund_status
  rf_reason :: string
  rf_created_by :: string
  rf_provider_refund :: "string option"
  rf_completed :: "instant option"

record refund_line_row =
  rl_tenant :: string
  rl_refund :: string
  rl_line :: string
  rl_amount :: cents
  rl_cancel :: bool

record refund_allocation_row =
  ra_tenant :: string
  ra_customer :: string
  ra_refund :: string
  ra_batch :: string
  ra_principal :: cents
  ra_gift :: cents

record refund_event_row =
  re_provider :: provider
  re_merchant :: string
  re_event :: string
  re_tenant :: string
  re_refund :: string
  re_hash :: string
  re_failed :: bool

record refund_receipt_row =
  rr_provider :: provider
  rr_merchant :: string
  rr_provider_refund :: string
  rr_tenant :: string
  rr_refund :: string
  rr_amount :: cents

record cash_refund_row =
  cf_provider :: provider
  cf_merchant :: string
  cf_provider_refund :: string
  cf_tenant :: string
  cf_for_order :: bool
  cf_source :: string
  cf_amount :: cents
  cf_transaction :: string

record topup_offer_row =
  to_id :: string
  to_tenant :: string
  to_name :: string
  to_principal :: cents
  to_gift :: cents
  to_active :: bool
  to_revision :: int

record topup_quote_row =
  tq_id :: string
  tq_tenant :: string
  tq_venue :: string
  tq_customer :: string
  tq_created_by :: string
  tq_principal :: cents
  tq_gift :: cents
  tq_offer :: "string option"
  tq_expires :: instant

datatype topup_status = TPending | TFailed | TSucceeded

record topup_row =
  tp_id :: string
  tp_tenant :: string
  tp_venue :: string
  tp_customer :: string
  tp_quote :: string
  tp_provider :: provider
  tp_merchant :: string
  tp_principal :: cents
  tp_gift :: cents
  tp_status :: topup_status
  tp_batch :: "string option"
  tp_transaction :: "string option"
  tp_created_by :: string
  tp_created :: instant
  tp_settled :: "instant option"

record topup_event_row =
  te_provider :: provider
  te_merchant :: string
  te_event :: string
  te_tenant :: string
  te_topup :: string
  te_hash :: string
  te_outcome :: string

record topup_exception_row =
  tx_id :: string
  tx_tenant :: string
  tx_topup :: string
  tx_transaction :: string
  tx_open :: bool
  tx_amount :: cents

record exception_refund_row =
  xr_id :: string
  xr_tenant :: string
  xr_venue :: string
  xr_customer :: string
  xr_kind :: channel_source
  xr_source :: string
  xr_exception :: string
  xr_provider :: provider
  xr_merchant :: string
  xr_transaction :: string
  xr_amount :: cents
  xr_status :: refund_status
  xr_reason :: string
  xr_created_by :: string
  xr_provider_refund :: "string option"
  xr_completed :: "instant option"

record exception_event_row =
  xe_provider :: provider
  xe_merchant :: string
  xe_event :: string
  xe_tenant :: string
  xe_refund :: string
  xe_hash :: string

section \<open>The database\<close>

record db =
  tenants :: "tenant_row list"
  memberships :: "membership_row list"
  membership_venues :: "membership_venue_row list"
  accounts :: "account_row list"
  conversations :: "conversation_row list"
  delegations :: "delegation_row list"
  gateway_integrations :: "gateway_integration_row list"
  gateway_bindings :: "gateway_binding_row list"
  venues :: "venue_row list"
  courts :: "court_row list"
  discount_rows :: "discount_row list"
  policies :: "policy_row list"
  occupancies :: "occupancy_row list"
  audits :: "audit_row list"
  receipts :: "receipt_row list"
  command_links :: "command_link_row list"
  customers :: "customer_row list"
  quotes :: "quote_row list"
  orders :: "order_row list"
  order_lines :: "order_line_row list"
  wallets :: "(string \<times> string) list"
  batches :: "batch_row list"
  allocations :: "allocation_row list"
  entries :: "entry_row list"
  payments :: "payment_row list"
  payment_events :: "payment_event_row list"
  external_receipts :: "external_receipt_row list"
  exceptions :: "exception_row list"
  channel_transactions :: "channel_transaction_row list"
  merchants :: "merchant_row list"
  operators :: "operator_row list"
  auth_audits :: "auth_audit_row list"
  channel_operations :: "channel_operation_row list"
  channel_observations :: "channel_observation_row list"
  amendments :: "amendment_row list"
  amendment_lines :: "amendment_line_row list"
  refund_groups :: "refund_group_row list"
  refunds :: "refund_row list"
  refund_lines :: "refund_line_row list"
  refund_allocations :: "refund_allocation_row list"
  refund_events :: "refund_event_row list"
  refund_receipts :: "refund_receipt_row list"
  cash_refunds :: "cash_refund_row list"
  topup_offers :: "topup_offer_row list"
  topup_quotes :: "topup_quote_row list"
  topups :: "topup_row list"
  topup_events :: "topup_event_row list"
  topup_exceptions :: "topup_exception_row list"
  exception_refunds :: "exception_refund_row list"
  exception_events :: "exception_event_row list"
  ticks :: nat
  uuids :: nat

section \<open>Errors\<close>

datatype access_code = TenantAccessDenied | ResourceNotFound | ResourceUnavailable
datatype inventory_code = InventoryConflict | StaleOccupancy | DuplicateOccupancy | OrderManagedOccupancy
datatype catalog_code =
    StaleConfiguration | AffectedOccupancies | InvalidConfig | InvalidSelection | CourtDetailsIncomplete
datatype booking_code =
    QuoteExpired | QuoteAlreadyUsed | BookingPhoneRequired | PastInterval | InvalidHold | InvalidReason
  | OrderRequiresRefund | OrderNotCancellable | StaleOrder
datatype customer_code = InvalidCustomer | PhoneAlreadyExists | CustomerPhoneRequired | BookingPhoneAlreadySet
datatype command_code = InvalidCommandKey | IdempotencyKeyReused | IncompleteReceipt
datatype agent_code = AgentDelegationRevoked | AgentScopeDenied
datatype amendment_code =
    InvalidAmendment | OrderNotAmendable | UnpaidOrderPaymentUnresolved | AmStaleOrder | AmendmentExpired
  | OrderAmendmentPending | AmendmentAlreadyConfirmed | AmendmentNotPayable | AmendmentNotCancellable
datatype refund_code =
    InvalidRefund | RefundExceedsPayment | RefundStaleOrder | OrderNotRefundable | InvalidRefundEvent
  | RefundEventReused | RefundNotRetryable | UseRefundGroup
datatype channel_code =
    ChannelNotReady | ChannelResultUnknown | InvalidChannelEvent | ChannelRequestConflict | ChannelProviderUnavailable
datatype merchant_code = InvalidMerchantBinding | MerchantNotConfigured | StaleMerchantBinding
datatype exception_refund_code =
    InvalidExceptionRefund | ExceptionNotRefundable | ExInvalidRefundEvent | ExRefundEventReused | ExRefundNotRetryable
datatype sql_state = ExclusionViolation | UniqueViolation | CheckViolation | ForeignKeyViolation

text \<open>One constructor per error class of the program, and the violations the code reacts to.\<close>

datatype err =
    AccessErr access_code
  | InventoryErr inventory_code
  | CatalogErr catalog_code
  | BookingErr booking_code
  | CustomerErr customer_code
  | CommandErr command_code
  | AgentErr agent_code
  | GatewayRevoked
  | AmendmentErr amendment_code
  | RefundErr refund_code
  | CashRefundErr
  | ChannelErr channel_code
  | MerchantErr merchant_code
  | ExceptionRefundErr exception_refund_code
  | InvalidRequest
  | WalletErr wallet_code
  | PricingErr pricing_error
  | IntervalErr interval_error
  | SqlErr sql_state
  | TypeErr \<comment> \<open>a non-null assertion of the source that does not hold\<close>

section \<open>Transactions\<close>

text \<open>
  What a transaction gets from outside: the clock (\<open>clock_timestamp()\<close> at its n-th
  reading and \<open>now()\<close>, the time of its BEGIN), random UUIDs, the digest of a canonical
  JSON value (SHA-256 of its text), the orders of localeCompare and of the database collation,
  the time zone data, Date.parse on strings of no fixed form and whether the process runs in
  production.
\<close>

record env =
  e_clock :: "nat \<Rightarrow> instant"
  e_begin :: instant
  e_uuid :: "nat \<Rightarrow> string"
  e_digest :: "json \<Rightarrow> string"
  e_locale_le :: "string \<Rightarrow> string \<Rightarrow> bool"
  e_collate_le :: "string \<Rightarrow> string \<Rightarrow> bool"
  e_intl :: intl
  e_date_parse :: "string \<Rightarrow> instant option"
  e_production :: bool

type_synonym 'a tx = "env \<Rightarrow> db \<Rightarrow> err + 'a \<times> db"
type_synonym 'a op = "env \<Rightarrow> db \<Rightarrow> (err + 'a) \<times> db"

definition tret :: "'a \<Rightarrow> 'a tx" where
  "tret x E d = Inr (x, d)"

definition tfail :: "err \<Rightarrow> 'a tx" where
  "tfail e E d = Inl e"

definition tbind :: "'a tx \<Rightarrow> ('a \<Rightarrow> 'b tx) \<Rightarrow> 'b tx" where
  "tbind m f E d = (case m E d of Inl e \<Rightarrow> Inl e | Inr (x, d') \<Rightarrow> f x E d')"

definition tseq :: "'a tx \<Rightarrow> 'b tx \<Rightarrow> 'b tx" where
  "tseq m n = tbind m (\<lambda>_. n)"

definition tguard :: "bool \<Rightarrow> err \<Rightarrow> unit tx" where
  "tguard b e = (if b then tret () else tfail e)"

definition twhen :: "bool \<Rightarrow> unit tx \<Rightarrow> unit tx" where
  "twhen b m = (if b then m else tret ())"

definition tread :: "(db \<Rightarrow> 'a) \<Rightarrow> 'a tx" where
  "tread f E d = Inr (f d, d)"

definition tenv :: "(env \<Rightarrow> 'a) \<Rightarrow> 'a tx" where
  "tenv f E d = Inr (f E, d)"

definition tmodify :: "(db \<Rightarrow> db) \<Rightarrow> unit tx" where
  "tmodify f E d = Inr ((), f d)"

text \<open>An INSERT whose constraint does not admit the row fails with the violation.\<close>

definition tcheck :: "(db \<Rightarrow> bool) \<Rightarrow> err \<Rightarrow> unit tx" where
  "tcheck P e E d = (if P d then Inr ((), d) else Inl e)"

definition tlift :: "('e \<Rightarrow> err) \<Rightarrow> 'e + 'a \<Rightarrow> 'a tx" where
  "tlift f m E d = (case m of Inl e \<Rightarrow> Inl (f e) | Inr x \<Rightarrow> Inr (x, d))"

definition tsome :: "'a option \<Rightarrow> err \<Rightarrow> 'a tx" where
  "tsome x e = (case x of None \<Rightarrow> tfail e | Some y \<Rightarrow> tret y)"

fun teach :: "('a \<Rightarrow> unit tx) \<Rightarrow> 'a list \<Rightarrow> unit tx" where
  "teach f [] = tret ()"
| "teach f (x # xs) = tseq (f x) (teach f xs)"

fun tmap :: "('a \<Rightarrow> 'b tx) \<Rightarrow> 'a list \<Rightarrow> 'b list tx" where
  "tmap f [] = tret []"
| "tmap f (x # xs) = tbind (f x) (\<lambda>y. tbind (tmap f xs) (\<lambda>ys. tret (y # ys)))"

definition tclock :: "instant tx" where
  "tclock E d = Inr (e_clock E (ticks d), d\<lparr>ticks := Suc (ticks d)\<rparr>)"

definition tuuid :: "string tx" where
  "tuuid E d = Inr (e_uuid E (uuids d), d\<lparr>uuids := Suc (uuids d)\<rparr>)"

text \<open>BEGIN, the work, and COMMIT or, on any error, ROLLBACK.\<close>

definition run_tx :: "'a tx \<Rightarrow> 'a op" where
  "run_tx work E d =
     (case work E (d\<lparr>ticks := 0, uuids := 0\<rparr>) of Inl e \<Rightarrow> (Inl e, d) | Inr (x, d') \<Rightarrow> (Inr x, d'))"

text \<open>A further transaction of the same operation: the clock and the UUIDs go on.\<close>

definition run_more :: "'a tx \<Rightarrow> 'a op" where
  "run_more work E d = (case work E d of Inl e \<Rightarrow> (Inl e, d) | Inr (x, d') \<Rightarrow> (Inr x, d'))"

definition op_bind :: "'a op \<Rightarrow> ('a \<Rightarrow> 'b op) \<Rightarrow> 'b op" where
  "op_bind m f E d = (case m E d of (Inl e, d') \<Rightarrow> (Inl e, d') | (Inr x, d') \<Rightarrow> f x E d')"

definition op_ret :: "'a \<Rightarrow> 'a op" where
  "op_ret x E d = (Inr x, d)"

fun op_concat :: "('a \<Rightarrow> 'b list op) \<Rightarrow> 'a list \<Rightarrow> 'b list op" where
  "op_concat f [] = op_ret []"
| "op_concat f (x # xs) = op_bind (f x) (\<lambda>ys. op_bind (op_concat f xs) (\<lambda>zs. op_ret (ys @ zs)))"

definition map_error :: "(err \<Rightarrow> err) \<Rightarrow> 'a op \<Rightarrow> 'a op" where
  "map_error f m E d = (case m E d of (Inl e, d') \<Rightarrow> (Inl (f e), d') | (Inr x, d') \<Rightarrow> (Inr x, d'))"

text \<open>Checks that run before the transaction is opened.\<close>

definition checked :: "err + 'b \<Rightarrow> ('b \<Rightarrow> 'a op) \<Rightarrow> 'a op" where
  "checked c f E d = (case c of Inl e \<Rightarrow> (Inl e, d) | Inr x \<Rightarrow> f x E d)"

definition with_env :: "(env \<Rightarrow> 'a op) \<Rightarrow> 'a op" where
  "with_env f E d = f E E d"

text \<open>Sorting by a comparison that only the environment knows (stable, as ORDER BY ties are not relied on).\<close>

fun insort_by :: "('a \<Rightarrow> 'a \<Rightarrow> bool) \<Rightarrow> 'a \<Rightarrow> 'a list \<Rightarrow> 'a list" where
  "insort_by le x [] = [x]"
| "insort_by le x (y # ys) = (if le x y then x # y # ys else y # insort_by le x ys)"

definition sort_by :: "('a \<Rightarrow> 'a \<Rightarrow> bool) \<Rightarrow> 'a list \<Rightarrow> 'a list" where
  "sort_by le xs = foldr (insort_by le) xs []"

lemma mset_insort_by [simp]: "mset (insort_by le x xs) = add_mset x (mset xs)"
  by (induction xs) auto

lemma mset_sort_by [simp]: "mset (sort_by le xs) = mset xs"
  by (induction xs) (simp_all add: sort_by_def)

lemma set_sort_by [simp]: "set (sort_by le xs) = set xs"
  by (metis mset_sort_by set_mset_mset)

lemma length_sort_by [simp]: "length (sort_by le xs) = length xs"
  by (metis mset_sort_by size_mset)

section \<open>Lemmas on transactions\<close>

named_theorems tx_defs "the monad's definitions, to run a transaction"

lemma tx_run [tx_defs]:
  "tret x E d = Inr (x, d)" "tfail e E d = Inl e"
  "tread f E d = Inr (f d, d)" "tenv g E d = Inr (g E, d)" "tmodify h E d = Inr ((), h d)"
  by (simp_all add: tret_def tfail_def tread_def tenv_def tmodify_def)

lemma tbind_Inr [ok_iff]: "tbind m f E d = Inr r \<longleftrightarrow> (\<exists>x d'. m E d = Inr (x, d') \<and> f x E d' = Inr r)"
  by (auto simp: tbind_def split: sum.splits)

lemma tseq_Inr [ok_iff]: "tseq m n E d = Inr r \<longleftrightarrow> (\<exists>x d'. m E d = Inr (x, d') \<and> n E d' = Inr r)"
  by (simp add: tseq_def ok_iff)

lemma tguard_Inr [ok_iff]: "tguard b e E d = Inr r \<longleftrightarrow> b \<and> r = ((), d)"
  by (auto simp: tguard_def tx_run)

lemma tret_Inr [ok_iff]: "tret x E d = Inr r \<longleftrightarrow> r = (x, d)"
  by (auto simp: tx_run)

lemma tfail_Inr [ok_iff]: "tfail e E d = Inr r \<longleftrightarrow> False"
  by (simp add: tx_run)

lemma tread_Inr [ok_iff]: "tread f E d = Inr r \<longleftrightarrow> r = (f d, d)"
  by (auto simp: tx_run)

lemma tenv_Inr [ok_iff]: "tenv f E d = Inr r \<longleftrightarrow> r = (f E, d)"
  by (auto simp: tx_run)

lemma tmodify_Inr [ok_iff]: "tmodify f E d = Inr r \<longleftrightarrow> r = ((), f d)"
  by (auto simp: tx_run)

lemma tcheck_Inr [ok_iff]: "tcheck P e E d = Inr r \<longleftrightarrow> P d \<and> r = ((), d)"
  by (auto simp: tcheck_def)

lemma tlift_Inr [ok_iff]: "tlift f m E d = Inr r \<longleftrightarrow> (\<exists>x. m = Inr x \<and> r = (x, d))"
  by (auto simp: tlift_def split: sum.splits)

lemma tsome_Inr [ok_iff]: "tsome x e E d = Inr r \<longleftrightarrow> (\<exists>y. x = Some y \<and> r = (y, d))"
  by (auto simp: tsome_def tx_run split: option.splits)

lemma twhen_Inr [ok_iff]: "twhen b m E d = Inr r \<longleftrightarrow> (if b then m E d = Inr r else r = ((), d))"
  by (auto simp: twhen_def tx_run)

lemma tclock_Inr [ok_iff]:
  "tclock E d = Inr r \<longleftrightarrow> r = (e_clock E (ticks d), d\<lparr>ticks := Suc (ticks d)\<rparr>)"
  by (auto simp: tclock_def)

lemma tuuid_Inr [ok_iff]:
  "tuuid E d = Inr r \<longleftrightarrow> r = (e_uuid E (uuids d), d\<lparr>uuids := Suc (uuids d)\<rparr>)"
  by (auto simp: tuuid_def)

section \<open>Invariants of transactions\<close>

text \<open>A transaction keeps a predicate of the database when every successful run does.\<close>

definition keeps :: "(db \<Rightarrow> bool) \<Rightarrow> 'a tx \<Rightarrow> bool" where
  "keeps I m \<longleftrightarrow> (\<forall>E d x d'. I d \<longrightarrow> m E d = Inr (x, d') \<longrightarrow> I d')"

named_theorems keeps_intros "which transactions keep a predicate"

lemma keepsI: "(\<And>E d x d'. I d \<Longrightarrow> m E d = Inr (x, d') \<Longrightarrow> I d') \<Longrightarrow> keeps I m"
  by (auto simp: keeps_def)

lemma keepsD: "keeps I m \<Longrightarrow> I d \<Longrightarrow> m E d = Inr (x, d') \<Longrightarrow> I d'"
  by (auto simp: keeps_def)

lemma keeps_tret [keeps_intros]: "keeps I (tret x)"
  by (auto simp: keeps_def ok_iff)

lemma keeps_tfail [keeps_intros]: "keeps I (tfail e)"
  by (auto simp: keeps_def ok_iff)

lemma keeps_tguard [keeps_intros]: "keeps I (tguard b e)"
  by (auto simp: keeps_def ok_iff)

lemma keeps_tread [keeps_intros]: "keeps I (tread f)"
  by (auto simp: keeps_def ok_iff)

lemma keeps_tenv [keeps_intros]: "keeps I (tenv f)"
  by (auto simp: keeps_def ok_iff)

lemma keeps_tcheck [keeps_intros]: "keeps I (tcheck P e)"
  by (auto simp: keeps_def ok_iff)

lemma keeps_tlift [keeps_intros]: "keeps I (tlift f m)"
  by (auto simp: keeps_def ok_iff)

lemma keeps_tsome [keeps_intros]: "keeps I (tsome x e)"
  by (auto simp: keeps_def ok_iff)

lemma keeps_tbind [keeps_intros]: "keeps I m \<Longrightarrow> (\<And>x. keeps I (f x)) \<Longrightarrow> keeps I (tbind m f)"
  unfolding keeps_def tbind_Inr by blast

lemma keeps_tseq [keeps_intros]: "keeps I m \<Longrightarrow> keeps I n \<Longrightarrow> keeps I (tseq m n)"
  unfolding tseq_def by (intro keeps_tbind)

lemma keeps_twhen [keeps_intros]: "(b \<Longrightarrow> keeps I m) \<Longrightarrow> keeps I (twhen b m)"
  by (simp add: twhen_def keeps_tret)

lemma keeps_if [keeps_intros]: "(b \<Longrightarrow> keeps I m) \<Longrightarrow> (\<not> b \<Longrightarrow> keeps I n) \<Longrightarrow> keeps I (if b then m else n)"
  by simp

lemma keeps_case_option [keeps_intros]:
  "keeps I m \<Longrightarrow> (\<And>y. keeps I (f y)) \<Longrightarrow> keeps I (case x of None \<Rightarrow> m | Some y \<Rightarrow> f y)"
  by (cases x) simp_all

lemma keeps_case_prod [keeps_intros]: "(\<And>a b. keeps I (f a b)) \<Longrightarrow> keeps I (case x of (a, b) \<Rightarrow> f a b)"
  by (cases x) simp

lemma keeps_Let [keeps_intros]: "(\<And>y. keeps I (f y)) \<Longrightarrow> keeps I (let y = x in f y)"
  by simp

lemma keeps_teach [keeps_intros]: "(\<And>x. keeps I (f x)) \<Longrightarrow> keeps I (teach f xs)"
  by (induction xs) (simp_all add: keeps_tret keeps_tseq)

lemma keeps_tmap [keeps_intros]: "(\<And>x. keeps I (f x)) \<Longrightarrow> keeps I (tmap f xs)"
  by (induction xs) (simp_all add: keeps_tret keeps_tbind)

lemma keeps_tmodify: "(\<And>d. I d \<Longrightarrow> I (f d)) \<Longrightarrow> keeps I (tmodify f)"
  by (auto simp: keeps_def ok_iff)

lemma keeps_tclock: "(\<And>d n. I d \<Longrightarrow> I (d\<lparr>ticks := n\<rparr>)) \<Longrightarrow> keeps I tclock"
  by (auto simp: keeps_def ok_iff)

lemma keeps_tuuid: "(\<And>d n. I d \<Longrightarrow> I (d\<lparr>uuids := n\<rparr>)) \<Longrightarrow> keeps I tuuid"
  by (auto simp: keeps_def ok_iff)

section \<open>What a transaction ensures\<close>

text \<open>A precondition and a postcondition of the successful runs; \<open>keeps\<close> is the case of an invariant.\<close>

definition ensures :: "(db \<Rightarrow> bool) \<Rightarrow> 'a tx \<Rightarrow> ('a \<Rightarrow> db \<Rightarrow> bool) \<Rightarrow> bool" where
  "ensures P m Q \<longleftrightarrow> (\<forall>E d x d'. P d \<longrightarrow> m E d = Inr (x, d') \<longrightarrow> Q x d')"

lemma ensuresI: "(\<And>E d x d'. P d \<Longrightarrow> m E d = Inr (x, d') \<Longrightarrow> Q x d') \<Longrightarrow> ensures P m Q"
  by (auto simp: ensures_def)

lemma ensuresD: "ensures P m Q \<Longrightarrow> P d \<Longrightarrow> m E d = Inr (x, d') \<Longrightarrow> Q x d'"
  by (auto simp: ensures_def)

lemma keeps_ensures: "keeps I m \<longleftrightarrow> ensures I m (\<lambda>_. I)"
  by (simp add: keeps_def ensures_def)

lemma ensures_tbind: "ensures P m R \<Longrightarrow> (\<And>x. ensures (R x) (f x) Q) \<Longrightarrow> ensures P (tbind m f) Q"
  unfolding ensures_def tbind_Inr by blast

lemma ensures_tseq: "ensures P m R \<Longrightarrow> (\<And>x. ensures (R x) n Q) \<Longrightarrow> ensures P (tseq m n) Q"
  unfolding tseq_def by (rule ensures_tbind)

lemma ensures_weaken: "ensures P m R \<Longrightarrow> (\<And>x d. R x d \<Longrightarrow> Q x d) \<Longrightarrow> ensures P m Q"
  by (auto simp: ensures_def)

lemma ensures_pre: "ensures P m Q \<Longrightarrow> (\<And>d. R d \<Longrightarrow> P d) \<Longrightarrow> ensures R m Q"
  by (auto simp: ensures_def)

text \<open>Operations: the transaction commits what it did or leaves the database as it was.\<close>

definition op_keeps :: "(db \<Rightarrow> bool) \<Rightarrow> 'a op \<Rightarrow> bool" where
  "op_keeps I m \<longleftrightarrow> (\<forall>E d. I d \<longrightarrow> I (snd (m E d)))"

lemma op_keeps_run_tx [keeps_intros]:
  assumes "\<And>d n k. I d \<Longrightarrow> I (d\<lparr>ticks := n, uuids := k\<rparr>)" "keeps I m"
  shows "op_keeps I (run_tx m)"
  unfolding op_keeps_def
proof (intro allI impI)
  fix E d assume "I d"
  then show "I (snd (run_tx m E d))"
    using assms(1) [of d 0 0] keepsD [OF assms(2)] by (auto simp: run_tx_def split: sum.splits)
qed

lemma op_keeps_run_more [keeps_intros]: "keeps I m \<Longrightarrow> op_keeps I (run_more m)"
  by (auto simp: op_keeps_def run_more_def keeps_def split: sum.splits)

lemma op_keeps_bind [keeps_intros]: "op_keeps I m \<Longrightarrow> (\<And>x. op_keeps I (f x)) \<Longrightarrow> op_keeps I (op_bind m f)"
  unfolding op_keeps_def
proof (intro allI impI)
  fix E d
  assume "\<forall>E d. I d \<longrightarrow> I (snd (m E d))" "\<And>x. \<forall>E d. I d \<longrightarrow> I (snd (f x E d))" "I d"
  then show "I (snd (op_bind m f E d))"
    by (cases "m E d") (auto simp: op_bind_def split: sum.splits, metis snd_conv, metis snd_conv)
qed

lemma op_keeps_ret [keeps_intros]: "op_keeps I (op_ret x)"
  by (simp add: op_keeps_def op_ret_def)

lemma op_keeps_concat [keeps_intros]: "(\<And>x. op_keeps I (f x)) \<Longrightarrow> op_keeps I (op_concat f xs)"
  by (induction xs) (simp_all add: op_keeps_ret op_keeps_bind)

lemma op_keeps_map_error [keeps_intros]: "op_keeps I m \<Longrightarrow> op_keeps I (map_error f m)"
proof -
  have "snd (map_error f m E d) = snd (m E d)" for E d
    by (cases "m E d") (auto simp: map_error_def split: sum.splits)
  then show "op_keeps I m \<Longrightarrow> ?thesis" by (simp add: op_keeps_def)
qed

lemma op_keeps_checked [keeps_intros]: "(\<And>x. c = Inr x \<Longrightarrow> op_keeps I (f x)) \<Longrightarrow> op_keeps I (checked c f)"
  by (auto simp: op_keeps_def checked_def split: sum.splits)

lemma op_keeps_with_env [keeps_intros]: "(\<And>E. op_keeps I (f E)) \<Longrightarrow> op_keeps I (with_env f)"
  by (simp add: op_keeps_def with_env_def)

lemma checked_Inr [ok_iff]: "checked c f E d = (Inr y, d') \<longleftrightarrow> (\<exists>x. c = Inr x \<and> f x E d = (Inr y, d'))"
  by (auto simp: checked_def split: sum.splits)

lemma run_tx_rollback: "fst (run_tx m E d) = Inl e \<Longrightarrow> snd (run_tx m E d) = d"
  by (auto simp: run_tx_def split: sum.splits prod.splits)

lemma run_tx_Inr:
  "run_tx m E d = (Inr x, d') \<longleftrightarrow> m E (d\<lparr>ticks := 0, uuids := 0\<rparr>) = Inr (x, d')"
  by (auto simp: run_tx_def split: sum.splits prod.splits)

end
