(* ===== verification/CourtProfile.thy ===== *)
theory CourtProfile
  imports Db
begin

text \<open>
  packages/domain/src/tennis-court-profile.ts: the descriptive attributes of a court, the
  fields a court needs before it can be sold, and the court filter. Lengths in metres with at
  most two decimals are whole centimetres here; the display labels are not modelled.
\<close>

definition court_surfaces :: "string list" where
  "court_surfaces = [''UNSPECIFIED'', ''ACRYLIC'', ''CUSHIONED_ACRYLIC'', ''CLAY'', ''ARTIFICIAL_CLAY'', ''GRASS'',
     ''ARTIFICIAL_GRASS'', ''POLYURETHANE'', ''RUBBER'', ''CARPET'', ''ASPHALT'', ''CONCRETE'', ''TILE'', ''OTHER'']"

definition court_environments :: "string list" where
  "court_environments = [''INDOOR'', ''OUTDOOR'', ''COVERED'']"

definition court_specifications :: "string list" where
  "court_specifications =
     [''UNSPECIFIED'', ''STANDARD'', ''SINGLES'', ''PRACTICE'', ''MINI_RED'', ''MINI_ORANGE'', ''OTHER'']"

definition court_lighting :: "string list" where
  "court_lighting = [''UNSPECIFIED'', ''AVAILABLE'', ''NONE'']"

definition court_climate :: "string list" where
  "court_climate = [''UNSPECIFIED'', ''AIR_CONDITIONED'', ''VENTILATED'', ''NONE'']"

definition empty_court_profile :: court_profile where
  "empty_court_profile = \<lparr>pf_specification = ''UNSPECIFIED'', pf_lighting = ''UNSPECIFIED'', pf_climate = ''UNSPECIFIED'',
     pf_surface_note = '''', pf_description = '''', pf_playing_length_cm = None, pf_playing_width_cm = None,
     pf_total_length_cm = None, pf_total_width_cm = None\<rparr>"

datatype purchase_field = FName | FHourlyPrice | FEnvironment | FSurface | FSpecification

record purchase_info =
  pu_name :: "string option"
  pu_hourly :: "int option"
  pu_environment :: "string option"
  pu_indoor :: "bool option"
  pu_surface :: "string option"
  pu_specification :: "string option"

definition missing_court_purchase_fields :: "purchase_info \<Rightarrow> purchase_field list" where
  "missing_court_purchase_fields c =
     (if (case pu_name c of None \<Rightarrow> True | Some n \<Rightarrow> blank n) then [FName] else []) @
     (if (case pu_hourly c of None \<Rightarrow> True | Some p \<Rightarrow> \<not> is_safe p \<or> p < 0) then [FHourlyPrice] else []) @
     (if \<not> (case pu_environment c of None \<Rightarrow> pu_indoor c \<noteq> None | Some e \<Rightarrow> e \<in> set court_environments)
      then [FEnvironment] else []) @
     (if (case pu_surface c of None \<Rightarrow> True
          | Some s \<Rightarrow> s = '''' \<or> s = ''UNSPECIFIED'' \<or> s \<notin> set court_surfaces) then [FSurface] else []) @
     (if (case pu_specification c of None \<Rightarrow> True
          | Some s \<Rightarrow> s = '''' \<or> s = ''UNSPECIFIED'' \<or> s \<notin> set court_specifications) then [FSpecification] else [])"

definition is_court_ready_for_booking :: "purchase_info \<Rightarrow> bool" where
  "is_court_ready_for_booking c \<longleftrightarrow> missing_court_purchase_fields c = []"

definition length_ok :: "int option \<Rightarrow> bool" where
  "length_ok v \<longleftrightarrow> (case v of None \<Rightarrow> True | Some cm \<Rightarrow> 0 < cm \<and> cm \<le> 20000)"

definition fits_inside :: "int option \<Rightarrow> int option \<Rightarrow> bool" where
  "fits_inside playing tot \<longleftrightarrow>
     (case (playing, tot) of (Some p, Some t) \<Rightarrow> \<not> t < p | _ \<Rightarrow> True)"

definition validate_court_profile :: "court_profile \<Rightarrow> bool" where
  "validate_court_profile p \<longleftrightarrow>
     pf_specification p \<in> set court_specifications \<and> pf_lighting p \<in> set court_lighting \<and>
     pf_climate p \<in> set court_climate \<and> length (pf_surface_note p) \<le> 200 \<and> length (pf_description p) \<le> 2000 \<and>
     list_all length_ok [pf_playing_length_cm p, pf_playing_width_cm p, pf_total_length_cm p, pf_total_width_cm p] \<and>
     fits_inside (pf_playing_length_cm p) (pf_total_length_cm p) \<and>
     fits_inside (pf_playing_width_cm p) (pf_total_width_cm p)"

definition matches_court_filter :: "bool \<Rightarrow> string option \<Rightarrow> string \<Rightarrow> string \<Rightarrow> bool" where
  "matches_court_filter indoor environment surface flt \<longleftrightarrow>
     (let env = (case environment of Some e \<Rightarrow> e | None \<Rightarrow> if indoor then ''INDOOR'' else ''OUTDOOR'') in
      flt = ''all'' \<or>
      (if flt = ''clay'' then surface = ''CLAY''
       else env = map (\<lambda>c. if 97 \<le> (of_char c :: nat) \<and> (of_char c :: nat) \<le> 122
                             then char_of ((of_char c :: nat) - 32) else c) flt))"

text \<open>What the fields of a stored court say to the purchase check.\<close>

definition court_purchase_info :: "court_row \<Rightarrow> purchase_info" where
  "court_purchase_info c = \<lparr>pu_name = Some (ct_name c), pu_hourly = ct_hourly c,
     pu_environment = Some (ct_environment c), pu_indoor = Some (ct_environment c = ''INDOOR''),
     pu_surface = Some (ct_surface c), pu_specification = Some (pf_specification (ct_profile c))\<rparr>"

lemma ready_iff:
  "is_court_ready_for_booking (court_purchase_info c) \<longleftrightarrow>
     \<not> blank (ct_name c) \<and> (\<exists>p. ct_hourly c = Some p \<and> valid_cents p) \<and>
     ct_environment c \<in> set court_environments \<and>
     ct_surface c \<in> set court_surfaces - {''UNSPECIFIED''} \<and>
     pf_specification (ct_profile c) \<in> set court_specifications - {''UNSPECIFIED''}"
proof -
  have "'''' \<notin> set court_surfaces" "'''' \<notin> set court_specifications"
    by (simp_all add: court_surfaces_def court_specifications_def)
  then show ?thesis
    by (auto simp: is_court_ready_for_booking_def missing_court_purchase_fields_def court_purchase_info_def
        valid_cents_def is_safe_def max_safe_def split: option.splits)
qed

end
