(* ===== verification/Access.thy ===== *)
theory Access
  imports Db
begin

text \<open>
  packages/db/src/tennis/access.ts, agent-guard.ts and gateway-guard.ts: who may do what. Every
  check runs inside the operation's transaction. The advisory lock of transaction-locks.ts and
  the row locks (FOR SHARE, FOR UPDATE) order concurrent transactions; the model runs one
  transaction at a time, so they have no effect on its state.
\<close>

section \<open>Gateway identities and delegations\<close>

definition account_disabled :: "db \<Rightarrow> string \<Rightarrow> bool" where
  "account_disabled d subject \<longleftrightarrow> list_ex (\<lambda>a. la_subject a = subject \<and> \<not> la_active a) (accounts d)"

definition tenant_active :: "db \<Rightarrow> string \<Rightarrow> bool" where
  "tenant_active d tenant \<longleftrightarrow> list_ex (\<lambda>t. tn_id t = tenant \<and> tn_active t) (tenants d)"

definition optional_match :: "string option \<Rightarrow> string \<Rightarrow> bool" where
  "optional_match given actual \<longleftrightarrow> (case given of None \<Rightarrow> True | Some g \<Rightarrow> actual = g)"

definition binding_rows ::
  "instant \<Rightarrow> actor \<Rightarrow> string \<Rightarrow> string option \<Rightarrow> string option \<Rightarrow> db \<Rightarrow> gateway_binding_row list" where
  "binding_rows now a b integration token d =
     filter (\<lambda>r. gb_tenant r = ac_tenant a \<and> gb_id r = b \<and> gb_subject r = ac_subject a \<and> gb_active r \<and>
         gb_customer_kind r = (ac_customer a \<noteq> None) \<and> gb_customer r = ac_customer a \<and>
         tenant_active d (gb_tenant r) \<and> \<not> account_disabled d (gb_subject r) \<and>
         list_ex (\<lambda>i. gn_tenant i = gb_tenant r \<and> gn_id i = gb_integration r \<and> gn_active i \<and> \<not> gn_paused i \<and>
             (case gn_expires i of None \<Rightarrow> True | Some t \<Rightarrow> t > now) \<and>
             optional_match integration (gn_id i) \<and> optional_match token (gn_token i))
           (gateway_integrations d))
       (gateway_bindings d)"

definition assert_binding :: "actor \<Rightarrow> string \<Rightarrow> string option \<Rightarrow> string option \<Rightarrow> unit tx" where
  "assert_binding a b integration token =
     tbind tclock (\<lambda>now.
     tbind (tread (binding_rows now a b integration token)) (\<lambda>rows.
     tguard (length rows = 1) GatewayRevoked))"

definition assert_gateway_identity :: "actor \<Rightarrow> unit tx" where
  "assert_gateway_identity a =
     (case ac_gateway a of None \<Rightarrow> tret ()
      | Some g \<Rightarrow> assert_binding a (gi_binding g) (Some (gi_integration g)) (Some (gi_token g)))"

definition assert_gateway_delegation :: "actor \<Rightarrow> string \<Rightarrow> unit tx" where
  "assert_gateway_delegation a token =
     tbind (tread (\<lambda>d. find (\<lambda>r. de_token r = token \<and> de_tenant r = ac_tenant a) (delegations d))) (\<lambda>row.
     case row of None \<Rightarrow> tret ()
     | Some r \<Rightarrow> (case de_gateway_binding r of None \<Rightarrow> tret () | Some b \<Rightarrow> assert_binding a b None None))"

definition delegation_rows :: "instant \<Rightarrow> actor \<Rightarrow> delegation \<Rightarrow> db \<Rightarrow> conversation_row list" where
  "delegation_rows now a g d =
     filter (\<lambda>c. cv_id c = dg_conversation g \<and> cv_tenant c = ac_tenant a \<and> cv_subject c = ac_subject a \<and>
         cv_venue c = dg_venue g \<and> cv_agent_mode c \<and> \<not> account_disabled d (cv_subject c) \<and>
         list_ex (\<lambda>r. de_token r = dg_token g \<and> de_tenant r = ac_tenant a \<and> de_conversation r = cv_id c \<and>
             de_generation r = dg_generation g \<and> cv_generation c = de_generation r \<and> de_expires r > now \<and>
             de_request r = dg_request g)
           (delegations d))
       (conversations d)"

text \<open>An empty venue id counts as no venue, as in the source's truthiness tests.\<close>

definition given :: "string option \<Rightarrow> string option" where
  "given v = (case v of None \<Rightarrow> None | Some s \<Rightarrow> if s = '''' then None else Some s)"

definition assert_delegation :: "actor \<Rightarrow> string option \<Rightarrow> unit tx" where
  "assert_delegation a venue =
     tseq (assert_gateway_identity a)
     (case ac_delegation a of None \<Rightarrow> tret ()
      | Some g \<Rightarrow>
          tseq (tguard (case given venue of None \<Rightarrow> True | Some v \<Rightarrow> v = dg_venue g) (AgentErr AgentScopeDenied))
          (tbind tclock (\<lambda>now.
           tbind (tread (delegation_rows now a g)) (\<lambda>rows.
           tseq (tguard (length rows = 1) (AgentErr AgentDelegationRevoked))
             (assert_gateway_delegation a (dg_token g))))))"

section \<open>Permissions\<close>

definition find_membership :: "actor \<Rightarrow> db \<Rightarrow> membership_row option" where
  "find_membership a d =
     find (\<lambda>m. ms_tenant m = ac_tenant a \<and> ms_subject m = ac_subject a \<and> ms_active m \<and> tenant_active d (ms_tenant m))
       (memberships d)"

definition membership_grants :: "permission \<Rightarrow> membership_row \<Rightarrow> bool" where
  "membership_grants p m \<longleftrightarrow>
     ms_role m = Admin \<or> (p \<in> set (ms_permissions m) \<and> \<not> (ms_role m = Viewer \<and> p \<noteq> PRead))"

definition in_venue_scope :: "actor \<Rightarrow> string \<Rightarrow> db \<Rightarrow> bool" where
  "in_venue_scope a v d \<longleftrightarrow>
     list_ex (\<lambda>s. mv_tenant s = ac_tenant a \<and> mv_subject s = ac_subject a \<and> mv_venue s = v) (membership_venues d)"

definition require_tenant_permission :: "actor \<Rightarrow> permission \<Rightarrow> string option \<Rightarrow> unit tx" where
  "require_tenant_permission a p venue =
     tseq (assert_delegation a venue)
     (tbind (tread (find_membership a)) (\<lambda>row.
      tbind (tsome row (AccessErr TenantAccessDenied)) (\<lambda>m.
      tseq (tguard (membership_grants p m) (AccessErr TenantAccessDenied))
      (case given venue of None \<Rightarrow> tret ()
       | Some v \<Rightarrow>
           twhen (ms_role m \<noteq> Admin \<and> \<not> ms_all_venues m)
             (tbind (tread (in_venue_scope a v)) (\<lambda>ok. tguard ok (AccessErr TenantAccessDenied)))))))"

definition find_venue :: "string \<Rightarrow> string \<Rightarrow> db \<Rightarrow> venue_row option" where
  "find_venue tenant v d = find (\<lambda>r. vn_tenant r = tenant \<and> vn_id r = v) (venues d)"

definition require_venue_permission :: "actor \<Rightarrow> string \<Rightarrow> permission \<Rightarrow> unit tx" where
  "require_venue_permission a v p =
     tseq (require_tenant_permission a p (Some v))
     (tbind (tread (find_venue (ac_tenant a) v)) (\<lambda>row.
      tguard (row \<noteq> None) (AccessErr ResourceNotFound)))"

definition find_court :: "string \<Rightarrow> string \<Rightarrow> db \<Rightarrow> court_row option" where
  "find_court tenant c d = find (\<lambda>r. ct_tenant r = tenant \<and> ct_id r = c) (courts d)"

definition require_court_permission :: "actor \<Rightarrow> string \<Rightarrow> permission \<Rightarrow> bool \<Rightarrow> string tx" where
  "require_court_permission a c p require_active =
     tseq (require_tenant_permission a p None)
     (tbind (tread (find_court (ac_tenant a) c)) (\<lambda>loc.
      tbind (tsome loc (AccessErr ResourceNotFound)) (\<lambda>court.
      tseq (require_venue_permission a (ct_venue court) p)
      (tbind (tread (find_venue (ac_tenant a) (ct_venue court))) (\<lambda>vrow.
       tbind (tsome vrow (AccessErr ResourceNotFound)) (\<lambda>venue.
       tseq (require_tenant_permission a p (Some (ct_venue court)))
       (tseq (tguard (\<not> (require_active \<and> \<not> (ct_active court \<and> vn_active venue))) (AccessErr ResourceUnavailable))
        (tret (ct_venue court)))))))))"

definition record_tenant_audit :: "actor \<Rightarrow> string \<Rightarrow> string \<Rightarrow> (string \<times> json) list \<Rightarrow> unit tx" where
  "record_tenant_audit a action resource details =
     tbind tuuid (\<lambda>i.
     tmodify (\<lambda>d. d\<lparr>audits := audits d @ [\<lparr>au_id = i, au_tenant = ac_tenant a, au_subject = ac_subject a,
        au_action = action, au_resource = resource, au_details = details\<rparr>]\<rparr>))"

definition with_tenant_transaction :: "actor \<Rightarrow> 'a tx \<Rightarrow> 'a op" where
  "with_tenant_transaction a work = run_tx (tseq (require_tenant_permission a PRead None) work)"

section \<open>What a successful check tells\<close>

text \<open>The checks do not write; they only read the clock.\<close>

definition same_tables :: "db \<Rightarrow> db \<Rightarrow> bool" where
  "same_tables d d' \<longleftrightarrow> (\<exists>n. d' = d\<lparr>ticks := n\<rparr>)"

lemma same_tables_refl [simp]: "same_tables d d"
  unfolding same_tables_def by (rule exI [of _ "ticks d"]) simp

lemma same_tables_tick [simp]: "same_tables d (d\<lparr>ticks := n\<rparr>)"
  by (auto simp: same_tables_def)

lemma same_tables_trans: "same_tables d d' \<Longrightarrow> same_tables d' d'' \<Longrightarrow> same_tables d d''"
  by (auto simp: same_tables_def)

definition reads_only :: "'a tx \<Rightarrow> bool" where
  "reads_only m \<longleftrightarrow> (\<forall>E d x d'. m E d = Inr (x, d') \<longrightarrow> same_tables d d')"

named_theorems reads_intros "which transactions only read"

lemma reads_onlyD: "reads_only m \<Longrightarrow> m E d = Inr (x, d') \<Longrightarrow> same_tables d d'"
  by (auto simp: reads_only_def)

lemma reads_basic [reads_intros]:
  "reads_only (tret x)" "reads_only (tfail e)" "reads_only (tguard b e)" "reads_only (tread f)"
  "reads_only (tenv g)" "reads_only (tcheck P e)" "reads_only (tlift h m)" "reads_only (tsome y e)"
  "reads_only tclock"
  by (simp_all add: reads_only_def ok_iff same_tables_tick)

lemma reads_tbind [reads_intros]: "reads_only m \<Longrightarrow> (\<And>x. reads_only (f x)) \<Longrightarrow> reads_only (tbind m f)"
  unfolding reads_only_def tbind_Inr by (metis same_tables_trans)

lemma reads_tseq [reads_intros]: "reads_only m \<Longrightarrow> reads_only n \<Longrightarrow> reads_only (tseq m n)"
  unfolding tseq_def by (intro reads_tbind)

lemma reads_twhen [reads_intros]: "reads_only m \<Longrightarrow> reads_only (twhen b m)"
  by (simp add: twhen_def reads_basic)

lemma reads_case_option [reads_intros]:
  "reads_only m \<Longrightarrow> (\<And>y. reads_only (f y)) \<Longrightarrow> reads_only (case x of None \<Rightarrow> m | Some y \<Rightarrow> f y)"
  by (cases x) simp_all

lemma reads_if [reads_intros]: "reads_only m \<Longrightarrow> reads_only n \<Longrightarrow> reads_only (if b then m else n)"
  by simp

lemma reads_Let [reads_intros]: "(\<And>y. reads_only (f y)) \<Longrightarrow> reads_only (let y = x in f y)"
  by simp

lemma reads_teach [reads_intros]: "(\<And>x. reads_only (f x)) \<Longrightarrow> reads_only (teach f xs)"
  by (induction xs) (simp_all add: reads_basic reads_tseq)

lemma reads_tmap [reads_intros]: "(\<And>x. reads_only (f x)) \<Longrightarrow> reads_only (tmap f xs)"
  by (induction xs) (simp_all add: reads_basic reads_tbind)

lemma keeps_reads: "(\<And>d n. I d \<Longrightarrow> I (d\<lparr>ticks := n\<rparr>)) \<Longrightarrow> reads_only m \<Longrightarrow> keeps I m"
  by (force simp: keeps_def reads_only_def same_tables_def)

lemma reads_assert_binding [reads_intros]: "reads_only (assert_binding a b i t)"
  unfolding assert_binding_def by (intro reads_intros)

lemma reads_assert_delegation [reads_intros]: "reads_only (assert_delegation a v)"
  unfolding assert_delegation_def assert_gateway_identity_def assert_gateway_delegation_def
  by (intro reads_intros)

lemma reads_require_tenant_permission [reads_intros]: "reads_only (require_tenant_permission a p v)"
  unfolding require_tenant_permission_def by (intro reads_intros)

lemma reads_require_venue_permission [reads_intros]: "reads_only (require_venue_permission a v p)"
  unfolding require_venue_permission_def by (intro reads_intros)

lemma reads_require_court_permission [reads_intros]: "reads_only (require_court_permission a c p r)"
  unfolding require_court_permission_def by (intro reads_intros)

text \<open>What the permission of an actor means on the tables.\<close>

definition may :: "db \<Rightarrow> actor \<Rightarrow> permission \<Rightarrow> string option \<Rightarrow> bool" where
  "may d a p venue \<longleftrightarrow>
     (\<exists>m. find_membership a d = Some m \<and> membership_grants p m \<and>
        (case given venue of None \<Rightarrow> True
         | Some v \<Rightarrow> ms_role m = Admin \<or> ms_all_venues m \<or> in_venue_scope a v d))"

lemma may_ticks [simp]: "may (d\<lparr>ticks := n\<rparr>) a p v = may d a p v"
  by (simp add: may_def find_membership_def tenant_active_def in_venue_scope_def split: option.split)

lemma may_same: "same_tables d d' \<Longrightarrow> may d' a p v = may d a p v"
  by (auto simp: same_tables_def)

lemma require_tenant_permission_may:
  assumes "require_tenant_permission a p v E d = Inr (x, d')"
  shows "may d a p v"
proof -
  obtain y d1 where d1: "assert_delegation a v E d = Inr (y, d1)"
    and rest: "(tbind (tread (find_membership a)) (\<lambda>row.
      tbind (tsome row (AccessErr TenantAccessDenied)) (\<lambda>m.
      tseq (tguard (membership_grants p m) (AccessErr TenantAccessDenied))
      (case given v of None \<Rightarrow> tret ()
       | Some v \<Rightarrow>
           twhen (ms_role m \<noteq> Admin \<and> \<not> ms_all_venues m)
             (tbind (tread (in_venue_scope a v)) (\<lambda>ok. tguard ok (AccessErr TenantAccessDenied))))))) E d1 = Inr (x, d')"
    using assms unfolding require_tenant_permission_def tseq_Inr by blast
  have "may d1 a p v"
    using rest by (auto simp: ok_iff may_def split: option.splits if_splits)
  then show ?thesis using may_same [OF reads_onlyD [OF reads_assert_delegation d1]] by simp
qed

lemma with_tenant_transaction_may:
  assumes "with_tenant_transaction a work E d = (Inr x, d')"
  shows "may d a PRead None"
proof -
  obtain y d1 where "require_tenant_permission a PRead None E (d\<lparr>ticks := 0, uuids := 0\<rparr>) = Inr (y, d1)"
    using assms by (auto simp: with_tenant_transaction_def run_tx_Inr ok_iff)
  then have "may (d\<lparr>ticks := 0, uuids := 0\<rparr>) a PRead None" by (rule require_tenant_permission_may)
  then show ?thesis by (simp add: may_def find_membership_def tenant_active_def given_def)
qed

section \<open>Invariants of the database\<close>

text \<open>
  The interface between an invariant of the tables and the operations: an invariant that the
  primitive writes keep is kept by every operation. T says on behalf of which tenants the writes
  are done. The later theories extend the locale by the writes they introduce and prove the
  operations inside it.
\<close>

locale db_invariant =
  fixes I :: "db \<Rightarrow> bool" and T :: "string \<Rightarrow> bool"
  assumes inv_counters: "I d \<Longrightarrow> I (d\<lparr>ticks := n\<rparr>)" "I d \<Longrightarrow> I (d\<lparr>uuids := n\<rparr>)"
    and inv_audit: "T (ac_tenant a) \<Longrightarrow> keeps I (record_tenant_audit a s r ds)"
begin

lemma keeps_counters: "keeps I tclock" "keeps I tuuid"
  using inv_counters by (auto intro: keeps_tclock keeps_tuuid)

lemma keeps_reading: "reads_only m \<Longrightarrow> keeps I m"
  using inv_counters(1) by (rule keeps_reads)

lemmas keeps_base = keeps_counters inv_audit
  keeps_reading [OF reads_assert_delegation]
  keeps_reading [OF reads_require_tenant_permission]
  keeps_reading [OF reads_require_venue_permission]
  keeps_reading [OF reads_require_court_permission]

lemma op_keeps_tx: "keeps I m \<Longrightarrow> op_keeps I (run_tx m)"
  by (intro op_keeps_run_tx inv_counters)

lemma op_keeps_tenant: "keeps I work \<Longrightarrow> op_keeps I (with_tenant_transaction a work)"
  unfolding with_tenant_transaction_def by (intro op_keeps_tx keeps_intros keeps_base)

end

end
