(* ===== verification/Sample.thy ===== *)
theory Sample
  imports Access CourtProfile
begin

text \<open>
  A small world on which the theories exercise their theorems: an empty database, and one
  tenant with an administrator, a venue open all week, two courts, a customer and a viewer.
\<close>

definition empty_db :: db where
  "empty_db = \<lparr>tenants = [], memberships = [], membership_venues = [], accounts = [], conversations = [],
     delegations = [], gateway_integrations = [], gateway_bindings = [], venues = [], courts = [], discount_rows = [],
     policies = [], occupancies = [], audits = [], receipts = [], command_links = [], customers = [], quotes = [],
     orders = [], order_lines = [], wallets = [], batches = [], allocations = [], entries = [], payments = [],
     payment_events = [], external_receipts = [], exceptions = [], channel_transactions = [], merchants = [],
     operators = [], auth_audits = [],
     channel_operations = [], channel_observations = [], amendments = [], amendment_lines = [], refund_groups = [],
     refunds = [], refund_lines = [], refund_allocations = [], refund_events = [], refund_receipts = [],
     cash_refunds = [], topup_offers = [], topup_quotes = [], topups = [], topup_events = [], topup_exceptions = [],
     exception_refunds = [], exception_events = [], ticks = 0, uuids = 0\<rparr>"

fun tally :: "nat \<Rightarrow> string" where
  "tally 0 = ''u''"
| "tally (Suc n) = CHR ''x'' # tally n"

lemma length_tally [simp]: "length (tally n) = Suc n"
  by (induction n) auto

lemma tally_inj [simp]: "tally m = tally n \<longleftrightarrow> m = n"
  by (metis length_tally nat.inject)

fun json_text :: "json \<Rightarrow> string" where
  "json_text JNull = ''null''"
| "json_text (JBool b) = (if b then ''true'' else ''false'')"
| "json_text (JNum n) = (if n < 0 then CHR ''-'' # tally (nat (- n)) else tally (nat n))"
| "json_text (JStr s) = CHR 0x22 # s @ [CHR 0x22]"
| "json_text (JArr js) = CHR ''['' # concat (map json_text js) @ '']''"
| "json_text (JObj kvs) = CHR ''{'' # concat (map (\<lambda>p. fst p @ '':'' @ json_text (snd p)) kvs) @ ''}''"

definition sample_clock :: "nat \<Rightarrow> instant" where
  "sample_clock n = 1772409600000 + int n" \<comment> \<open>2026-03-02T00:00:00Z and a little\<close>

definition sample_date :: "string \<Rightarrow> instant option" where
  "sample_date s = (case minute_instant s of Inr t \<Rightarrow> Some t | Inl _ \<Rightarrow> None)"

definition sample_env :: env where
  "sample_env = \<lparr>e_clock = sample_clock, e_begin = 1772409600000, e_uuid = tally, e_digest = json_text,
     e_locale_le = str_le, e_collate_le = str_le, e_intl = fixed_zone ''Z'' 480,
     e_date_parse = sample_date, e_production = False\<rparr>"

definition sample_profile :: court_profile where
  "sample_profile = empty_court_profile\<lparr>pf_specification := ''STANDARD''\<rparr>"

definition sample_hours :: "opening_window list" where
  "sample_hours = map (\<lambda>w. \<lparr>ow_weekday = w, ow_start = 0, ow_end = 1440\<rparr>) [0, 1, 2, 3, 4, 5, 6]"

definition sample_court :: "string \<Rightarrow> court_row" where
  "sample_court i = \<lparr>ct_id = i, ct_tenant = ''t'', ct_venue = ''v'', ct_name = i, ct_active = True,
     ct_environment = ''INDOOR'', ct_surface = ''CLAY'', ct_profile = sample_profile, ct_hourly = Some 10000,
     ct_revision = 1\<rparr>"

definition sample_db :: db where
  "sample_db = empty_db\<lparr>tenants := [\<lparr>tn_id = ''t'', tn_active = True\<rparr>],
     memberships := [\<lparr>ms_tenant = ''t'', ms_subject = ''admin'', ms_role = Admin, ms_active = True,
          ms_all_venues = True, ms_permissions = []\<rparr>,
        \<lparr>ms_tenant = ''t'', ms_subject = ''view'', ms_role = Viewer, ms_active = True,
          ms_all_venues = True, ms_permissions = [PRead, PBook]\<rparr>],
     venues := [\<lparr>vn_id = ''v'', vn_tenant = ''t'', vn_name = ''hall'', vn_address = '''', vn_timezone = ''Z'',
        vn_active = True, vn_hours = sample_hours, vn_minimum = Some 30, vn_revision = 1\<rparr>],
     courts := [sample_court ''c1'', sample_court ''c2''],
     customers := [\<lparr>cu_id = ''k'', cu_tenant = ''t'', cu_nickname = ''Kim'', cu_phone = Some ''+8613812345678'',
        cu_subject = None, cu_active = True\<rparr>]\<rparr>"

definition sample_admin :: actor where
  "sample_admin = \<lparr>ac_subject = ''admin'', ac_tenant = ''t'', ac_customer = None, ac_delegation = None, ac_gateway = None\<rparr>"

definition sample_viewer :: actor where
  "sample_viewer = sample_admin\<lparr>ac_subject := ''view''\<rparr>"

definition sample_interval :: court_interval where
  "sample_interval = \<lparr>start_at = ''2026-03-02T02:00:00Z'', end_at = ''2026-03-02T03:00:00Z''\<rparr>"

end
