(* ===== verification/Receipts.thy ===== *)
theory Receipts
  imports Sample
begin

text \<open>
  packages/db/src/tennis/receipts.ts: a command is performed once per tenant, subject and
  command key. Its receipt is written with its result in the same transaction, and a repetition
  returns the stored result. The primary keys of command_receipts and agent_command_links are
  part of the two INSERT ... ON CONFLICT DO NOTHING.
\<close>

section \<open>The digest of a request\<close>

text \<open>Entries of an object in the order of localeCompare on their keys, at every depth.\<close>

primrec canonical :: "(string \<Rightarrow> string \<Rightarrow> bool) \<Rightarrow> json \<Rightarrow> json" where
  "canonical le JNull = JNull"
| "canonical le (JBool b) = JBool b"
| "canonical le (JNum n) = JNum n"
| "canonical le (JStr s) = JStr s"
| "canonical le (JArr js) = JArr (map (canonical le) js)"
| "canonical le (JObj kvs) = JObj (sort_by (\<lambda>p q. le (fst p) (fst q)) (map (map_prod id (canonical le)) kvs))"

definition request_hash :: "env \<Rightarrow> json \<Rightarrow> string" where
  "request_hash E request = e_digest E (canonical (e_locale_le E) request)"

section \<open>The tables\<close>

definition receipt_key :: "actor \<Rightarrow> string \<Rightarrow> receipt_row \<Rightarrow> bool" where
  "receipt_key a key r \<longleftrightarrow> rc_tenant r = ac_tenant a \<and> rc_subject r = ac_subject a \<and> rc_key r = key"

definition find_receipt :: "actor \<Rightarrow> string \<Rightarrow> db \<Rightarrow> receipt_row option" where
  "find_receipt a key d = find (receipt_key a key) (receipts d)"

text \<open>INSERT ... ON CONFLICT DO NOTHING; the answer is whether a row was inserted.\<close>

definition insert_receipt :: "receipt_row \<Rightarrow> bool tx" where
  "insert_receipt r E d =
     (if list_ex (\<lambda>q. rc_tenant q = rc_tenant r \<and> rc_subject q = rc_subject r \<and> rc_key q = rc_key r) (receipts d)
      then Inr (False, d) else Inr (True, d\<lparr>receipts := receipts d @ [r]\<rparr>))"

definition complete_row :: "actor \<Rightarrow> string \<Rightarrow> json \<Rightarrow> instant \<Rightarrow> receipt_row \<Rightarrow> receipt_row" where
  "complete_row a key result now r =
     (if receipt_key a key r then r\<lparr>rc_result := Some result, rc_completed := Some now\<rparr> else r)"

definition complete_receipt :: "actor \<Rightarrow> string \<Rightarrow> json \<Rightarrow> unit tx" where
  "complete_receipt a key result =
     tbind tclock (\<lambda>now. tmodify (\<lambda>d. d\<lparr>receipts := map (complete_row a key result now) (receipts d)\<rparr>))"

definition same_link :: "command_link_row \<Rightarrow> command_link_row \<Rightarrow> bool" where
  "same_link r q \<longleftrightarrow> cl_tenant q = cl_tenant r \<and> cl_request q = cl_request r \<and> cl_subject q = cl_subject r \<and> cl_key q = cl_key r"

definition insert_link :: "command_link_row \<Rightarrow> unit tx" where
  "insert_link r = tmodify (\<lambda>d. if list_ex (same_link r) (command_links d) then d
     else d\<lparr>command_links := command_links d @ [r]\<rparr>)"

definition link_agent_command :: "actor \<Rightarrow> string \<Rightarrow> string \<Rightarrow> unit tx" where
  "link_agent_command a venue key =
     (case ac_delegation a of None \<Rightarrow> tret ()
      | Some g \<Rightarrow>
          tseq (assert_delegation a (Some venue))
          (insert_link \<lparr>cl_tenant = ac_tenant a, cl_conversation = dg_conversation g, cl_request = dg_request g,
             cl_subject = ac_subject a, cl_key = key\<rparr>))"

section \<open>Commands\<close>

definition key_length_ok :: "string \<Rightarrow> bool" where
  "key_length_ok key \<longleftrightarrow> \<not> (length key < 8 \<or> length key > 128)"

text \<open>The branch in which a receipt with this key was there before.\<close>

definition replay_receipt :: "actor \<Rightarrow> string \<Rightarrow> string \<Rightarrow> string \<Rightarrow> string \<Rightarrow> json tx" where
  "replay_receipt a venue key command_type hash =
     tbind (tread (find_receipt a key)) (\<lambda>stored.
     tbind (tsome stored TypeErr) (\<lambda>receipt.
     tseq (tguard (\<not> (rc_hash receipt \<noteq> hash \<or> rc_type receipt \<noteq> command_type \<or> rc_venue receipt \<noteq> venue))
       (CommandErr IdempotencyKeyReused))
     (tseq (tguard (rc_result receipt \<noteq> None \<and> rc_result receipt \<noteq> Some JNull) (CommandErr IncompleteReceipt))
     (tseq (link_agent_command a venue key)
       (tsome (rc_result receipt) TypeErr)))))"

definition idempotent_command ::
  "actor \<Rightarrow> string \<Rightarrow> string \<Rightarrow> string \<Rightarrow> json \<Rightarrow> json tx \<Rightarrow> json tx" where
  "idempotent_command a venue key command_type request perform =
     tseq (tguard (key_length_ok key) (CommandErr InvalidCommandKey))
     (tbind (tenv (\<lambda>E. request_hash E request)) (\<lambda>hash.
      tbind (insert_receipt \<lparr>rc_tenant = ac_tenant a, rc_subject = ac_subject a, rc_key = key, rc_venue = venue,
         rc_type = command_type, rc_hash = hash, rc_result = None, rc_completed = None\<rparr>) (\<lambda>inserted.
      if \<not> inserted then replay_receipt a venue key command_type hash
      else
        tbind perform (\<lambda>result.
        tseq (complete_receipt a key result)
        (tseq (link_agent_command a venue key)
          (tret result))))))"

section \<open>Lemmas\<close>

lemma insert_receipt_Inr [ok_iff]:
  "insert_receipt r E d = Inr res \<longleftrightarrow>
     res = (if list_ex (\<lambda>q. rc_tenant q = rc_tenant r \<and> rc_subject q = rc_subject r \<and> rc_key q = rc_key r) (receipts d)
      then (False, d) else (True, d\<lparr>receipts := receipts d @ [r]\<rparr>))"
  by (auto simp: insert_receipt_def)

lemma link_agent_command_human [simp]: "ac_delegation a = None \<Longrightarrow> link_agent_command a venue key = tret ()"
  by (simp add: link_agent_command_def)

lemma complete_row_key [simp]: "receipt_key a' key' (complete_row a key result now r) = receipt_key a' key' r"
  by (simp add: complete_row_def receipt_key_def)

lemma find_complete:
  "find (receipt_key a key) (map (complete_row a key result now) rows)
     = map_option (complete_row a key result now) (find (receipt_key a key) rows)"
  by (induction rows) auto

lemma find_append_absent: "\<not> list_ex P xs \<Longrightarrow> P x \<Longrightarrow> find P (xs @ [x]) = Some x"
  by (induction xs) auto

text \<open>Which transactions leave the receipts as they are.\<close>

definition no_receipts :: "'a tx \<Rightarrow> bool" where
  "no_receipts m \<longleftrightarrow> (\<forall>rs. keeps (\<lambda>d. receipts d = rs) m)"

lemma no_receiptsD: "no_receipts m \<Longrightarrow> m E d = Inr (x, d') \<Longrightarrow> receipts d' = receipts d"
  by (auto simp: no_receipts_def keeps_def)

text \<open>What a completed run leaves behind, and what a run finds when it is there.\<close>

definition has_receipt :: "actor \<Rightarrow> string \<Rightarrow> string \<Rightarrow> string \<Rightarrow> string \<Rightarrow> json \<Rightarrow> db \<Rightarrow> bool" where
  "has_receipt a venue key command_type hash result d \<longleftrightarrow>
     (\<exists>r. find_receipt a key d = Some r \<and> rc_hash r = hash \<and> rc_type r = command_type \<and> rc_venue r = venue \<and>
        rc_result r = Some result)"

lemma find_Some_list_ex: "find P xs = Some x \<Longrightarrow> list_ex P xs"
  by (induction xs) (auto split: if_splits)

lemma list_ex_receipt_key:
  "list_ex (\<lambda>q. rc_tenant q = ac_tenant a \<and> rc_subject q = ac_subject a \<and> rc_key q = key) rows
     = list_ex (receipt_key a key) rows"
  by (simp add: receipt_key_def [abs_def])

lemma idempotent_unfold:
  "idempotent_command a venue key command_type request perform E d =
     (if \<not> key_length_ok key then Inl (CommandErr InvalidCommandKey)
      else if list_ex (receipt_key a key) (receipts d)
      then replay_receipt a venue key command_type (request_hash E request) E d
      else tbind perform (\<lambda>result. tseq (complete_receipt a key result)
             (tseq (link_agent_command a venue key) (tret result))) E
        (d\<lparr>receipts := receipts d @ [\<lparr>rc_tenant = ac_tenant a, rc_subject = ac_subject a, rc_key = key, rc_venue = venue,
         rc_type = command_type, rc_hash = request_hash E request, rc_result = None, rc_completed = None\<rparr>]\<rparr>))"
  by (simp add: idempotent_command_def tseq_def tbind_def tguard_def tret_def tfail_def tenv_def insert_receipt_def
      list_ex_receipt_key)

lemma idempotent_run:
  assumes run: "idempotent_command a venue key command_type request perform E d = Inr (result, d')"
    and perform: "no_receipts perform" and human: "ac_delegation a = None"
  shows "key_length_ok key" "has_receipt a venue key command_type (request_hash E request) result d'"
proof -
  let ?row = "\<lparr>rc_tenant = ac_tenant a, rc_subject = ac_subject a, rc_key = key, rc_venue = venue,
         rc_type = command_type, rc_hash = request_hash E request, rc_result = None, rc_completed = None\<rparr>"
  have key: "key_length_ok key" using run by (simp add: idempotent_command_def ok_iff)
  show "key_length_ok key" by (rule key)
  show "has_receipt a venue key command_type (request_hash E request) result d'"
  proof (cases "list_ex (receipt_key a key) (receipts d)")
    case True
    then have "replay_receipt a venue key command_type (request_hash E request) E d = Inr (result, d')"
      using run key by (simp add: idempotent_unfold)
    then show ?thesis
      by (auto simp: replay_receipt_def ok_iff human has_receipt_def)
  next
    case False
    then obtain r1 d1 where p: "perform E (d\<lparr>receipts := receipts d @ [?row]\<rparr>) = Inr (r1, d1)"
      and c: "complete_receipt a key r1 E d1 = Inr ((), d')" and r: "r1 = result"
      using run key by (auto simp: idempotent_unfold ok_iff human)
    have d1: "receipts d1 = receipts d @ [?row]"
      using no_receiptsD [OF perform p] by simp
    obtain now where d': "receipts d' = map (complete_row a key result now) (receipts d1)"
      using c r by (auto simp: complete_receipt_def ok_iff)
    have "receipt_key a key ?row" by (simp add: receipt_key_def)
    then have "find (receipt_key a key) (receipts d1) = Some ?row"
      unfolding d1 using False by (rule find_append_absent [rotated])
    then have "find_receipt a key d' = Some (complete_row a key result now ?row)"
      by (simp add: find_receipt_def d' find_complete)
    then show ?thesis by (simp add: has_receipt_def complete_row_def receipt_key_def)
  qed
qed

lemma idempotent_replay_run:
  assumes "has_receipt a venue key command_type hash result d" "key_length_ok key" "result \<noteq> JNull"
    and "request_hash E request = hash" and "ac_delegation a = None"
  shows "idempotent_command a venue key command_type request perform E d = Inr (result, d)"
proof -
  obtain r where r: "find (receipt_key a key) (receipts d) = Some r" "rc_hash r = hash" "rc_type r = command_type"
      "rc_venue r = venue" "rc_result r = Some result"
    using assms(1) by (auto simp: has_receipt_def find_receipt_def)
  have "list_ex (receipt_key a key) (receipts d)" using r(1) by (rule find_Some_list_ex)
  then show ?thesis
    using assms(2-5) r
    by (simp add: idempotent_unfold replay_receipt_def ok_iff find_receipt_def)
qed

lemma idempotent_reused_run:
  assumes "has_receipt a venue' key command_type' hash result d" "key_length_ok key"
    and "venue' \<noteq> venue \<or> command_type' \<noteq> command_type \<or> hash \<noteq> request_hash E request"
  shows "idempotent_command a venue key command_type request perform E d = Inl (CommandErr IdempotencyKeyReused)"
proof -
  obtain r where r: "find (receipt_key a key) (receipts d) = Some r" "rc_hash r = hash" "rc_type r = command_type'"
      "rc_venue r = venue'"
    using assms(1) by (auto simp: has_receipt_def find_receipt_def)
  have "list_ex (receipt_key a key) (receipts d)" using r(1) by (rule find_Some_list_ex)
  then show ?thesis
    using assms(2,3) r
    by (auto simp: idempotent_unfold replay_receipt_def find_receipt_def tseq_def tbind_def tguard_def tret_def
        tread_def tsome_def tfail_def)
qed

section \<open>The digest does not see the order of keys\<close>

text \<open>The keys of the program's request objects are words of ASCII letters and digits.\<close>

definition plain_char :: "char \<Rightarrow> bool" where
  "plain_char c \<longleftrightarrow> (let n = (of_char c :: nat) in (97 \<le> n \<and> n \<le> 122) \<or> (65 \<le> n \<and> n \<le> 90) \<or> (48 \<le> n \<and> n \<le> 57))"

definition plain_key :: "string \<Rightarrow> bool" where
  "plain_key s \<longleftrightarrow> list_all plain_char s"

text \<open>On such words localeCompare is a linear order.\<close>

definition locale_law :: "(string \<Rightarrow> string \<Rightarrow> bool) \<Rightarrow> bool" where
  "locale_law le \<longleftrightarrow>
     (\<forall>x y. plain_key x \<and> plain_key y \<longrightarrow> (le x y \<or> le y x) \<and> (le x y \<and> le y x \<longrightarrow> x = y)) \<and>
     (\<forall>x y z. plain_key x \<and> plain_key y \<and> plain_key z \<and> le x y \<and> le y z \<longrightarrow> le x z)"

text \<open>Two JSON values that differ only in the order of the entries of their objects.\<close>

inductive json_same :: "json \<Rightarrow> json \<Rightarrow> bool" where
  json_same_refl: "json_same j j"
| json_same_arr: "list_all2 json_same xs ys \<Longrightarrow> json_same (JArr xs) (JArr ys)"
| json_same_obj: "list_all2 (\<lambda>p q. fst p = fst q \<and> json_same (snd p) (snd q)) kvs kvs' \<Longrightarrow> mset kvs' = mset kvs'' \<Longrightarrow>
    distinct (map fst kvs) \<Longrightarrow> list_all plain_key (map fst kvs) \<Longrightarrow> json_same (JObj kvs) (JObj kvs'')"

definition by_key :: "(string \<Rightarrow> string \<Rightarrow> bool) \<Rightarrow> string \<times> 'a \<Rightarrow> string \<times> 'a \<Rightarrow> bool" where
  "by_key le p q \<longleftrightarrow> le (fst p) (fst q)"

lemma set_insort_by [simp]: "set (insort_by le x xs) = insert x (set xs)"
  by (metis mset_insort_by set_mset_add_mset_insert set_mset_mset)

lemma sorted_insort_by:
  assumes "\<And>x y. x \<in> S \<Longrightarrow> y \<in> S \<Longrightarrow> le x y \<or> le y x"
    and trans: "\<And>x y z. x \<in> S \<Longrightarrow> y \<in> S \<Longrightarrow> z \<in> S \<Longrightarrow> le x y \<Longrightarrow> le y z \<Longrightarrow> le x z"
  shows "x \<in> S \<Longrightarrow> set xs \<subseteq> S \<Longrightarrow> sorted_wrt le xs \<Longrightarrow> sorted_wrt le (insort_by le x xs)"
proof (induction xs)
  case (Cons y ys)
  have y: "y \<in> S" "\<forall>z\<in>set ys. z \<in> S" "\<forall>z\<in>set ys. le y z" using Cons.prems by auto
  show ?case
  proof (cases "le x y")
    case True
    have "\<forall>z\<in>set ys. le x z" using y trans [OF Cons.prems(1) y(1) _ True] by blast
    then show ?thesis using True Cons.prems by simp
  next
    case False
    then have "le y x" using assms(1) [OF Cons.prems(1) y(1)] by blast
    then show ?thesis using False Cons y by simp
  qed
qed simp

lemma sorted_sort_by:
  assumes "\<And>x y. x \<in> S \<Longrightarrow> y \<in> S \<Longrightarrow> le x y \<or> le y x"
    and "\<And>x y z. x \<in> S \<Longrightarrow> y \<in> S \<Longrightarrow> z \<in> S \<Longrightarrow> le x y \<Longrightarrow> le y z \<Longrightarrow> le x z"
  shows "set xs \<subseteq> S \<Longrightarrow> sorted_wrt le (sort_by le xs)"
proof (induction xs)
  case (Cons x xs)
  have "set (sort_by le xs) \<subseteq> S" using Cons.prems by simp
  then show ?case
    using Cons sorted_insort_by [of S le x "sort_by le xs", OF assms] by (simp add: sort_by_def)
qed (simp add: sort_by_def)

lemma sorted_wrt_mset_unique:
  assumes "\<And>x y. x \<in> set xs \<Longrightarrow> y \<in> set xs \<Longrightarrow> le x y \<Longrightarrow> le y x \<Longrightarrow> x = y"
  shows "sorted_wrt le xs \<Longrightarrow> sorted_wrt le ys \<Longrightarrow> mset xs = mset ys \<Longrightarrow> xs = ys"
  using assms
proof (induction xs arbitrary: ys)
  case (Cons x xs)
  obtain y ys' where ys: "ys = y # ys'" using Cons.prems(3) by (cases ys) auto
  have sets: "set ys = set (x # xs)" using Cons.prems(3) by (metis set_mset_mset)
  have "x = y"
  proof (rule ccontr)
    assume ne: "x \<noteq> y"
    have y: "y \<in> set xs" using sets ys ne by auto
    have x: "x \<in> set ys'" using sets ys ne by auto
    show False using Cons.prems(1,2,4) x y ys ne by auto
  qed
  then show ?case using Cons ys by auto
qed simp

lemma canonical_order:
  assumes law: "locale_law le" and m: "mset kvs = mset kvs'"
    and d: "distinct (map fst kvs)" and p: "list_all plain_key (map fst kvs)"
  shows "sort_by (\<lambda>p q. le (fst p) (fst q)) kvs = sort_by (\<lambda>p q. le (fst p) (fst q)) kvs'"
proof -
  let ?le = "\<lambda>p q. le (fst p) (fst q)"
  have s: "set kvs' = set kvs" using m by (metis set_mset_mset)
  have pl: "plain_key (fst x)" if "x \<in> set kvs" for x using p that by (auto simp: list_all_iff)
  have srt: "sorted_wrt ?le (sort_by ?le ks)" if "set ks \<subseteq> set kvs" for ks
    using that
  proof (rule sorted_sort_by [rotated 2])
    show "?le x y \<or> ?le y x" if "x \<in> set kvs" "y \<in> set kvs" for x y
      using law pl [OF that(1)] pl [OF that(2)] unfolding locale_law_def by blast
    show "?le x z" if "x \<in> set kvs" "y \<in> set kvs" "z \<in> set kvs" "?le x y" "?le y z" for x y z
      using law pl [OF that(1)] pl [OF that(2)] pl [OF that(3)] that(4,5) unfolding locale_law_def by blast
  qed
  have anti: "x = y" if "x \<in> set kvs" "y \<in> set kvs" "?le x y" "?le y x" for x y
  proof -
    have "fst x = fst y" using law pl [OF that(1)] pl [OF that(2)] that(3,4) unfolding locale_law_def by blast
    then show ?thesis using d that(1,2) by (metis distinct_map inj_onD)
  qed
  show ?thesis
    by (rule sorted_wrt_mset_unique [where le = ?le]) (use anti srt s m in \<open>auto\<close>)
qed

lemma canonical_same: "json_same j j' \<Longrightarrow> locale_law le \<Longrightarrow> canonical le j = canonical le j'"
proof (induction rule: json_same.induct)
  case (json_same_arr xs ys)
  then have "map (canonical le) xs = map (canonical le) ys"
    by (simp add: list_all2_conv_all_nth list_eq_iff_nth_eq)
  then show ?case by simp
next
  case (json_same_obj kvs kvs' kvs'')
  have eq: "map (map_prod id (canonical le)) kvs = map (map_prod id (canonical le)) kvs'"
    using json_same_obj(1,5) by (auto simp: list_all2_conv_all_nth list_eq_iff_nth_eq prod_eq_iff)
  have fs: "map fst kvs' = map fst kvs"
    using json_same_obj(1) by (auto simp: list_all2_conv_all_nth list_eq_iff_nth_eq)
  have "sort_by (\<lambda>p q. le (fst p) (fst q)) (map (map_prod id (canonical le)) kvs')
      = sort_by (\<lambda>p q. le (fst p) (fst q)) (map (map_prod id (canonical le)) kvs'')"
  proof (rule canonical_order [OF json_same_obj(5)])
    show "mset (map (map_prod id (canonical le)) kvs') = mset (map (map_prod id (canonical le)) kvs'')"
      using json_same_obj(2) by simp
  qed (use json_same_obj(3,4) fs in \<open>simp_all add: comp_def\<close>)
  then show ?case using eq by simp
qed simp

section \<open>Invariants through commands\<close>

text \<open>
  What an invariant needs of a command whose work leaves the receipts alone. The invariants
  that say nothing about receipts get it from the three writes.
\<close>

locale command_invariant = db_invariant +
  assumes inv_idempotent: "T (ac_tenant a) \<Longrightarrow> no_receipts perform \<Longrightarrow> keeps I perform \<Longrightarrow>
    keeps I (idempotent_command a v k t request perform)"

locale receiptless_invariant = db_invariant +
  assumes inv_insert_receipt: "T (rc_tenant r) \<Longrightarrow> keeps I (insert_receipt r)"
    and inv_complete_receipt: "T (ac_tenant a) \<Longrightarrow> keeps I (complete_receipt a key result)"
    and inv_link: "T (cl_tenant l) \<Longrightarrow> keeps I (insert_link l)"
begin

lemma keeps_link: "T (ac_tenant a) \<Longrightarrow> keeps I (link_agent_command a v k)"
  unfolding link_agent_command_def by (intro keeps_intros keeps_base inv_link) simp

lemma keeps_idempotent:
  "T (ac_tenant a) \<Longrightarrow> keeps I perform \<Longrightarrow> keeps I (idempotent_command a v k t request perform)"
  unfolding idempotent_command_def replay_receipt_def
  by (intro keeps_intros keeps_base keeps_link inv_insert_receipt inv_complete_receipt) simp_all

end

sublocale receiptless_invariant \<subseteq> command_invariant
  by unfold_locales (rule keeps_idempotent)

text \<open>The checks leave the receipts alone.\<close>

interpretation receipts_kept: db_invariant "\<lambda>d. receipts d = rs" "\<lambda>_. True" for rs
  by unfold_locales (auto simp: keeps_def record_tenant_audit_def ok_iff)

section \<open>Properties\<close>

text \<open>
  C14: The digest of a request is independent of how its JSON was put together: two requests that
  differ only in the order of the keys of their objects, at any depth, have the same digest, so
  that the repetition of a command is recognised.
\<close>

theorem request_hash_order:
  assumes "json_same request request'" "locale_law (e_locale_le E)"
  shows "request_hash E request = request_hash E request'"
  using canonical_same [OF assms] by (simp add: request_hash_def)

lemma str_less_total: "str_less x y \<or> x = y \<or> str_less y x"
proof (induction x y rule: str_less.induct)
  case (3 a as b bs)
  have "(of_char a :: nat) = of_char b \<longleftrightarrow> a = b" by simp
  then show ?case using 3 by (auto simp: linorder_neq_iff)
next
  case (1 x)
  then show ?case by (cases x) auto
qed simp

lemma str_less_trans: "str_less x y \<Longrightarrow> str_less y z \<Longrightarrow> str_less x z"
proof (induction x y arbitrary: z rule: str_less.induct)
  case (2 b bs)
  then show ?case by (cases z) auto
next
  case (3 a as b bs)
  then show ?case by (cases z) auto
qed auto

lemma str_le_law: "locale_law str_le"
  unfolding locale_law_def str_le_def by (metis str_less_irrefl str_less_total str_less_trans)

theorem request_hash_order_witness:
  "request_hash sample_env (JObj [(''b'', JNum 1), (''a'', JArr [JObj [(''y'', JNull), (''x'', JBool True)]])])
     = request_hash sample_env (JObj [(''a'', JArr [JObj [(''x'', JBool True), (''y'', JNull)]]), (''b'', JNum 1)])"
proof (rule request_hash_order)
  have inner: "json_same (JObj [(''y'', JNull), (''x'', JBool True)]) (JObj [(''x'', JBool True), (''y'', JNull)])"
    by (rule json_same_obj [of _ "[(''y'', JNull), (''x'', JBool True)]"])
      (simp_all add: json_same_refl plain_key_def plain_char_def)
  show "json_same (JObj [(''b'', JNum 1), (''a'', JArr [JObj [(''y'', JNull), (''x'', JBool True)]])])
      (JObj [(''a'', JArr [JObj [(''x'', JBool True), (''y'', JNull)]]), (''b'', JNum 1)])"
    by (rule json_same_obj [of _ "[(''b'', JNum 1), (''a'', JArr [JObj [(''x'', JBool True), (''y'', JNull)]])]"])
      (simp_all add: json_same_refl json_same_arr inner plain_key_def plain_char_def)
  show "locale_law (e_locale_le sample_env)" by (simp add: sample_env_def str_le_law)
qed

text \<open>
  C13: A command is performed once. After a run that returned a result, a repetition of the
  command by the same person under the same key returns the same result without performing
  anything or changing the database, whatever the repetition would do, as long as the receipt
  is there; and the key can no longer be used for another venue, another type of command or a
  request with another digest.
\<close>

theorem command_performed_once:
  assumes "idempotent_command a venue key command_type request perform E d = Inr (result, d')"
    and "no_receipts perform" "ac_delegation a = None" "result \<noteq> JNull"
    and "find_receipt a key d'' = find_receipt a key d'"
  shows "(request_hash E' request' = request_hash E request \<longrightarrow>
      idempotent_command a venue key command_type request' perform' E' d'' = Inr (result, d'')) \<and>
    (venue' \<noteq> venue \<or> command_type' \<noteq> command_type \<or> request_hash E' request' \<noteq> request_hash E request \<longrightarrow>
      idempotent_command a venue' key command_type' request' perform' E' d'' = Inl (CommandErr IdempotencyKeyReused))"
proof -
  have key: "key_length_ok key"
    and r: "has_receipt a venue key command_type (request_hash E request) result d''"
    using idempotent_run [OF assms(1-3)] assms(5) by (simp_all add: has_receipt_def)
  show ?thesis
    using idempotent_replay_run [OF r key assms(4) _ assms(3)] idempotent_reused_run [OF r key] by metis
qed

definition sample_perform :: "json tx" where
  "sample_perform = tseq (record_tenant_audit sample_admin ''sample'' ''x'' []) (tret (JObj [(''ok'', JBool True)]))"

lemma sample_perform_receipts: "no_receipts sample_perform"
  unfolding no_receipts_def sample_perform_def by (intro allI keeps_intros receipts_kept.inv_audit) simp

theorem command_performed_once_witness:
  "\<exists>d'. idempotent_command sample_admin ''v'' ''12345678'' ''T'' (JNum 1) sample_perform sample_env empty_db
       = Inr (JObj [(''ok'', JBool True)], d') \<and> length (audits d') = 1 \<and>
     idempotent_command sample_admin ''v'' ''12345678'' ''T'' (JNum 1) sample_perform sample_env d'
       = Inr (JObj [(''ok'', JBool True)], d') \<and>
     idempotent_command sample_admin ''v'' ''12345678'' ''T'' (JNum 2) sample_perform sample_env d'
       = Inl (CommandErr IdempotencyKeyReused)"
proof -
  have h: "ac_delegation sample_admin = None" "JObj [(''ok'', JBool True)] \<noteq> JNull" by (simp_all add: sample_admin_def)
  have n: "request_hash sample_env (JNum 2) \<noteq> request_hash sample_env (JNum 1)"
    by (simp add: request_hash_def sample_env_def numeral_eq_Suc)
  obtain d' where r: "idempotent_command sample_admin ''v'' ''12345678'' ''T'' (JNum 1) sample_perform sample_env empty_db
       = Inr (JObj [(''ok'', JBool True)], d')" "length (audits d') = 1"
    by (simp add: idempotent_unfold key_length_ok_def empty_db_def sample_perform_def ok_iff record_tenant_audit_def
        complete_receipt_def h(1))
  show ?thesis
    using command_performed_once [OF r(1) sample_perform_receipts h refl,
        where E' = sample_env and request' = "JNum 1" and venue' = "''v''" and command_type' = "''T''" and perform' = sample_perform]
      command_performed_once [OF r(1) sample_perform_receipts h refl,
        where E' = sample_env and request' = "JNum 2" and venue' = "''v''" and command_type' = "''T''" and perform' = sample_perform]
      r n by auto
qed

end
