(* ===== verification/Contact.thy ===== *)
theory Contact
  imports Discounts
begin

text \<open>
  packages/domain/src/customer-contact.ts: the normalisation of phone numbers. A result is
  null (nothing supplied), undefined (supplied but invalid) or a number.
\<close>

datatype phone = NoPhone | BadPhone | Phone string

definition is_digit :: "char \<Rightarrow> bool" where
  "is_digit c \<longleftrightarrow> digit_val c \<noteq> None"

text \<open>The pattern \<open>1[3-9]\d{9}\<close>.\<close>

definition mainland_mobile :: "string \<Rightarrow> bool" where
  "mainland_mobile s \<longleftrightarrow>
     (case s of a # b # rest \<Rightarrow> a = CHR ''1'' \<and> b \<in> set ''3456789'' \<and> length rest = 9 \<and> list_all is_digit rest
      | _ \<Rightarrow> False)"

text \<open>The pattern \<open>\+[1-9]\d{6,14}\<close>.\<close>

definition e164 :: "string \<Rightarrow> bool" where
  "e164 s \<longleftrightarrow>
     (case s of p # a # rest \<Rightarrow> p = CHR ''+'' \<and> is_digit a \<and> a \<noteq> CHR ''0'' \<and>
        6 \<le> length rest \<and> length rest \<le> 14 \<and> list_all is_digit rest
      | _ \<Rightarrow> False)"

definition phone_filler :: "char \<Rightarrow> bool" where
  "phone_filler c \<longleftrightarrow> js_space c \<or> c \<in> set ''()-''"

definition parse_customer_phone :: "string option \<Rightarrow> phone" where
  "parse_customer_phone v =
     (case v of
        None \<Rightarrow> NoPhone
      | Some s \<Rightarrow>
          if blank s then NoPhone
          else
            let compact = filter (\<lambda>c. \<not> phone_filler c) s;
                p = (if mainland_mobile compact then ''+86'' @ compact else compact)
            in if e164 p then Phone p else BadPhone)"

definition mainland_e164 :: "string \<Rightarrow> bool" where
  "mainland_e164 p \<longleftrightarrow> take 3 p = ''+86'' \<and> mainland_mobile (drop 3 p)"

definition parse_booking_phone :: "string option \<Rightarrow> phone" where
  "parse_booking_phone v =
     (case parse_customer_phone v of
        NoPhone \<Rightarrow> NoPhone
      | BadPhone \<Rightarrow> BadPhone
      | Phone p \<Rightarrow> if mainland_e164 p then Phone p else BadPhone)"

section \<open>Normal forms\<close>

lemma digit_not_filler: "is_digit c \<Longrightarrow> \<not> phone_filler c"
  by (auto simp: is_digit_def digit_val_def phone_filler_def js_space_def Let_def split: if_splits)

lemma plus_not_filler: "\<not> phone_filler CHR ''+''"
  by (simp add: phone_filler_def js_space_def)

lemma e164_no_filler: "e164 p \<Longrightarrow> filter (\<lambda>c. \<not> phone_filler c) p = p"
proof -
  assume "e164 p"
  then obtain a rest where p: "p = CHR ''+'' # a # rest" "is_digit a" "list_all is_digit rest"
    by (auto simp: e164_def split: list.splits)
  then have "\<forall>c\<in>set p. \<not> phone_filler c" using digit_not_filler plus_not_filler by (auto simp: list_all_iff)
  then show ?thesis by (simp add: filter_id_conv)
qed

lemma e164_not_blank: "e164 p \<Longrightarrow> \<not> blank p"
proof -
  assume "e164 p"
  then obtain rest where p: "p = CHR ''+'' # rest" by (auto simp: e164_def split: list.splits)
  have "\<not> js_space CHR ''+''" by (simp add: js_space_def)
  moreover have "dropWhile js_space (rev rest @ [CHR ''+'']) \<noteq> []"
    using \<open>\<not> js_space CHR ''+''\<close> by (simp add: dropWhile_append)
  ultimately show ?thesis by (simp add: blank_def js_trim_def p)
qed

lemma e164_not_mobile: "e164 p \<Longrightarrow> \<not> mainland_mobile p"
  by (auto simp: e164_def mainland_mobile_def split: list.splits)

lemma parse_customer_phone_e164: "e164 p \<Longrightarrow> parse_customer_phone (Some p) = Phone p"
  using e164_no_filler [of p] e164_not_blank [of p] e164_not_mobile [of p]
  by (simp add: parse_customer_phone_def Let_def)

lemma parse_customer_phone_Phone: "parse_customer_phone v = Phone p \<Longrightarrow> e164 p"
  by (auto simp: parse_customer_phone_def Let_def split: option.splits if_splits)

section \<open>Property\<close>



end
