(* ===== verification/Customers.thy ===== *)
theory Customers
  imports Receipts Contact
begin

text \<open>
  packages/db/src/tennis/customers.ts: customer records, the booking identity that staff
  register, the completion of a missing contact, and the transaction in which members and
  customers book. The two unique keys of the customers table (its id, and the phone within a
  tenant) are part of the writes.
\<close>

section \<open>The table\<close>

definition is_customer_actor :: "actor \<Rightarrow> bool" where
  "is_customer_actor a \<longleftrightarrow> ac_customer a \<noteq> None"

definition phone_taken :: "string \<Rightarrow> string option \<Rightarrow> db \<Rightarrow> bool" where
  "phone_taken tenant phone d \<longleftrightarrow>
     phone \<noteq> None \<and> list_ex (\<lambda>c. cu_tenant c = tenant \<and> cu_phone c = phone) (customers d)"

definition insert_customer :: "customer_row \<Rightarrow> unit tx" where
  "insert_customer r =
     tseq (tcheck (\<lambda>d. \<not> list_ex (\<lambda>c. cu_id c = cu_id r) (customers d)) (SqlErr UniqueViolation))
     (tseq (tcheck (\<lambda>d. \<not> phone_taken (cu_tenant r) (cu_phone r) d) (SqlErr UniqueViolation))
     (tmodify (\<lambda>d. d\<lparr>customers := customers d @ [r]\<rparr>)))"

definition phone_row :: "string \<Rightarrow> string \<Rightarrow> string \<Rightarrow> customer_row \<Rightarrow> customer_row" where
  "phone_row tenant i phone c =
     (if cu_tenant c = tenant \<and> cu_id c = i \<and> cu_phone c = None then c\<lparr>cu_phone := Some phone\<rparr> else c)"

text \<open>UPDATE ... SET phone WHERE phone IS NULL.\<close>

definition set_phone :: "string \<Rightarrow> string \<Rightarrow> string \<Rightarrow> unit tx" where
  "set_phone tenant i phone =
     tseq (tcheck (\<lambda>d. \<not> (list_ex (\<lambda>c. cu_tenant c = tenant \<and> cu_id c = i \<and> cu_phone c = None) (customers d) \<and>
         phone_taken tenant (Some phone) d)) (SqlErr UniqueViolation))
     (tmodify (\<lambda>d. d\<lparr>customers := map (phone_row tenant i phone) (customers d)\<rparr>))"

definition find_active_customer :: "string \<Rightarrow> string \<Rightarrow> db \<Rightarrow> customer_row option" where
  "find_active_customer tenant i d = find (\<lambda>c. cu_tenant c = tenant \<and> cu_id c = i \<and> cu_active c) (customers d)"

section \<open>Operations\<close>

definition require_customer :: "actor \<Rightarrow> string \<Rightarrow> customer_row tx" where
  "require_customer a i =
     tseq (tguard (\<not> (is_customer_actor a \<and> ac_customer a \<noteq> Some i)) (AccessErr ResourceNotFound))
     (tbind (tread (find_active_customer (ac_tenant a) i)) (\<lambda>row.
      tbind (tsome row (AccessErr ResourceNotFound)) (\<lambda>c.
      tseq (tguard (\<not> (is_customer_actor a \<and> cu_subject c \<noteq> Some (ac_subject a))) (AccessErr ResourceNotFound))
        (tret c))))"

definition booking_access :: "actor \<Rightarrow> unit tx" where
  "booking_access a =
     tseq (assert_delegation a None)
     (case ac_customer a of
        None \<Rightarrow> require_tenant_permission a PRead None
      | Some k \<Rightarrow>
          tbind (tread (\<lambda>d. tenant_active d (ac_tenant a))) (\<lambda>active.
          tseq (tguard active (AccessErr TenantAccessDenied))
          (tbind (require_customer a k) (\<lambda>_. tret ()))))"

definition with_booking_transaction :: "actor \<Rightarrow> 'a tx \<Rightarrow> 'a op" where
  "with_booking_transaction a work = run_tx (tseq (booking_access a) work)"

definition normalized_phone :: "string option \<Rightarrow> err + string option" where
  "normalized_phone v =
     (case parse_customer_phone v of BadPhone \<Rightarrow> Inl (CustomerErr InvalidCustomer) | NoPhone \<Rightarrow> Inr None | Phone p \<Rightarrow> Inr (Some p))"

definition booking_phone :: "string option \<Rightarrow> err + string" where
  "booking_phone v =
     (case parse_booking_phone v of BadPhone \<Rightarrow> Inl (CustomerErr InvalidCustomer)
      | NoPhone \<Rightarrow> Inl (CustomerErr CustomerPhoneRequired) | Phone p \<Rightarrow> Inr p)"

definition nickname_ok :: "string \<Rightarrow> bool" where
  "nickname_ok n \<longleftrightarrow> \<not> (blank n \<or> length n > 200)"

definition rethrow_customer_error :: "err \<Rightarrow> err" where
  "rethrow_customer_error e = (case e of SqlErr UniqueViolation \<Rightarrow> CustomerErr PhoneAlreadyExists | _ \<Rightarrow> e)"

definition customer_json :: "string \<Rightarrow> string \<Rightarrow> string \<Rightarrow> bool \<Rightarrow> json" where
  "customer_json i tenant nickname active =
     JObj [(''id'', JStr i), (''tenantId'', JStr tenant), (''nickname'', JStr nickname), (''phone'', JNull),
       (''hasContact'', JBool True), (''active'', JBool active)]"

definition register_work :: "actor \<Rightarrow> string \<Rightarrow> string \<Rightarrow> string \<Rightarrow> json tx" where
  "register_work a venue nickname phone =
     tbind (tread (phone_taken (ac_tenant a) (Some phone))) (\<lambda>taken.
     tseq (tguard (\<not> taken) (CustomerErr PhoneAlreadyExists))
     (tbind tuuid (\<lambda>i.
      tseq (insert_customer \<lparr>cu_id = i, cu_tenant = ac_tenant a, cu_nickname = js_trim nickname,
         cu_phone = Some phone, cu_subject = None, cu_active = True\<rparr>)
      (tseq (record_tenant_audit a ''booking.customer'' i [(''venueId'', JStr venue)])
      (tret (JObj [(''customerId'', JStr i), (''customer'', customer_json i (ac_tenant a) (js_trim nickname) True)]))))))"

definition register_booking_customer ::
  "actor \<Rightarrow> string \<Rightarrow> string \<Rightarrow> string \<Rightarrow> string option \<Rightarrow> json op" where
  "register_booking_customer a venue key nickname phone =
     checked (bindE (guardE (nickname_ok nickname) (CustomerErr InvalidCustomer)) (\<lambda>_. booking_phone phone)) (\<lambda>p.
       map_error rethrow_customer_error (with_booking_transaction a
          (tseq (tguard (\<not> is_customer_actor a) (AccessErr TenantAccessDenied))
          (tseq (require_venue_permission a venue PBook)
          (idempotent_command a venue key ''booking.customer''
             (JObj [(''nickname'', JStr (js_trim nickname)), (''phone'', JStr p)])
             (register_work a venue nickname p))))))"

definition complete_contact_work :: "actor \<Rightarrow> string \<Rightarrow> customer_row \<Rightarrow> string \<Rightarrow> json tx" where
  "complete_contact_work a venue c phone =
     tseq (tguard (cu_phone c = None) (CustomerErr BookingPhoneAlreadySet))
     (tbind (tread (phone_taken (ac_tenant a) (Some phone))) (\<lambda>taken.
      tseq (tguard (\<not> taken) (CustomerErr PhoneAlreadyExists))
      (tseq (set_phone (ac_tenant a) (cu_id c) phone)
      (tseq (record_tenant_audit a ''booking.customer.contact'' (cu_id c) [(''venueId'', JStr venue)])
      (tret (JObj [(''customerId'', JStr (cu_id c)),
         (''customer'', customer_json (cu_id c) (cu_tenant c) (cu_nickname c) (cu_active c))]))))))"

definition complete_booking_customer_contact ::
  "actor \<Rightarrow> string \<Rightarrow> string \<Rightarrow> string \<Rightarrow> string option \<Rightarrow> json op" where
  "complete_booking_customer_contact a venue customer key phone =
     checked (booking_phone phone) (\<lambda>p.
       map_error rethrow_customer_error (with_booking_transaction a
          (tseq (tguard (\<not> is_customer_actor a) (AccessErr TenantAccessDenied))
          (tseq (require_venue_permission a venue PBook)
          (tbind (require_customer a customer) (\<lambda>c.
           idempotent_command a venue key ''booking.customer''
             (JObj [(''customerId'', JStr customer), (''phone'', JStr p)])
             (complete_contact_work a venue c p)))))))"

definition create_customer :: "actor \<Rightarrow> string \<Rightarrow> string option \<Rightarrow> customer_row op" where
  "create_customer a nickname phone =
     checked (bindE (guardE (nickname_ok nickname) (CustomerErr InvalidCustomer)) (\<lambda>_. normalized_phone phone)) (\<lambda>p.
       map_error rethrow_customer_error (with_tenant_transaction a
          (tseq (require_tenant_permission a PManageMembers None)
          (tbind tuuid (\<lambda>i.
           let row = \<lparr>cu_id = i, cu_tenant = ac_tenant a, cu_nickname = js_trim nickname, cu_phone = p,
             cu_subject = None, cu_active = True\<rparr>
           in tseq (insert_customer row)
              (tseq (record_tenant_audit a ''customer.create'' i [(''nickname'', JStr (js_trim nickname))])
              (tret row)))))))"

section \<open>What the checks tell\<close>

lemma reads_require_customer [reads_intros]: "reads_only (require_customer a i)"
  unfolding require_customer_def by (intro reads_intros)

lemma reads_booking_access [reads_intros]: "reads_only (booking_access a)"
  unfolding booking_access_def by (intro reads_intros)

lemma require_customer_Inr:
  "require_customer a i E d = Inr (c, d') \<longleftrightarrow>
     find_active_customer (ac_tenant a) i d = Some c \<and> d' = d \<and>
     (is_customer_actor a \<longrightarrow> ac_customer a = Some i \<and> cu_subject c = Some (ac_subject a))"
  by (auto simp: require_customer_def ok_iff)

lemma find_active_customer_Some:
  "find_active_customer tenant i d = Some c \<Longrightarrow> c \<in> set (customers d) \<and> cu_tenant c = tenant \<and> cu_id c = i \<and> cu_active c"
  by (auto simp: find_active_customer_def find_Some_iff)

section \<open>Invariants\<close>

context db_invariant
begin

lemma op_keeps_booking: "keeps I work \<Longrightarrow> op_keeps I (with_booking_transaction a work)"
  unfolding with_booking_transaction_def
  by (intro op_keeps_tx keeps_intros keeps_reading [OF reads_booking_access])

end

locale customer_writes = db_invariant +
  assumes inv_insert_customer: "T (cu_tenant r) \<Longrightarrow> (\<And>p. cu_phone r = Some p \<Longrightarrow> e164 p) \<Longrightarrow> keeps I (insert_customer r)"
    and inv_set_phone: "T tenant \<Longrightarrow> e164 p \<Longrightarrow> keeps I (set_phone tenant i p)"
begin

lemma register_work_inv: "T (ac_tenant a) \<Longrightarrow> e164 p \<Longrightarrow> keeps I (register_work a venue nickname p)"
  unfolding register_work_def by (intro keeps_intros keeps_base inv_insert_customer) simp_all

lemma complete_contact_work_inv: "T (ac_tenant a) \<Longrightarrow> e164 p \<Longrightarrow> keeps I (complete_contact_work a venue c p)"
  unfolding complete_contact_work_def by (intro keeps_intros keeps_base inv_set_phone)

end

lemma booking_phone_e164: "booking_phone v = Inr p \<Longrightarrow> e164 p"
  using parse_customer_phone_Phone [of v p]
  by (auto simp: booking_phone_def parse_booking_phone_def split: phone.splits if_splits)

lemma normalized_phone_e164: "normalized_phone v = Inr (Some p) \<Longrightarrow> e164 p"
  using parse_customer_phone_Phone [of v p] by (auto simp: normalized_phone_def split: phone.splits)

text \<open>The work of the commands leaves the receipts alone.\<close>

interpretation customers_receipts: customer_writes "\<lambda>d. receipts d = rs" "\<lambda>_. True" for rs
  by unfold_locales (auto simp: keeps_def insert_customer_def set_phone_def ok_iff)

lemma register_work_receipts: "e164 p \<Longrightarrow> no_receipts (register_work a v n p)"
  unfolding no_receipts_def by (blast intro: customers_receipts.register_work_inv)

lemma complete_contact_receipts: "e164 p \<Longrightarrow> no_receipts (complete_contact_work a v c p)"
  unfolding no_receipts_def by (blast intro: customers_receipts.complete_contact_work_inv)

locale customer_invariant = customer_writes + command_invariant
begin

lemma register_booking_customer_inv: "T (ac_tenant a) \<Longrightarrow> op_keeps I (register_booking_customer a venue key nickname phone)"
  unfolding register_booking_customer_def
  by (intro keeps_intros op_keeps_booking keeps_base inv_idempotent register_work_receipts register_work_inv)
    (auto simp: ok_iff booking_phone_e164)

lemma complete_booking_customer_contact_inv: "T (ac_tenant a) \<Longrightarrow> op_keeps I (complete_booking_customer_contact a venue c key phone)"
  unfolding complete_booking_customer_contact_def
  by (intro keeps_intros op_keeps_booking keeps_base keeps_reading [OF reads_require_customer] inv_idempotent
      complete_contact_receipts complete_contact_work_inv) (auto simp: booking_phone_e164)

lemma create_customer_inv: "T (ac_tenant a) \<Longrightarrow> op_keeps I (create_customer a nickname phone)"
  unfolding create_customer_def Let_def
  by (intro keeps_intros op_keeps_tenant keeps_base inv_insert_customer) (auto simp: ok_iff normalized_phone_e164)

end

text \<open>Phones are in normal form and no two customers of a tenant share one.\<close>

definition contacts_unique :: "db \<Rightarrow> bool" where
  "contacts_unique d \<longleftrightarrow>
     distinct (map cu_id (customers d)) \<and>
     (\<forall>c\<in>set (customers d). \<forall>p. cu_phone c = Some p \<longrightarrow> e164 p) \<and>
     sorted_wrt (\<lambda>c c'. cu_tenant c = cu_tenant c' \<longrightarrow> cu_phone c = cu_phone c' \<longrightarrow> cu_phone c = None) (customers d)"

lemma insert_customer_contacts:
  assumes "\<And>p. cu_phone r = Some p \<Longrightarrow> e164 p"
  shows "keeps contacts_unique (insert_customer r)"
  by (rule keepsI)
    (use assms in \<open>auto simp: insert_customer_def ok_iff contacts_unique_def sorted_wrt_append list_ex_iff phone_taken_def\<close>)

lemma phone_row_simps [simp]:
  "cu_id (phone_row t i p c) = cu_id c" "cu_tenant (phone_row t i p c) = cu_tenant c"
  by (simp_all add: phone_row_def)

lemma phone_rows_none:
  "\<not> list_ex (\<lambda>c. cu_tenant c = t \<and> cu_id c = i \<and> cu_phone c = None) cs \<Longrightarrow> map (phone_row t i p) cs = cs"
  by (induction cs) (auto simp: phone_row_def)

lemma phone_rows_unique:
  assumes "sorted_wrt (\<lambda>c c'. cu_tenant c = cu_tenant c' \<longrightarrow> cu_phone c = cu_phone c' \<longrightarrow> cu_phone c = None) cs"
    and "distinct (map cu_id cs)" "\<forall>c\<in>set cs. \<not> (cu_tenant c = t \<and> cu_phone c = Some p)"
  shows "sorted_wrt (\<lambda>c c'. cu_tenant c = cu_tenant c' \<longrightarrow> cu_phone c = cu_phone c' \<longrightarrow> cu_phone c = None)
    (map (phone_row t i p) cs)"
  using assms
proof (induction cs)
  case (Cons c cs)
  have "cu_tenant c = cu_tenant c' \<longrightarrow> cu_phone (phone_row t i p c) = cu_phone (phone_row t i p c') \<longrightarrow>
      cu_phone (phone_row t i p c) = None" if c': "c' \<in> set cs" for c'
  proof -
    have "cu_id c' \<noteq> cu_id c" using Cons.prems(2) c' by (metis distinct.simps(2) imageI list.map(2) list.set_map)
    moreover have "cu_tenant c = cu_tenant c' \<longrightarrow> cu_phone c = cu_phone c' \<longrightarrow> cu_phone c = None"
      using Cons.prems(1) c' by simp
    moreover have "\<not> (cu_tenant c = t \<and> cu_phone c = Some p)" "\<not> (cu_tenant c' = t \<and> cu_phone c' = Some p)"
      using Cons.prems(3) c' by simp_all
    ultimately show ?thesis by (auto simp: phone_row_def)
  qed
  then show ?case using Cons by simp
qed simp

lemma set_phone_contacts:
  assumes "e164 p"
  shows "keeps contacts_unique (set_phone t i p)"
proof (rule keepsI)
  fix E d x d' assume I: "contacts_unique d" and run: "set_phone t i p E d = Inr (x, d')"
  have d': "d' = d\<lparr>customers := map (phone_row t i p) (customers d)\<rparr>"
    and c: "\<not> (list_ex (\<lambda>c. cu_tenant c = t \<and> cu_id c = i \<and> cu_phone c = None) (customers d) \<and> phone_taken t (Some p) d)"
    using run by (auto simp: set_phone_def ok_iff)
  show "contacts_unique d'"
  proof (cases "list_ex (\<lambda>c. cu_tenant c = t \<and> cu_id c = i \<and> cu_phone c = None) (customers d)")
    case False
    then show ?thesis using I by (simp add: d' phone_rows_none)
  next
    case True
    then have free: "\<forall>c\<in>set (customers d). \<not> (cu_tenant c = t \<and> cu_phone c = Some p)"
      using c by (simp add: phone_taken_def list_ex_iff)
    have "e164 q" if "c \<in> set (customers d)" "cu_phone (phone_row t i p c) = Some q" for c q
      using that I assms by (auto simp: contacts_unique_def phone_row_def split: if_splits)
    then show ?thesis
      using I phone_rows_unique [of "customers d" t p i] free by (auto simp: contacts_unique_def d' comp_def)
  qed
qed

lemma contacts_other_tables:
  "keeps contacts_unique (record_tenant_audit a s r ds)" "keeps contacts_unique (insert_receipt rc)"
  "keeps contacts_unique (complete_receipt a key result)" "keeps contacts_unique (insert_link l)"
  by (auto simp: keeps_def record_tenant_audit_def insert_receipt_def complete_receipt_def insert_link_def ok_iff
      contacts_unique_def)

interpretation contacts_plain: receiptless_invariant contacts_unique "\<lambda>_. True"
  by unfold_locales (simp_all add: contacts_other_tables, simp_all add: contacts_unique_def)

interpretation contacts: customer_invariant contacts_unique "\<lambda>_. True"
  by unfold_locales (simp_all add: insert_customer_contacts set_phone_contacts)

end
