(* ===== verification/Policy.thy ===== *)
theory Policy
  imports Customers
begin

text \<open>
  packages/db/src/tennis/booking-policy.ts: the tenant's validity of quotes and length of
  payment holds, read with a default and saved under its revision. Only administrators may
  see or change it.
\<close>

record booking_policy =
  po_quote_minutes :: int
  po_hold_minutes :: int
  po_revision :: int

definition default_policy :: booking_policy where
  "default_policy = \<lparr>po_quote_minutes = 5, po_hold_minutes = 10, po_revision = 1\<rparr>"

definition policy_of :: "policy_row \<Rightarrow> booking_policy" where
  "policy_of r = \<lparr>po_quote_minutes = bp_quote_minutes r, po_hold_minutes = bp_hold_minutes r, po_revision = bp_revision r\<rparr>"

definition current_policy :: "string \<Rightarrow> db \<Rightarrow> booking_policy" where
  "current_policy tenant d =
     (case find (\<lambda>r. bp_tenant r = tenant) (policies d) of None \<Rightarrow> default_policy | Some r \<Rightarrow> policy_of r)"

definition booking_policy_in_transaction :: "string \<Rightarrow> booking_policy tx" where
  "booking_policy_in_transaction tenant = tread (current_policy tenant)"

definition is_tenant_admin :: "actor \<Rightarrow> db \<Rightarrow> bool" where
  "is_tenant_admin a d \<longleftrightarrow>
     list_ex (\<lambda>m. ms_tenant m = ac_tenant a \<and> ms_subject m = ac_subject a \<and> ms_role m = Admin) (memberships d)"

definition require_admin :: "actor \<Rightarrow> unit tx" where
  "require_admin a =
     tseq (tguard (\<not> is_customer_actor a) (AccessErr TenantAccessDenied))
     (tseq (require_tenant_permission a PManageAssets None)
     (tbind (tread (is_tenant_admin a)) (\<lambda>ok. tguard ok (AccessErr TenantAccessDenied))))"

definition get_booking_policy :: "actor \<Rightarrow> booking_policy op" where
  "get_booking_policy a =
     with_tenant_transaction a (tseq (require_admin a) (booking_policy_in_transaction (ac_tenant a)))"

text \<open>INSERT ... ON CONFLICT (tenant_id) DO UPDATE.\<close>

definition policy_update :: "policy_row \<Rightarrow> policy_row \<Rightarrow> policy_row" where
  "policy_update r q = (if bp_tenant q = bp_tenant r then r else q)"

definition upsert_policy :: "policy_row \<Rightarrow> unit tx" where
  "upsert_policy r = tmodify (\<lambda>d. d\<lparr>policies :=
     (if list_ex (\<lambda>q. bp_tenant q = bp_tenant r) (policies d) then map (policy_update r) (policies d)
      else policies d @ [r])\<rparr>)"

definition minutes_ok :: "int \<Rightarrow> bool" where
  "minutes_ok n \<longleftrightarrow> n \<ge> 1 \<and> n \<le> 1440"

definition policy_json :: "booking_policy \<Rightarrow> json" where
  "policy_json p = JObj [(''quoteMinutes'', JNum (po_quote_minutes p)),
     (''paymentHoldMinutes'', JNum (po_hold_minutes p)), (''revision'', JNum (po_revision p))]"

definition save_booking_policy :: "actor \<Rightarrow> int \<Rightarrow> int \<Rightarrow> int \<Rightarrow> booking_policy op" where
  "save_booking_policy a quote_minutes hold_minutes expected =
     checked (guardE (list_all minutes_ok [quote_minutes, hold_minutes] \<and> is_safe expected \<and> \<not> expected < 1)
       (CatalogErr InvalidConfig)) (\<lambda>_.
     with_booking_transaction a
       (tseq (require_admin a)
       (tbind (booking_policy_in_transaction (ac_tenant a)) (\<lambda>before.
        tseq (tguard (po_revision before = expected) (CatalogErr StaleConfiguration))
        (let after = \<lparr>po_quote_minutes = quote_minutes, po_hold_minutes = hold_minutes, po_revision = po_revision before + 1\<rparr>
         in tseq (upsert_policy \<lparr>bp_tenant = ac_tenant a, bp_quote_minutes = quote_minutes,
              bp_hold_minutes = hold_minutes, bp_revision = po_revision before + 1\<rparr>)
            (tseq (record_tenant_audit a ''booking-policy.save'' (ac_tenant a)
               [(''before'', policy_json before), (''after'', policy_json after)])
            (tret after)))))))"

lemma reads_require_admin [reads_intros]: "reads_only (require_admin a)"
  unfolding require_admin_def by (intro reads_intros)

lemma reads_booking_policy [reads_intros]: "reads_only (booking_policy_in_transaction t)"
  unfolding booking_policy_in_transaction_def by (intro reads_intros)

section \<open>Invariants\<close>

locale policy_writes = customer_writes +
  assumes inv_upsert_policy:
    "T (bp_tenant r) \<Longrightarrow> minutes_ok (bp_quote_minutes r) \<Longrightarrow> minutes_ok (bp_hold_minutes r) \<Longrightarrow> keeps I (upsert_policy r)"
begin

lemma get_booking_policy_inv: "op_keeps I (get_booking_policy a)"
  unfolding get_booking_policy_def
  by (intro op_keeps_tenant keeps_intros keeps_reading [OF reads_require_admin] keeps_reading [OF reads_booking_policy])

lemma save_booking_policy_inv: "T (ac_tenant a) \<Longrightarrow> op_keeps I (save_booking_policy a q h e)"
  unfolding save_booking_policy_def Let_def
  by (intro keeps_intros op_keeps_booking keeps_base keeps_reading [OF reads_require_admin]
      keeps_reading [OF reads_booking_policy] inv_upsert_policy) (auto simp: ok_iff)

end

text \<open>Every tenant has at most one policy row, and its minutes are in range.\<close>

definition policies_ok :: "db \<Rightarrow> bool" where
  "policies_ok d \<longleftrightarrow> distinct (map bp_tenant (policies d)) \<and>
     (\<forall>r\<in>set (policies d). minutes_ok (bp_quote_minutes r) \<and> minutes_ok (bp_hold_minutes r))"

lemma current_policy_ok:
  "policies_ok d \<Longrightarrow> minutes_ok (po_quote_minutes (current_policy t d)) \<and> minutes_ok (po_hold_minutes (current_policy t d))"
  by (auto simp: policies_ok_def current_policy_def default_policy_def policy_of_def minutes_ok_def find_Some_iff
      split: option.split)

lemma upsert_policy_ok:
  assumes "minutes_ok (bp_quote_minutes r)" "minutes_ok (bp_hold_minutes r)"
  shows "keeps policies_ok (upsert_policy r)"
  unfolding upsert_policy_def
proof (rule keeps_tmodify)
  fix d assume I: "policies_ok d"
  have "bp_tenant \<circ> policy_update r = bp_tenant"
    by (rule ext) (simp add: policy_update_def)
  moreover have "\<forall>q\<in>set (map (policy_update r) ps). minutes_ok (bp_quote_minutes q) \<and> minutes_ok (bp_hold_minutes q)"
    if "\<forall>q\<in>set ps. minutes_ok (bp_quote_minutes q) \<and> minutes_ok (bp_hold_minutes q)" for ps
    using that assms by (auto simp: policy_update_def)
  ultimately show "policies_ok (d\<lparr>policies := (if list_ex (\<lambda>q. bp_tenant q = bp_tenant r) (policies d)
      then map (policy_update r) (policies d) else policies d @ [r])\<rparr>)"
    using I assms by (auto simp: policies_ok_def list_ex_iff)
qed

interpretation policy_range: policy_writes policies_ok "\<lambda>_. True"
proof
  show "keeps policies_ok (upsert_policy r)" if "minutes_ok (bp_quote_minutes r)" "minutes_ok (bp_hold_minutes r)" for r
    using that by (rule upsert_policy_ok)
  show "keeps policies_ok (insert_customer r)" for r
    by (auto simp: keeps_def insert_customer_def ok_iff policies_ok_def)
  show "keeps policies_ok (set_phone t i p)" for t i p
    by (auto simp: keeps_def set_phone_def ok_iff policies_ok_def)
  show "keeps policies_ok (record_tenant_audit a s r ds)" for a s r ds
    by (auto simp: keeps_def record_tenant_audit_def ok_iff policies_ok_def)
qed (simp_all add: policies_ok_def)

end
