(* ===== verification/Inventory.thy ===== *)
theory Inventory
  imports Access
begin

text \<open>
  packages/db/src/tennis/inventory.ts: occupancies of courts, their creation, move and release
  by staff, and the conflict query. The table's exclusion constraint
  (court_occupancy_no_overlap) and its unique keys are part of the writes; the operations turn
  their violations into errors, as the source does.
\<close>

section \<open>The table and its constraint\<close>

definition occupies :: "string \<Rightarrow> instant \<Rightarrow> instant \<Rightarrow> occupancy_row \<Rightarrow> bool" where
  "occupies court s e o' \<longleftrightarrow> oc_released o' = None \<and> oc_court o' = court \<and> oc_start o' < e \<and> s < oc_end o'"

definition active_clash :: "occupancy_row \<Rightarrow> occupancy_row \<Rightarrow> bool" where
  "active_clash p q \<longleftrightarrow> oc_released p = None \<and> oc_released q = None \<and> oc_court p = oc_court q \<and>
     oc_start p < oc_end q \<and> oc_start q < oc_end p"

text \<open>
  INSERT: the primary key, the unique index of active order lines, then the exclusion
  constraint over unreleased rows of the court.
\<close>

definition insert_occupancy :: "occupancy_row \<Rightarrow> unit tx" where
  "insert_occupancy r =
     tseq (tcheck (\<lambda>d. \<not> list_ex (\<lambda>o'. oc_id o' = oc_id r) (occupancies d)) (SqlErr UniqueViolation))
     (tseq (tcheck (\<lambda>d. \<not> (oc_line r \<noteq> None \<and> list_ex (\<lambda>o'. oc_released o' = None \<and> oc_tenant o' = oc_tenant r \<and>
         oc_line o' = oc_line r) (occupancies d))) (SqlErr UniqueViolation))
     (tseq (tcheck (\<lambda>d. \<not> list_ex (occupies (oc_court r) (oc_start r) (oc_end r)) (occupancies d))
         (SqlErr ExclusionViolation))
     (tmodify (\<lambda>d. d\<lparr>occupancies := occupancies d @ [r]\<rparr>))))"

text \<open>UPDATE ... SET released_at, revision+1 on the unreleased rows that satisfy a condition.\<close>

definition release_rows :: "instant \<Rightarrow> (occupancy_row \<Rightarrow> bool) \<Rightarrow> occupancy_row list \<Rightarrow> occupancy_row list" where
  "release_rows t P rows =
     map (\<lambda>o'. if oc_released o' = None \<and> P o' then o'\<lparr>oc_released := Some t, oc_revision := oc_revision o' + 1\<rparr> else o')
       rows"

definition release_occupancies :: "(occupancy_row \<Rightarrow> bool) \<Rightarrow> unit tx" where
  "release_occupancies P =
     tbind tclock (\<lambda>t. tmodify (\<lambda>d. d\<lparr>occupancies := release_rows t P (occupancies d)\<rparr>))"

definition is_current :: "actor \<Rightarrow> string \<Rightarrow> int \<Rightarrow> occupancy_row \<Rightarrow> bool" where
  "is_current a i revision o' \<longleftrightarrow>
     oc_tenant o' = ac_tenant a \<and> oc_id o' = i \<and> oc_revision o' = revision \<and> oc_released o' = None"

definition move_row :: "(occupancy_row \<Rightarrow> bool) \<Rightarrow> string \<Rightarrow> instant \<Rightarrow> instant \<Rightarrow> occupancy_row \<Rightarrow> occupancy_row" where
  "move_row P court s e o' =
     (if P o' then o'\<lparr>oc_court := court, oc_start := s, oc_end := e, oc_revision := oc_revision o' + 1\<rparr> else o')"

definition move_rows ::
  "(occupancy_row \<Rightarrow> bool) \<Rightarrow> string \<Rightarrow> instant \<Rightarrow> instant \<Rightarrow> occupancy_row list \<Rightarrow> occupancy_row list" where
  "move_rows P court s e rows = map (move_row P court s e) rows"

lemma move_row_id [simp]: "oc_id (move_row P court s e r) = oc_id r"
  by (simp add: move_row_def)

definition move_occupancy :: "actor \<Rightarrow> string \<Rightarrow> int \<Rightarrow> string \<Rightarrow> instant \<Rightarrow> instant \<Rightarrow> unit tx" where
  "move_occupancy a i revision court s e =
     tseq (tcheck (\<lambda>d. \<not> (list_ex (is_current a i revision) (occupancies d) \<and>
         list_ex (\<lambda>o'. oc_id o' \<noteq> i \<and> occupies court s e o') (occupancies d))) (SqlErr ExclusionViolation))
     (tmodify (\<lambda>d. d\<lparr>occupancies := move_rows (is_current a i revision) court s e (occupancies d)\<rparr>))"

section \<open>Operations\<close>

record occupancy_input = court_interval +
  oi_id :: string
  oi_court :: string
  oi_kind :: occupancy_kind
  oi_source :: string

definition rethrow_inventory_error :: "err \<Rightarrow> err" where
  "rethrow_inventory_error e =
     (case e of SqlErr ExclusionViolation \<Rightarrow> InventoryErr InventoryConflict
      | SqlErr UniqueViolation \<Rightarrow> InventoryErr DuplicateOccupancy
      | _ \<Rightarrow> e)"

definition interval_of :: "'a court_interval_scheme \<Rightarrow> interval_error + parsed_interval" where
  "interval_of i = parse_court_interval \<lparr>start_at = start_at i, end_at = end_at i\<rparr>"

definition with_interval :: "'a court_interval_scheme \<Rightarrow> (instant \<Rightarrow> instant \<Rightarrow> 'b op) \<Rightarrow> 'b op" where
  "with_interval i f E d = (case interval_of i of Inl e \<Rightarrow> (Inl (IntervalErr e), d) | Inr (s, e) \<Rightarrow> f s e E d)"

definition kind_permission :: "occupancy_kind \<Rightarrow> permission" where
  "kind_permission k = (if k = Maintenance then PManageAssets else PBook)"

definition kind_json :: "occupancy_kind \<Rightarrow> json" where
  "kind_json k = JStr (case k of Booking \<Rightarrow> ''BOOKING'' | Course \<Rightarrow> ''COURSE'' | Maintenance \<Rightarrow> ''MAINTENANCE'')"

definition occupy_court :: "actor \<Rightarrow> occupancy_input \<Rightarrow> unit op" where
  "occupy_court a x =
     with_interval x (\<lambda>s e. map_error rethrow_inventory_error (with_tenant_transaction a
       (tseq (tbind (require_court_permission a (oi_court x) (kind_permission (oi_kind x)) (oi_kind x \<noteq> Maintenance))
          (\<lambda>_. tret ()))
        (tseq (insert_occupancy \<lparr>oc_id = oi_id x, oc_tenant = ac_tenant a, oc_court = oi_court x, oc_kind = oi_kind x,
            oc_source = oi_source x, oc_start = s, oc_end = e, oc_revision = 1, oc_released = None, oc_line = None,
            oc_amendment = None\<rparr>)
        (record_tenant_audit a ''occupancy.create'' (oi_id x)
           [(''courtId'', JStr (oi_court x)), (''kind'', kind_json (oi_kind x)), (''sourceId'', JStr (oi_source x)),
            (''startAt'', JStr (start_at x)), (''endAt'', JStr (end_at x))])))))"

definition current_row :: "actor \<Rightarrow> string \<Rightarrow> int \<Rightarrow> db \<Rightarrow> occupancy_row option" where
  "current_row a i revision d = find (is_current a i revision) (occupancies d)"

definition court_order :: "env \<Rightarrow> court_row \<Rightarrow> court_row \<Rightarrow> bool" where
  "court_order E p q \<longleftrightarrow>
     (if ct_venue p = ct_venue q then e_collate_le E (ct_id p) (ct_id q) else e_collate_le E (ct_venue p) (ct_venue q))"

definition lock_occupancy :: "actor \<Rightarrow> string \<Rightarrow> int \<Rightarrow> string option \<Rightarrow> occupancy_row tx" where
  "lock_occupancy a i revision target =
     tbind (tread (current_row a i revision)) (\<lambda>located.
     tbind (tsome located (InventoryErr StaleOccupancy)) (\<lambda>original.
     tbind (tenv court_order) (\<lambda>le.
     tbind (tread (\<lambda>d. sort_by le (filter (\<lambda>c. ct_tenant c = ac_tenant a \<and>
         ct_id c \<in> set (oc_court original # (case given target of None \<Rightarrow> [] | Some t \<Rightarrow> [t]))) (courts d)))) (\<lambda>cs.
     tseq (teach (\<lambda>c. tbind (require_court_permission a (ct_id c) (kind_permission (oc_kind original)) False)
         (\<lambda>_. tret ())) cs)
     (tbind (tread (current_row a i revision)) (\<lambda>again.
      tbind (tsome again (InventoryErr StaleOccupancy)) (\<lambda>row.
      tseq (tguard (\<not> (oc_line row \<noteq> None \<or> oc_amendment row \<noteq> None)) (InventoryErr OrderManagedOccupancy))
        (tret row))))))))"

definition reschedule_court_occupancy ::
  "actor \<Rightarrow> string \<Rightarrow> int \<Rightarrow> string \<Rightarrow> court_interval \<Rightarrow> unit op" where
  "reschedule_court_occupancy a i revision court interval =
     with_interval interval (\<lambda>s e. map_error rethrow_inventory_error (with_tenant_transaction a
       (tbind (lock_occupancy a i revision (Some court)) (\<lambda>original.
        let p = kind_permission (oc_kind original) in
        tseq (tbind (require_court_permission a (oc_court original) p False) (\<lambda>_. tret ()))
        (tseq (tbind (require_court_permission a court p (oc_kind original \<noteq> Maintenance)) (\<lambda>_. tret ()))
        (tseq (move_occupancy a i revision court s e)
        (record_tenant_audit a ''occupancy.reschedule'' i
           [(''fromCourtId'', JStr (oc_court original)), (''courtId'', JStr court),
            (''startAt'', JStr (start_at interval)), (''endAt'', JStr (end_at interval)),
            (''revision'', JNum (revision + 1))])))))))"

definition release_court_occupancy :: "actor \<Rightarrow> string \<Rightarrow> int \<Rightarrow> unit op" where
  "release_court_occupancy a i revision =
     with_tenant_transaction a
       (tbind (lock_occupancy a i revision None) (\<lambda>original.
        tseq (tbind (require_court_permission a (oc_court original) (kind_permission (oc_kind original)) False)
          (\<lambda>_. tret ()))
        (tbind (tenv e_begin) (\<lambda>now.
         tseq (tmodify (\<lambda>d. d\<lparr>occupancies := release_rows now (is_current a i revision) (occupancies d)\<rparr>))
         (record_tenant_audit a ''occupancy.release'' i
            [(''courtId'', JStr (oc_court original)), (''revision'', JNum (revision + 1))])))))"

definition conflict_order :: "env \<Rightarrow> occupancy_row \<Rightarrow> occupancy_row \<Rightarrow> bool" where
  "conflict_order E p q \<longleftrightarrow> oc_start p < oc_start q \<or> (oc_start p = oc_start q \<and> e_collate_le E (oc_id p) (oc_id q))"

definition find_court_conflicts :: "actor \<Rightarrow> string \<Rightarrow> court_interval \<Rightarrow> string list op" where
  "find_court_conflicts a court interval =
     with_interval interval (\<lambda>s e. with_tenant_transaction a
       (tseq (tbind (require_court_permission a court PRead False) (\<lambda>_. tret ()))
        (tbind (tenv conflict_order) (\<lambda>le.
         tread (\<lambda>d. map oc_id (sort_by le
           (filter (\<lambda>o'. oc_tenant o' = ac_tenant a \<and> occupies court s e o') (occupancies d))))))))"

section \<open>No court is booked twice\<close>

definition no_double_booking :: "db \<Rightarrow> bool" where
  "no_double_booking d \<longleftrightarrow>
     distinct (map oc_id (occupancies d)) \<and> sorted_wrt (\<lambda>p q. \<not> active_clash p q) (occupancies d)"

lemma no_double_bookingD:
  assumes "no_double_booking d" "p \<in> set (occupancies d)" "q \<in> set (occupancies d)" "p \<noteq> q"
    and "oc_released p = None" "oc_released q = None" "oc_court p = oc_court q"
  shows "span (oc_start p, oc_end p) \<inter> span (oc_start q, oc_end q) = {}"
proof -
  have sym: "active_clash p q \<longleftrightarrow> active_clash q p" by (auto simp: active_clash_def)
  obtain i j where ij: "i < length (occupancies d)" "j < length (occupancies d)" "occupancies d ! i = p"
      "occupancies d ! j = q"
    using assms(2,3) by (metis in_set_conv_nth)
  then have "i \<noteq> j" using assms(4) by blast
  then have "\<not> active_clash p q"
    using assms(1) ij sym unfolding no_double_booking_def by (metis linorder_neqE_nat sorted_wrt_nth_less)
  then show ?thesis using assms(5-7) by (auto simp: active_clash_def span_def)
qed

lemma occupies_clash: "oc_released r = None \<Longrightarrow> active_clash p r \<longleftrightarrow> occupies (oc_court r) (oc_start r) (oc_end r) p"
  by (auto simp: active_clash_def occupies_def)

lemma insert_occupancy_Inr:
  "insert_occupancy r E d = Inr res \<longleftrightarrow>
     (\<forall>o'\<in>set (occupancies d). oc_id o' \<noteq> oc_id r) \<and>
     (oc_line r \<noteq> None \<longrightarrow> (\<forall>o'\<in>set (occupancies d). oc_released o' = None \<longrightarrow> oc_tenant o' = oc_tenant r \<longrightarrow> oc_line o' \<noteq> oc_line r)) \<and>
     (\<forall>o'\<in>set (occupancies d). \<not> occupies (oc_court r) (oc_start r) (oc_end r) o') \<and>
     res = ((), d\<lparr>occupancies := occupancies d @ [r]\<rparr>)"
  by (auto simp: insert_occupancy_def ok_iff list_ex_iff)

lemma insert_occupancy_keeps:
  assumes "oc_released r = None"
  shows "keeps no_double_booking (insert_occupancy r)"
proof (rule keepsI)
  fix E d x d' assume I: "no_double_booking d" and run: "insert_occupancy r E d = Inr (x, d')"
  from run have "\<forall>p\<in>set (occupancies d). \<not> active_clash p r" "\<forall>p\<in>set (occupancies d). oc_id p \<noteq> oc_id r"
    and d': "d' = d\<lparr>occupancies := occupancies d @ [r]\<rparr>"
    by (auto simp: insert_occupancy_Inr occupies_clash [OF assms])
  then show "no_double_booking d'" using I unfolding d' by (auto simp: no_double_booking_def sorted_wrt_append)
qed

lemma release_rows_ids [simp]: "map oc_id (release_rows t P rows) = map oc_id rows"
  by (simp add: release_rows_def)

lemma release_rows_no_double:
  "no_double_booking d \<Longrightarrow> no_double_booking (d\<lparr>occupancies := release_rows t P (occupancies d)\<rparr>)"
proof -
  assume I: "no_double_booking d"
  have "sorted_wrt (\<lambda>p q. \<not> active_clash p q) (release_rows t P (occupancies d))"
    unfolding release_rows_def sorted_wrt_map
    by (rule sorted_wrt_mono_rel [rotated, OF conjunct2 [OF I [unfolded no_double_booking_def]]])
      (auto simp: active_clash_def)
  then show ?thesis using I by (simp add: no_double_booking_def)
qed

lemma release_occupancies_keeps: "keeps no_double_booking (release_occupancies P)"
  unfolding release_occupancies_def
  by (intro keeps_intros keeps_tclock keeps_tmodify release_rows_no_double) (simp_all add: no_double_booking_def)

lemma move_rows_no_double:
  assumes I: "no_double_booking d"
    and free: "\<And>o'. o' \<in> set (occupancies d) \<Longrightarrow> oc_id o' \<noteq> i \<Longrightarrow> \<not> occupies court s e o'"
  shows "no_double_booking (d\<lparr>occupancies := move_rows (is_current a i revision) court s e (occupancies d)\<rparr>)"
proof -
  have "sorted_wrt (\<lambda>p q. \<not> active_clash p q) (move_rows (is_current a i revision) court s e rows)"
    if "distinct (map oc_id rows)" "sorted_wrt (\<lambda>p q. \<not> active_clash p q) rows"
      "\<And>o'. o' \<in> set rows \<Longrightarrow> oc_id o' \<noteq> i \<Longrightarrow> \<not> occupies court s e o'" for rows
    using that
  proof (induction rows)
    case (Cons r rows)
    let ?f = "move_row (is_current a i revision) court s e"
    have "\<not> active_clash (?f r) (?f q)" if q: "q \<in> set rows" for q
    proof -
      have "oc_id q \<noteq> oc_id r" using Cons.prems(1) q by (metis distinct.simps(2) imageI list.map(2) list.set_map)
      moreover have "\<not> active_clash r q" using Cons.prems(2) q by simp
      moreover have "oc_id r \<noteq> i \<Longrightarrow> \<not> occupies court s e r" "oc_id q \<noteq> i \<Longrightarrow> \<not> occupies court s e q"
        using Cons.prems(3) q by simp_all
      ultimately show ?thesis by (auto simp: active_clash_def occupies_def is_current_def move_row_def)
    qed
    moreover have "sorted_wrt (\<lambda>p q. \<not> active_clash p q) (move_rows (is_current a i revision) court s e rows)"
      using Cons by simp
    ultimately show ?case by (simp add: move_rows_def)
  qed (simp add: move_rows_def)
  moreover have "map oc_id (move_rows (is_current a i revision) court s e (occupancies d)) = map oc_id (occupancies d)"
    by (simp add: move_rows_def)
  ultimately show ?thesis using assms by (simp add: no_double_booking_def)
qed

lemma move_rows_none: "\<not> list_ex P rows \<Longrightarrow> move_rows P court s e rows = rows"
  by (induction rows) (simp_all add: move_rows_def move_row_def)

lemma move_occupancy_keeps: "keeps no_double_booking (move_occupancy a i revision court s e)"
proof (rule keepsI)
  fix E d x d' assume I: "no_double_booking d" and run: "move_occupancy a i revision court s e E d = Inr (x, d')"
  have d': "d' = d\<lparr>occupancies := move_rows (is_current a i revision) court s e (occupancies d)\<rparr>"
    and c: "\<not> (list_ex (is_current a i revision) (occupancies d) \<and>
       list_ex (\<lambda>o'. oc_id o' \<noteq> i \<and> occupies court s e o') (occupancies d))"
    using run by (auto simp: move_occupancy_def ok_iff)
  show "no_double_booking d'"
  proof (cases "list_ex (is_current a i revision) (occupancies d)")
    case True
    then show ?thesis unfolding d' using c by (intro move_rows_no_double [OF I]) (auto simp: list_ex_iff)
  next
    case False
    then show ?thesis unfolding d' using I by (simp add: move_rows_none)
  qed
qed

section \<open>Invariants through the operations\<close>

lemma reads_lock_occupancy [reads_intros]: "reads_only (lock_occupancy a i r t)"
  unfolding lock_occupancy_def by (intro reads_intros)

text \<open>
  Staff only change occupancies that no order manages: \<open>unmanaged\<close> is the row that
  \<open>lockOccupancy\<close> found, and what is written afterwards still finds it.
\<close>

definition unmanaged :: "actor \<Rightarrow> string \<Rightarrow> int \<Rightarrow> occupancy_row \<Rightarrow> db \<Rightarrow> bool" where
  "unmanaged a i revision r d \<longleftrightarrow> current_row a i revision d = Some r \<and> oc_line r = None \<and> oc_amendment r = None"

lemma unmanaged_tick [simp]: "unmanaged a i revision r (d\<lparr>ticks := n\<rparr>) = unmanaged a i revision r d"
  by (simp add: unmanaged_def current_row_def)

lemma lock_occupancy_unmanaged:
  "lock_occupancy a i revision target E d = Inr (r, d') \<Longrightarrow> unmanaged a i revision r d'"
  unfolding lock_occupancy_def tbind_Inr tread_Inr tsome_Inr tenv_Inr tseq_Inr tguard_Inr tret_Inr unmanaged_def
  by clarsimp

locale staff_inventory = db_invariant +
  assumes inv_staff_insert: "T (oc_tenant r) \<Longrightarrow> oc_released r = None \<Longrightarrow> oc_line r = None \<Longrightarrow> keeps I (insert_occupancy r)"
    and inv_staff_release: "T (ac_tenant a) \<Longrightarrow> I d \<Longrightarrow> unmanaged a i revision r d \<Longrightarrow>
      I (d\<lparr>occupancies := release_rows t (is_current a i revision) (occupancies d)\<rparr>)"
    and inv_staff_move: "T (ac_tenant a) \<Longrightarrow>
      ensures (\<lambda>d. I d \<and> unmanaged a i revision r d) (move_occupancy a i revision court s e) (\<lambda>_. I)"
begin

lemma ensures_lock:
  "ensures I (lock_occupancy a i revision target) (\<lambda>r d. I d \<and> unmanaged a i revision r d)"
  using keepsD [OF keeps_reading [OF reads_lock_occupancy]] lock_occupancy_unmanaged
  by (blast intro: ensuresI)

lemma ensures_locked_reading:
  assumes "reads_only m"
  shows "ensures (\<lambda>d. I d \<and> unmanaged a i revision r d) m (\<lambda>_ d. I d \<and> unmanaged a i revision r d)"
  unfolding keeps_ensures [symmetric] by (rule keeps_reads [OF _ assms]) (simp add: inv_counters)

lemma op_keeps_with_interval: "(\<And>s e. op_keeps I (f s e)) \<Longrightarrow> op_keeps I (with_interval x f)"
  by (auto simp: op_keeps_def with_interval_def split: sum.splits)

lemma occupy_court_inv: "T (ac_tenant a) \<Longrightarrow> op_keeps I (occupy_court a x)"
  unfolding occupy_court_def
  by (intro op_keeps_with_interval keeps_intros op_keeps_tenant keeps_base inv_staff_insert) simp_all

lemma reschedule_inv:
  assumes T: "T (ac_tenant a)"
  shows "op_keeps I (reschedule_court_occupancy a i revision court interval)"
  unfolding reschedule_court_occupancy_def Let_def
proof (intro op_keeps_with_interval op_keeps_map_error op_keeps_tenant)
  fix s e
  let ?court = "\<lambda>c p b. tbind (require_court_permission a c p b) (\<lambda>_. tret ())"
  have reads: "reads_only (?court c p b)" for c p b by (intro reads_intros)
  show "keeps I (tbind (lock_occupancy a i revision (Some court)) (\<lambda>r.
      tseq (?court (oc_court r) (kind_permission (oc_kind r)) False)
      (tseq (?court court (kind_permission (oc_kind r)) (oc_kind r \<noteq> Maintenance))
      (tseq (move_occupancy a i revision court s e) (record_tenant_audit a ''occupancy.reschedule'' i
           [(''fromCourtId'', JStr (oc_court r)), (''courtId'', JStr court),
            (''startAt'', JStr (start_at interval)), (''endAt'', JStr (end_at interval)),
            (''revision'', JNum (revision + 1))])))))"
    unfolding keeps_ensures
    by (rule ensures_tbind [OF ensures_lock], rule ensures_tseq [OF ensures_locked_reading [OF reads]],
      rule ensures_tseq [OF ensures_locked_reading [OF reads]], rule ensures_tseq [OF inv_staff_move [OF T]],
      rule inv_audit [OF T, unfolded keeps_ensures])
qed

lemma release_court_inv:
  assumes T: "T (ac_tenant a)"
  shows "op_keeps I (release_court_occupancy a i revision)"
  unfolding release_court_occupancy_def
proof (rule op_keeps_tenant)
  let ?court = "\<lambda>c p b. tbind (require_court_permission a c p b) (\<lambda>_. tret ())"
  have reads: "reads_only (?court c p b)" "reads_only (tenv e_begin)" for c p b by (intro reads_intros)+
  have release: "ensures (\<lambda>d. I d \<and> unmanaged a i revision r d)
      (tmodify (\<lambda>d. d\<lparr>occupancies := release_rows now (is_current a i revision) (occupancies d)\<rparr>)) (\<lambda>_. I)" for r now
    using inv_staff_release [OF T] by (auto intro!: ensuresI simp: tmodify_Inr)
  show "keeps I (tbind (lock_occupancy a i revision None) (\<lambda>r.
      tseq (?court (oc_court r) (kind_permission (oc_kind r)) False)
      (tbind (tenv e_begin) (\<lambda>now.
       tseq (tmodify (\<lambda>d. d\<lparr>occupancies := release_rows now (is_current a i revision) (occupancies d)\<rparr>))
         (record_tenant_audit a ''occupancy.release'' i
            [(''courtId'', JStr (oc_court r)), (''revision'', JNum (revision + 1))])))))"
    unfolding keeps_ensures
    by (rule ensures_tbind [OF ensures_lock], rule ensures_tseq [OF ensures_locked_reading [OF reads(1)]],
      rule ensures_tbind [OF ensures_locked_reading [OF reads(2)]], rule ensures_tseq [OF release],
      rule inv_audit [OF T, unfolded keeps_ensures])
qed

lemma find_court_conflicts_inv: "op_keeps I (find_court_conflicts a court x)"
  unfolding find_court_conflicts_def by (intro op_keeps_with_interval op_keeps_tenant keeps_intros keeps_base)

end

text \<open>An invariant that the writes keep on any row.\<close>

locale inventory_invariant = db_invariant +
  assumes inv_insert_occupancy: "T (oc_tenant r) \<Longrightarrow> oc_released r = None \<Longrightarrow> keeps I (insert_occupancy r)"
    and inv_release: "(\<And>o'. P o' \<Longrightarrow> T (oc_tenant o')) \<Longrightarrow> I d \<Longrightarrow>
      I (d\<lparr>occupancies := release_rows t P (occupancies d)\<rparr>)"
    and inv_move: "T (ac_tenant a) \<Longrightarrow> keeps I (move_occupancy a i revision court s e)"
begin

lemma keeps_release: "(\<And>o'. P o' \<Longrightarrow> T (oc_tenant o')) \<Longrightarrow> keeps I (release_occupancies P)"
  unfolding release_occupancies_def by (intro keeps_intros keeps_counters keeps_tmodify inv_release)

lemma current_tenant: "T (ac_tenant a) \<Longrightarrow> is_current a i r o' \<Longrightarrow> T (oc_tenant o')"
  by (simp add: is_current_def)

end

sublocale inventory_invariant \<subseteq> staff_inventory
proof
  show "keeps I (insert_occupancy r)" if "T (oc_tenant r)" "oc_released r = None" for r
    using that by (rule inv_insert_occupancy)
  show "I (d\<lparr>occupancies := release_rows t (is_current a i revision) (occupancies d)\<rparr>)"
    if "T (ac_tenant a)" "I d" for a i revision d t
    using current_tenant [OF that(1)] that(2) by (rule inv_release)
  show "ensures (\<lambda>d. I d \<and> unmanaged a i revision r d) (move_occupancy a i revision court s e) (\<lambda>_. I)"
    if "T (ac_tenant a)" for a i revision r court s e
    by (rule ensures_pre [OF inv_move [OF that, unfolded keeps_ensures]]) simp
qed

lemma no_double_audit: "keeps no_double_booking (record_tenant_audit a s r ds)"
  by (auto simp: keeps_def record_tenant_audit_def ok_iff no_double_booking_def)

interpretation no_double: inventory_invariant no_double_booking "\<lambda>_. True"
proof
  show "keeps no_double_booking (insert_occupancy r)" if "oc_released r = None" for r
    using that by (rule insert_occupancy_keeps)
  show "keeps no_double_booking (move_occupancy a i revision court s e)" for a i revision court s e
    by (rule move_occupancy_keeps)
qed (simp_all add: release_rows_no_double no_double_audit, simp_all add: no_double_booking_def)

end
