(* ===== verification/Catalog.thy ===== *)
theory Catalog
  imports Policy Inventory
begin

text \<open>
  packages/db/src/tennis/catalog.ts: venues, courts and their prices, discount rules, the
  search for available courts and the price of a selection of court intervals.
\<close>

definition price_err :: "price_failure \<Rightarrow> err" where
  "price_err f = (case f of PricingError e \<Rightarrow> PricingErr e | BadInterval e \<Rightarrow> IntervalErr e)"

section \<open>Readers\<close>

definition required_name :: "string \<Rightarrow> err + unit" where
  "required_name name = guardE (\<not> (blank name \<or> length name > 200)) (CatalogErr InvalidConfig)"

definition venue_in_transaction :: "actor \<Rightarrow> string \<Rightarrow> venue_row tx" where
  "venue_in_transaction a i =
     tbind (tread (find_venue (ac_tenant a) i)) (\<lambda>v. tsome v (AccessErr ResourceNotFound))"

definition find_venue_court :: "string \<Rightarrow> string \<Rightarrow> string \<Rightarrow> db \<Rightarrow> court_row option" where
  "find_venue_court tenant venue i d =
     find (\<lambda>c. ct_tenant c = tenant \<and> ct_venue c = venue \<and> ct_id c = i) (courts d)"

definition court_in_transaction :: "actor \<Rightarrow> string \<Rightarrow> string \<Rightarrow> court_row tx" where
  "court_in_transaction a venue i =
     tbind (tread (find_venue_court (ac_tenant a) venue i)) (\<lambda>c. tsome c (AccessErr ResourceNotFound))"

definition bump_row :: "string \<Rightarrow> string \<Rightarrow> venue_row \<Rightarrow> venue_row" where
  "bump_row tenant i v =
     (if vn_tenant v = tenant \<and> vn_id v = i then v\<lparr>vn_revision := vn_revision v + 1\<rparr> else v)"

definition bump_catalog :: "string \<Rightarrow> string \<Rightarrow> unit tx" where
  "bump_catalog tenant i = tmodify (\<lambda>d. d\<lparr>venues := map (bump_row tenant i) (venues d)\<rparr>)"

definition require_tenant_admin :: "actor \<Rightarrow> unit tx" where
  "require_tenant_admin a =
     tseq (require_tenant_permission a PManageAssets None)
     (tbind (tread (is_tenant_admin a)) (\<lambda>ok. tguard ok (AccessErr TenantAccessDenied)))"

text \<open>The discounts of a venue, each with its courts in the order of the collation.\<close>

definition sort_courts :: "env \<Rightarrow> discount_row \<Rightarrow> discount_row" where
  "sort_courts E r = r\<lparr>ds_rule := (ds_rule r)\<lparr>dr_courts := sort_by (e_collate_le E) (dr_courts (ds_rule r))\<rparr>\<rparr>"

definition venue_discounts :: "string \<Rightarrow> string \<Rightarrow> db \<Rightarrow> discount_row list" where
  "venue_discounts tenant venue d =
     filter (\<lambda>r. ds_tenant r = tenant \<and> dr_venue (ds_rule r) = venue) (discount_rows d)"

definition discounts_in_transaction :: "actor \<Rightarrow> string \<Rightarrow> discount_row list tx" where
  "discounts_in_transaction a venue =
     tbind (tenv sort_courts) (\<lambda>f. tread (\<lambda>d. map f (venue_discounts (ac_tenant a) venue d)))"

section \<open>Venues\<close>

definition insert_venue :: "venue_row \<Rightarrow> unit tx" where
  "insert_venue r =
     tseq (tcheck (\<lambda>d. \<not> list_ex (\<lambda>v. vn_id v = vn_id r) (venues d)) (SqlErr UniqueViolation))
     (tmodify (\<lambda>d. d\<lparr>venues := venues d @ [r]\<rparr>))"

definition create_venue :: "actor \<Rightarrow> string \<Rightarrow> string option \<Rightarrow> string \<Rightarrow> venue_row op" where
  "create_venue a name address timezone =
     with_env (\<lambda>E. checked (bindE (required_name name) (\<lambda>_.
         case assert_timezone (e_intl E) timezone of Inl e \<Rightarrow> Inl (PricingErr e) | Inr _ \<Rightarrow> Inr ())) (\<lambda>_.
     with_tenant_transaction a
       (tseq (require_tenant_admin a)
       (tbind tuuid (\<lambda>i.
        tseq (insert_venue \<lparr>vn_id = i, vn_tenant = ac_tenant a, vn_name = js_trim name,
           vn_address = (case address of None \<Rightarrow> '''' | Some x \<Rightarrow> x), vn_timezone = timezone, vn_active = True,
           vn_hours = [], vn_minimum = None, vn_revision = 1\<rparr>)
        (tseq (record_tenant_audit a ''venue.create'' i [(''name'', JStr (js_trim name)), (''timezone'', JStr timezone)])
        (venue_in_transaction a i)))))))"

record venue_input =
  vi_id :: string
  vi_expected :: int
  vi_name :: string
  vi_address :: string
  vi_timezone :: string
  vi_active :: bool
  vi_hours :: "opening_window list"
  vi_minimum :: int

text \<open>Unreleased bookings and courses of the venue that have not ended.\<close>

definition future_uses :: "string \<Rightarrow> (string \<Rightarrow> bool) \<Rightarrow> instant \<Rightarrow> db \<Rightarrow> occupancy_row list" where
  "future_uses tenant is_court now d =
     filter (\<lambda>o'. oc_tenant o' = tenant \<and> is_court (oc_court o') \<and> oc_released o' = None \<and> oc_end o' > now \<and>
         oc_kind o' \<noteq> Maintenance) (occupancies d)"

definition court_of_venue :: "db \<Rightarrow> string \<Rightarrow> string \<Rightarrow> string \<Rightarrow> bool" where
  "court_of_venue d tenant venue c \<longleftrightarrow>
     list_ex (\<lambda>r. ct_tenant r = tenant \<and> ct_venue r = venue \<and> ct_id r = c) (courts d)"

definition row_affected :: "intl \<Rightarrow> venue_input \<Rightarrow> venue_row \<Rightarrow> occupancy_row \<Rightarrow> price_failure + bool" where
  "row_affected fmt x current o' =
     (if \<not> vi_active x then Inr True
      else if vi_timezone x \<noteq> vn_timezone current then Inr True
      else bindE (is_within_opening_hours fmt \<lparr>start_at = to_iso_string (oc_start o'), end_at = to_iso_string (oc_end o')\<rparr>
          (vi_timezone x) (vi_hours x)) (\<lambda>inside. Inr (\<not> inside)))"

definition update_row :: "string \<Rightarrow> venue_input \<Rightarrow> venue_row \<Rightarrow> venue_row" where
  "update_row tenant x v =
     (if vn_tenant v = tenant \<and> vn_id v = vi_id x
      then v\<lparr>vn_name := js_trim (vi_name x), vn_address := vi_address x, vn_timezone := vi_timezone x,
        vn_active := vi_active x, vn_hours := vi_hours x, vn_minimum := Some (vi_minimum x), vn_revision := vn_revision v + 1\<rparr>
      else v)"

definition set_venue :: "string \<Rightarrow> venue_input \<Rightarrow> unit tx" where
  "set_venue tenant x = tmodify (\<lambda>d. d\<lparr>venues := map (update_row tenant x) (venues d)\<rparr>)"

definition hours_json :: "opening_window list \<Rightarrow> json" where
  "hours_json ws = JArr (map (\<lambda>w. JObj [(''weekday'', JNum (ow_weekday w)), (''startMinute'', JNum (ow_start w)),
     (''endMinute'', JNum (ow_end w))]) ws)"

definition venue_json :: "venue_row \<Rightarrow> json" where
  "venue_json v = JObj [(''id'', JStr (vn_id v)), (''tenantId'', JStr (vn_tenant v)), (''name'', JStr (vn_name v)),
     (''address'', JStr (vn_address v)), (''timezone'', JStr (vn_timezone v)), (''active'', JBool (vn_active v)),
     (''openingHours'', hours_json (vn_hours v)), (''minimumBookingMinutes'', j_opt JNum (vn_minimum v)),
     (''catalogRevision'', JNum (vn_revision v))]"

definition venue_input_json :: "venue_input \<Rightarrow> json" where
  "venue_input_json x = JObj [(''id'', JStr (vi_id x)), (''expectedRevision'', JNum (vi_expected x)),
     (''name'', JStr (vi_name x)), (''address'', JStr (vi_address x)), (''timezone'', JStr (vi_timezone x)),
     (''active'', JBool (vi_active x)), (''openingHours'', hours_json (vi_hours x)),
     (''minimumBookingMinutes'', JNum (vi_minimum x))]"

definition check_venue_input :: "intl \<Rightarrow> venue_input \<Rightarrow> err + unit" where
  "check_venue_input fmt x =
     bindE (required_name (vi_name x)) (\<lambda>_.
     case bindE (assert_timezone fmt (vi_timezone x)) (\<lambda>_. bindE (validate_opening_hours (vi_hours x)) (\<lambda>_.
       validate_minimum_minutes (vi_minimum x))) of Inl e \<Rightarrow> Inl (PricingErr e) | Inr _ \<Rightarrow> Inr ())"

definition update_venue :: "actor \<Rightarrow> venue_input \<Rightarrow> venue_row op" where
  "update_venue a x =
     with_env (\<lambda>E. checked (check_venue_input (e_intl E) x) (\<lambda>_.
     with_tenant_transaction a
       (tseq (require_venue_permission a (vi_id x) PManageAssets)
       (tbind (venue_in_transaction a (vi_id x)) (\<lambda>current.
        tseq (tguard (vn_revision current = vi_expected x) (CatalogErr StaleConfiguration))
        (tbind (tenv e_begin) (\<lambda>now.
         tbind (tread (\<lambda>d. future_uses (ac_tenant a) (court_of_venue d (ac_tenant a) (vi_id x)) now d)) (\<lambda>active.
         tbind (tenv (\<lambda>E. row_affected (e_intl E) x current)) (\<lambda>affects.
         tbind (tlift price_err (mapE affects active)) (\<lambda>affected.
         tseq (tguard (True \<notin> set affected) (CatalogErr AffectedOccupancies))
         (tseq (set_venue (ac_tenant a) x)
         (tseq (record_tenant_audit a ''venue.update'' (vi_id x)
            [(''before'', venue_json current), (''after'', venue_input_json x)])
         (venue_in_transaction a (vi_id x))))))))))))))"

section \<open>Courts\<close>

text \<open>
  The optional parts of the court form; a length may be given as null. \<open>None\<close> is a field
  that is absent.
\<close>

record profile_patch =
  pa_specification :: "string option"
  pa_lighting :: "string option"
  pa_climate :: "string option"
  pa_surface_note :: "string option"
  pa_description :: "string option"
  pa_playing_length :: "int option option"
  pa_playing_width :: "int option option"
  pa_total_length :: "int option option"
  pa_total_width :: "int option option"

record court_assets =
  as_name :: string
  as_indoor :: "bool option"
  as_environment :: "string option"
  as_surface :: "string option"
  as_profile :: "profile_patch option"
  as_active :: "bool option"

record court_input =
  ci_venue :: string
  ci_id :: "string option"
  ci_expected :: "int option"
  ci_assets :: "court_assets option"
  ci_hourly :: "int option option"

definition orelse :: "'a option \<Rightarrow> 'a \<Rightarrow> 'a" where
  "orelse x y = (case x of None \<Rightarrow> y | Some z \<Rightarrow> z)"

definition merge_profile :: "court_profile \<Rightarrow> profile_patch option \<Rightarrow> court_profile" where
  "merge_profile p patch =
     (case patch of None \<Rightarrow> p
      | Some q \<Rightarrow> \<lparr>pf_specification = orelse (pa_specification q) (pf_specification p),
          pf_lighting = orelse (pa_lighting q) (pf_lighting p),
          pf_climate = orelse (pa_climate q) (pf_climate p),
          pf_surface_note = orelse (pa_surface_note q) (pf_surface_note p),
          pf_description = orelse (pa_description q) (pf_description p),
          pf_playing_length_cm = orelse (pa_playing_length q) (pf_playing_length_cm p),
          pf_playing_width_cm = orelse (pa_playing_width q) (pf_playing_width_cm p),
          pf_total_length_cm = orelse (pa_total_length q) (pf_total_length_cm p),
          pf_total_width_cm = orelse (pa_total_width q) (pf_total_width_cm p)\<rparr>)"

definition court_indoor :: "court_row \<Rightarrow> bool" where
  "court_indoor c \<longleftrightarrow> ct_environment c = ''INDOOR''"

definition next_environment :: "court_assets option \<Rightarrow> court_row option \<Rightarrow> string" where
  "next_environment assets current =
     (let old = orelse (map_option ct_environment current) ''OUTDOOR'' in
      case assets of None \<Rightarrow> old
      | Some x \<Rightarrow>
         (case as_environment x of Some e \<Rightarrow> e
          | None \<Rightarrow>
             (case as_indoor x of None \<Rightarrow> old
              | Some i \<Rightarrow> if map_option court_indoor current \<noteq> Some i then (if i then ''INDOOR'' else ''OUTDOOR'') else old)))"

text \<open>The row that the form asks for, from the current row if there is one.\<close>

definition next_court :: "actor \<Rightarrow> court_input \<Rightarrow> string \<Rightarrow> court_row option \<Rightarrow> court_row" where
  "next_court a x i current =
     (let assets = ci_assets x in
      \<lparr>ct_id = i, ct_tenant = ac_tenant a, ct_venue = ci_venue x,
       ct_name = (case assets of Some s \<Rightarrow> js_trim (as_name s) | None \<Rightarrow> orelse (map_option ct_name current) ''''),
       ct_active = orelse (Option.bind assets as_active) (orelse (map_option ct_active current) True),
       ct_environment = next_environment assets current,
       ct_surface = orelse (Option.bind assets as_surface) (orelse (map_option ct_surface current) ''UNSPECIFIED''),
       ct_profile = merge_profile (orelse (map_option ct_profile current) empty_court_profile) (Option.bind assets as_profile),
       ct_hourly = (case ci_hourly x of None \<Rightarrow> Option.bind current ct_hourly | Some p \<Rightarrow> p),
       ct_revision = (case current of None \<Rightarrow> 1 | Some c \<Rightarrow> ct_revision c + 1)\<rparr>)"

definition court_form_ok :: "court_input \<Rightarrow> court_row \<Rightarrow> bool" where
  "court_form_ok x c \<longleftrightarrow>
     \<not> (ct_surface c \<notin> set court_surfaces \<or> ct_environment c \<notin> set court_environments \<or>
        \<not> validate_court_profile (ct_profile c) \<or>
        (case ci_assets x of None \<Rightarrow> False
         | Some s \<Rightarrow> as_environment s \<noteq> None \<and> as_indoor s \<noteq> None \<and> as_indoor s \<noteq> Some (court_indoor c)))"

definition insert_court :: "court_row \<Rightarrow> unit tx" where
  "insert_court r =
     tseq (tcheck (\<lambda>d. \<not> list_ex (\<lambda>c. ct_id c = ct_id r) (courts d)) (SqlErr UniqueViolation))
     (tmodify (\<lambda>d. d\<lparr>courts := courts d @ [r]\<rparr>))"

definition court_update :: "court_row \<Rightarrow> court_row \<Rightarrow> court_row" where
  "court_update r c =
     (if ct_tenant c = ct_tenant r \<and> ct_venue c = ct_venue r \<and> ct_id c = ct_id r then r else c)"

definition set_court :: "court_row \<Rightarrow> unit tx" where
  "set_court r = tmodify (\<lambda>d. d\<lparr>courts := map (court_update r) (courts d)\<rparr>)"

definition check_court_input :: "court_input \<Rightarrow> err + unit" where
  "check_court_input x =
     bindE (guardE (\<not> ((given (ci_id x) = None \<and> ci_assets x = None) \<or> (ci_assets x = None \<and> ci_hourly x = None)))
       (CatalogErr InvalidConfig)) (\<lambda>_.
     bindE (case ci_assets x of None \<Rightarrow> Inr () | Some s \<Rightarrow> required_name (as_name s)) (\<lambda>_.
     case ci_hourly x of Some (Some p) \<Rightarrow>
         (case assert_cents p of Inl e \<Rightarrow> Inl (PricingErr e) | Inr _ \<Rightarrow> Inr ())
       | _ \<Rightarrow> Inr ()))"

definition profile_json :: "court_profile \<Rightarrow> json" where
  "profile_json p = JObj [(''specification'', JStr (pf_specification p)), (''lighting'', JStr (pf_lighting p)),
     (''climate'', JStr (pf_climate p)), (''surfaceNote'', JStr (pf_surface_note p)),
     (''description'', JStr (pf_description p)), (''playingLengthM'', j_opt JNum (pf_playing_length_cm p)),
     (''playingWidthM'', j_opt JNum (pf_playing_width_cm p)), (''totalLengthM'', j_opt JNum (pf_total_length_cm p)),
     (''totalWidthM'', j_opt JNum (pf_total_width_cm p))]"

text \<open>The fields of an object that are present.\<close>

definition given_field :: "string \<Rightarrow> ('a \<Rightarrow> json) \<Rightarrow> 'a option \<Rightarrow> (string \<times> json) list" where
  "given_field k f x = (case x of None \<Rightarrow> [] | Some y \<Rightarrow> [(k, f y)])"

definition patch_json :: "profile_patch \<Rightarrow> json" where
  "patch_json p = JObj (given_field ''specification'' JStr (pa_specification p) @ given_field ''lighting'' JStr (pa_lighting p) @
     given_field ''climate'' JStr (pa_climate p) @ given_field ''surfaceNote'' JStr (pa_surface_note p) @
     given_field ''description'' JStr (pa_description p) @
     given_field ''playingLengthM'' (j_opt JNum) (pa_playing_length p) @
     given_field ''playingWidthM'' (j_opt JNum) (pa_playing_width p) @
     given_field ''totalLengthM'' (j_opt JNum) (pa_total_length p) @
     given_field ''totalWidthM'' (j_opt JNum) (pa_total_width p))"

definition assets_json :: "court_assets \<Rightarrow> json" where
  "assets_json s = JObj ((''name'', JStr (as_name s)) # given_field ''indoor'' JBool (as_indoor s) @
     given_field ''environment'' JStr (as_environment s) @ given_field ''surface'' JStr (as_surface s) @
     given_field ''profile'' patch_json (as_profile s) @ given_field ''active'' JBool (as_active s))"

definition court_json :: "court_row \<Rightarrow> json" where
  "court_json c = JObj [(''id'', JStr (ct_id c)), (''tenantId'', JStr (ct_tenant c)), (''venueId'', JStr (ct_venue c)),
     (''name'', JStr (ct_name c)), (''active'', JBool (ct_active c)), (''indoor'', JBool (court_indoor c)),
     (''surface'', JStr (ct_surface c)), (''environment'', JStr (ct_environment c)),
     (''profile'', profile_json (ct_profile c)), (''hourlyPriceCents'', j_opt JNum (ct_hourly c)), (''revision'', JNum (ct_revision c))]"

definition save_court_audits :: "actor \<Rightarrow> court_input \<Rightarrow> court_row option \<Rightarrow> court_row \<Rightarrow> unit tx" where
  "save_court_audits a x current r =
     tseq (case ci_assets x of None \<Rightarrow> tret ()
       | Some assets \<Rightarrow>
           record_tenant_audit a (if current \<noteq> None then ''court.update'' else ''court.create'') (ct_id r)
             [(''before'', j_opt court_json current), (''after'', assets_json assets)])
     (twhen (ci_hourly x \<noteq> None)
       (record_tenant_audit a ''court.price'' (ct_id r)
          [(''beforeCents'', j_opt JNum (Option.bind current ct_hourly)), (''afterCents'', j_opt JNum (ct_hourly r))]))"

text \<open>The current court of the form: none for a new one.\<close>

definition form_court :: "actor \<Rightarrow> court_input \<Rightarrow> court_row option tx" where
  "form_court a x =
     (case given (ci_id x) of None \<Rightarrow> tret None
      | Some i \<Rightarrow> tbind (court_in_transaction a (ci_venue x) i) (\<lambda>c. tret (Some c)))"

definition check_court_form :: "actor \<Rightarrow> court_input \<Rightarrow> court_row option \<Rightarrow> unit tx" where
  "check_court_form a x current =
     tseq (tguard (\<not> (current \<noteq> None \<and> map_option ct_revision current \<noteq> ci_expected x)) (CatalogErr StaleConfiguration))
     (tseq (tguard (\<not> (current = None \<and> Option.bind (ci_assets x) as_environment = None \<and>
          Option.bind (ci_assets x) as_indoor = None)) (CatalogErr InvalidConfig))
     (tseq (tguard (court_form_ok x (next_court a x '''' current)) (CatalogErr InvalidConfig))
     (tseq (tguard (is_court_ready_for_booking (court_purchase_info (next_court a x '''' current)))
         (CatalogErr CourtDetailsIncomplete))
     (tbind (tenv e_begin) (\<lambda>now.
      tbind (tread (future_uses (ac_tenant a) (\<lambda>c. map_option ct_id current = Some c) now)) (\<lambda>affected.
      tguard (\<not> (current \<noteq> None \<and> \<not> ct_active (next_court a x '''' current) \<and> affected \<noteq> []))
        (CatalogErr AffectedOccupancies)))))))"

definition save_court :: "actor \<Rightarrow> court_input \<Rightarrow> court_row op" where
  "save_court a x =
     checked (check_court_input x) (\<lambda>_.
     with_tenant_transaction a
       (tseq (require_venue_permission a (ci_venue x) (if ci_assets x \<noteq> None then PManageAssets else PManagePrices))
       (tseq (twhen (ci_assets x \<noteq> None \<and> ci_hourly x \<noteq> None)
          (require_venue_permission a (ci_venue x) PManagePrices))
       (tbind (form_court a x) (\<lambda>current.
        tseq (check_court_form a x current)
        (tbind (case current of None \<Rightarrow> tuuid | Some c \<Rightarrow> tret (ct_id c)) (\<lambda>i.
         tseq (if current = None then insert_court (next_court a x i current) else set_court (next_court a x i current))
         (tseq (bump_catalog (ac_tenant a) (ci_venue x))
         (tseq (save_court_audits a x current (next_court a x i current))
         (court_in_transaction a (ci_venue x) i))))))))))"

definition create_court :: "actor \<Rightarrow> string \<Rightarrow> court_assets \<Rightarrow> int option option \<Rightarrow> court_row op" where
  "create_court a venue assets hourly =
     save_court a \<lparr>ci_venue = venue, ci_id = None, ci_expected = None, ci_assets = Some assets, ci_hourly = hourly\<rparr>"

definition update_court :: "actor \<Rightarrow> string \<Rightarrow> string \<Rightarrow> int \<Rightarrow> court_assets \<Rightarrow> court_row op" where
  "update_court a i venue expected assets =
     save_court a \<lparr>ci_venue = venue, ci_id = Some i, ci_expected = Some expected,
       ci_assets = Some (if as_indoor assets \<noteq> None then assets\<lparr>as_environment := None\<rparr> else assets), ci_hourly = None\<rparr>"

definition set_court_price :: "actor \<Rightarrow> string \<Rightarrow> string \<Rightarrow> int \<Rightarrow> int \<Rightarrow> court_row op" where
  "set_court_price a court venue expected hourly =
     save_court a \<lparr>ci_venue = venue, ci_id = Some court, ci_expected = Some expected, ci_assets = None,
       ci_hourly = Some (Some hourly)\<rparr>"

definition court_list_order :: "env \<Rightarrow> court_row \<Rightarrow> court_row \<Rightarrow> bool" where
  "court_list_order E p q \<longleftrightarrow>
     (if ct_name p = ct_name q then e_collate_le E (ct_id p) (ct_id q) else e_collate_le E (ct_name p) (ct_name q))"

definition list_courts :: "actor \<Rightarrow> string \<Rightarrow> court_row list op" where
  "list_courts a venue =
     with_tenant_transaction a
       (tseq (require_venue_permission a venue PRead)
       (tbind (tenv court_list_order) (\<lambda>le.
        tread (\<lambda>d. sort_by le (filter (\<lambda>c. ct_tenant c = ac_tenant a \<and> ct_venue c = venue) (courts d))))))"

section \<open>Discounts\<close>

record discount_input =
  di_rule :: discount_rule
  di_id :: "string option"
  di_expected :: "int option"
  di_active :: bool

definition list_discounts :: "actor \<Rightarrow> string \<Rightarrow> discount_row list op" where
  "list_discounts a venue =
     with_tenant_transaction a (tseq (require_venue_permission a venue PRead) (discounts_in_transaction a venue))"

text \<open>The first active rule other than the saved one that overlaps it, as a find whose test may fail.\<close>

fun overlaps_existing :: "discount_rule \<Rightarrow> discount_row list \<Rightarrow> pricing_error + bool" where
  "overlaps_existing rule [] = Inr False"
| "overlaps_existing rule (other # rest) =
     (if ds_active other \<and> dr_id (ds_rule other) \<noteq> dr_id rule
      then bindE (discounts_overlap rule (ds_rule other)) (\<lambda>hit. if hit then Inr True else overlaps_existing rule rest)
      else overlaps_existing rule rest)"

definition insert_discount :: "discount_row \<Rightarrow> unit tx" where
  "insert_discount r =
     tseq (tcheck (\<lambda>d. \<not> list_ex (\<lambda>q. dr_id (ds_rule q) = dr_id (ds_rule r)) (discount_rows d)) (SqlErr UniqueViolation))
     (tmodify (\<lambda>d. d\<lparr>discount_rows := discount_rows d @ [r]\<rparr>))"

definition discount_update :: "discount_row \<Rightarrow> discount_row \<Rightarrow> discount_row" where
  "discount_update r q =
     (if ds_tenant q = ds_tenant r \<and> dr_id (ds_rule q) = dr_id (ds_rule r) then r else q)"

definition set_discount :: "discount_row \<Rightarrow> unit tx" where
  "set_discount r = tmodify (\<lambda>d. d\<lparr>discount_rows := map (discount_update r) (discount_rows d)\<rparr>)"

definition rule_json :: "discount_rule \<Rightarrow> json" where
  "rule_json r = JObj [(''id'', JStr (dr_id r)), (''name'', JStr (dr_name r)), (''venueId'', JStr (dr_venue r)),
     (''courtIds'', JArr (map JStr (dr_courts r))), (''dateFrom'', JStr (dr_from r)), (''dateTo'', JStr (dr_to r)),
     (''weekdays'', JArr (map JNum (dr_weekdays r))), (''startMinute'', JNum (dr_start r)),
     (''endMinute'', JNum (dr_end r)), (''discountBps'', JNum (dr_bps r))]"

definition stored_discount :: "actor \<Rightarrow> discount_rule \<Rightarrow> bool \<Rightarrow> discount_row option \<Rightarrow> discount_row" where
  "stored_discount a rule active current =
     \<lparr>ds_tenant = ac_tenant a, ds_rule = rule\<lparr>dr_name := js_trim (dr_name rule)\<rparr>, ds_active = active,
       ds_revision = (case current of None \<Rightarrow> 0 | Some c \<Rightarrow> ds_revision c) + 1\<rparr>"

definition save_discount_work :: "actor \<Rightarrow> discount_input \<Rightarrow> discount_rule \<Rightarrow> discount_row tx" where
  "save_discount_work a x rule =
     tseq (require_venue_permission a (dr_venue rule) PManagePrices)
     (tbind (discounts_in_transaction a (dr_venue rule)) (\<lambda>existing.
      let current = find (\<lambda>r. dr_id (ds_rule r) = dr_id rule) existing in
      tseq (tguard (\<not> (given (di_id x) \<noteq> None \<and> current = None)) (AccessErr ResourceNotFound))
      (tseq (tguard (\<not> (current \<noteq> None \<and> di_expected x \<noteq> map_option ds_revision current)) (CatalogErr StaleConfiguration))
      (tseq (teach (\<lambda>c. tbind (court_in_transaction a (dr_venue rule) c) (\<lambda>_. tret ())) (dr_courts rule))
      (tbind (tlift PricingErr (if di_active x then overlaps_existing rule existing else Inr False)) (\<lambda>hit.
       tseq (tguard (\<not> hit) (PricingErr (DiscountOverlap [dr_id rule])))
       (tseq (if current \<noteq> None then set_discount (stored_discount a rule (di_active x) current)
              else insert_discount (stored_discount a rule (di_active x) current))
       (tseq (bump_catalog (ac_tenant a) (dr_venue rule))
       (tseq (record_tenant_audit a ''discount.save'' (dr_id rule)
          [(''before'', j_opt rule_json (map_option ds_rule current)), (''after'', rule_json rule)])
       (tret (stored_discount a rule (di_active x) current)))))))))))"

text \<open>The id of a new rule is drawn and the rule validated before the transaction does anything.\<close>

definition save_discount :: "actor \<Rightarrow> discount_input \<Rightarrow> discount_row op" where
  "save_discount a x =
     run_tx (tbind (case di_id x of None \<Rightarrow> tuuid | Some i \<Rightarrow> tret i) (\<lambda>i.
       tseq (tlift PricingErr (validate_discount_rule ((di_rule x)\<lparr>dr_id := i\<rparr>)))
       (tseq (require_tenant_permission a PRead None)
         (save_discount_work a x ((di_rule x)\<lparr>dr_id := i\<rparr>)))))"

section \<open>What the readers tell\<close>

lemma reads_catalog [reads_intros]:
  "reads_only (venue_in_transaction a v)" "reads_only (court_in_transaction a v c)"
  "reads_only (discounts_in_transaction a v)" "reads_only (require_tenant_admin a)"
  unfolding venue_in_transaction_def court_in_transaction_def discounts_in_transaction_def require_tenant_admin_def
  by (intro reads_intros)+

lemma reads_form_court [reads_intros]: "reads_only (form_court a x)"
  unfolding form_court_def by (intro reads_intros)

lemma reads_check_court_form [reads_intros]: "reads_only (check_court_form a x c)"
  unfolding check_court_form_def by (intro reads_intros)

section \<open>Invariants through the operations\<close>

text \<open>A court row is sellable when the purchase check has nothing to complain about.\<close>

definition sellable :: "court_row \<Rightarrow> bool" where
  "sellable c \<longleftrightarrow> is_court_ready_for_booking (court_purchase_info c) \<and> validate_court_profile (ct_profile c)"

lemma next_court_sellable:
  "is_court_ready_for_booking (court_purchase_info (next_court a x '''' c)) \<Longrightarrow>
   court_form_ok x (next_court a x '''' c) \<Longrightarrow> sellable (next_court a x i c)"
  by (simp add: sellable_def next_court_def court_purchase_info_def court_form_ok_def Let_def)

text \<open>
  The writes of the catalog. Saving a discount is one unit, because its checks are what keeps
  the rules from overlapping; an invariant that says nothing about discounts only looks at
  its writes.
\<close>

lemma next_court_tenant [simp]: "ct_tenant (next_court a x i c) = ac_tenant a"
  by (simp add: next_court_def Let_def)

locale catalog_writes = db_invariant +
  assumes inv_insert_venue: "T (vn_tenant v) \<Longrightarrow> vn_hours v = [] \<Longrightarrow> vn_minimum v = None \<Longrightarrow> keeps I (insert_venue v)"
    and inv_set_venue: "T tenant \<Longrightarrow> check_venue_input fmt x = Inr () \<Longrightarrow> keeps I (set_venue tenant x)"
    and inv_bump: "T tenant \<Longrightarrow> keeps I (bump_catalog tenant i)"
    and inv_insert_court: "T (ct_tenant r) \<Longrightarrow> sellable r \<Longrightarrow> keeps I (insert_court r)"
    and inv_set_court: "T (ct_tenant r) \<Longrightarrow> sellable r \<Longrightarrow> keeps I (set_court r)"
    and inv_save_discount: "T (ac_tenant a) \<Longrightarrow> validate_discount_rule rule = Inr () \<Longrightarrow>
      keeps I (save_discount_work a y rule)"
begin

lemmas keeps_catalog_reads = keeps_reading [OF reads_catalog(1)] keeps_reading [OF reads_catalog(2)]
  keeps_reading [OF reads_catalog(3)] keeps_reading [OF reads_catalog(4)] keeps_reading [OF reads_form_court]
  keeps_reading [OF reads_check_court_form]

lemma create_venue_inv: "T (ac_tenant a) \<Longrightarrow> op_keeps I (create_venue a n ad tz)"
  unfolding create_venue_def
  by (intro keeps_intros op_keeps_tenant keeps_base keeps_catalog_reads inv_insert_venue) simp_all

lemma update_venue_inv: "T (ac_tenant a) \<Longrightarrow> op_keeps I (update_venue a x)"
  unfolding update_venue_def
  by (intro keeps_intros op_keeps_tenant keeps_base keeps_catalog_reads) (auto intro: inv_set_venue)

lemma keeps_save_court_audits: "T (ac_tenant a) \<Longrightarrow> keeps I (save_court_audits a x c r)"
  unfolding save_court_audits_def by (intro keeps_intros keeps_base)

lemma list_discounts_inv: "op_keeps I (list_discounts a v)"
  unfolding list_discounts_def by (intro op_keeps_tenant keeps_intros keeps_base keeps_catalog_reads)

lemma list_courts_inv: "op_keeps I (list_courts a v)"
  unfolding list_courts_def by (intro op_keeps_tenant keeps_intros keeps_base)

lemma save_court_inv: "T (ac_tenant a) \<Longrightarrow> op_keeps I (save_court a x)"
proof -
  assume T: "T (ac_tenant a)"
  have saved: "keeps I (tseq (check_court_form a x current)
        (tbind (case current of None \<Rightarrow> tuuid | Some c \<Rightarrow> tret (ct_id c)) (\<lambda>i.
         tseq (if current = None then insert_court (next_court a x i current) else set_court (next_court a x i current))
         (tseq (bump_catalog (ac_tenant a) (ci_venue x))
         (tseq (save_court_audits a x current (next_court a x i current))
         (court_in_transaction a (ci_venue x) i))))))" for current
  proof (cases "sellable (next_court a x '''' current)")
    case True
    then have "sellable (next_court a x i current)" for i
      by (simp add: sellable_def next_court_def court_purchase_info_def Let_def)
    then show ?thesis
      by (intro keeps_intros keeps_base keeps_catalog_reads inv_insert_court inv_set_court inv_bump
          keeps_save_court_audits) (simp_all add: T)
  next
    case False
    then show ?thesis
      by (auto simp: keeps_def ok_iff check_court_form_def intro: next_court_sellable)
  qed
  show ?thesis unfolding save_court_def
    by (intro keeps_intros op_keeps_tenant keeps_base keeps_catalog_reads saved)
qed

lemma save_discount_inv: "T (ac_tenant a) \<Longrightarrow> op_keeps I (save_discount a x)"
proof -
  assume T: "T (ac_tenant a)"
  have saved: "keeps I (tseq (tlift PricingErr (validate_discount_rule rule))
       (tseq (require_tenant_permission a PRead None) (save_discount_work a x rule)))" for rule
  proof (cases "validate_discount_rule rule = Inr ()")
    case True
    then show ?thesis by (intro keeps_intros keeps_base inv_save_discount T)
  next
    case False
    then show ?thesis by (auto simp: keeps_def ok_iff)
  qed
  show ?thesis unfolding save_discount_def
    by (rule op_keeps_tx, rule keeps_tbind) (intro keeps_intros keeps_base, rule saved)
qed

lemmas catalog_operations = create_venue_inv update_venue_inv save_court_inv save_discount_inv

end

locale plain_catalog = db_invariant +
  assumes plain_insert_venue: "T (vn_tenant v) \<Longrightarrow> keeps I (insert_venue v)"
    and plain_set_venue: "T tenant \<Longrightarrow> keeps I (set_venue tenant x)"
    and plain_bump: "T tenant \<Longrightarrow> keeps I (bump_catalog tenant i)"
    and plain_insert_court: "T (ct_tenant r) \<Longrightarrow> keeps I (insert_court r)"
    and plain_set_court: "T (ct_tenant r) \<Longrightarrow> keeps I (set_court r)"
    and plain_insert_discount: "T (ds_tenant q) \<Longrightarrow> keeps I (insert_discount q)"
    and plain_set_discount: "T (ds_tenant q) \<Longrightarrow> keeps I (set_discount q)"
begin

lemma plain_save_discount: "T (ac_tenant a) \<Longrightarrow> keeps I (save_discount_work a x rule)"
  unfolding save_discount_work_def Let_def
  by (intro keeps_intros keeps_base keeps_reading [OF reads_catalog(3)] keeps_reading [OF reads_catalog(2)]
      plain_insert_discount plain_set_discount plain_bump) (simp_all add: stored_discount_def)

end

sublocale plain_catalog \<subseteq> catalog_writes
  by unfold_locales
    (simp_all add: plain_insert_venue plain_set_venue plain_bump plain_insert_court plain_set_court plain_save_discount)

end
