(* ===== verification/CatalogInv.thy ===== *)
theory CatalogInv
  imports Catalog
begin

text \<open>
  What the catalog promises: every court row is sellable, every venue has valid opening hours,
  and the active discount rules of a venue are valid and never overlap. The writes of
  Catalog keep it, so every operation does.
\<close>

section \<open>Trimmed names\<close>

lemma set_dropWhile_not: "c \<in> set s \<Longrightarrow> \<not> P c \<Longrightarrow> c \<in> set (dropWhile P s)"
  by (induction s) auto

lemma blank_iff: "blank s \<longleftrightarrow> (\<forall>c\<in>set s. js_space c)"
proof -
  have "(\<forall>c\<in>set (dropWhile js_space s). js_space c) \<longleftrightarrow> (\<forall>c\<in>set s. js_space c)"
    using set_dropWhile_not [of _ s js_space] by (auto dest: set_dropWhileD)
  then show ?thesis by (simp add: blank_def js_trim_def)
qed

lemma blank_trim [simp]: "blank (js_trim s) = blank s"
proof -
  have "c \<in> set (js_trim s) \<longleftrightarrow> c \<in> set s" if "\<not> js_space c" for c
    using that set_dropWhile_not [of c] by (auto simp: js_trim_def dest!: set_dropWhileD)
  then show ?thesis by (auto simp: blank_iff)
qed

section \<open>Rules that do not overlap\<close>

lemma validate_trimmed [simp]:
  "validate_discount_rule (r\<lparr>dr_name := js_trim (dr_name r)\<rparr>) = validate_discount_rule r"
  by (simp add: validate_discount_rule_def)

lemma distinct_sort_by [simp]: "distinct (sort_by le xs) = distinct xs"
  by (metis distinct_count_atmost_1 mset_sort_by set_sort_by)

lemma sort_by_Nil [simp]: "sort_by le xs = [] \<longleftrightarrow> xs = []"
  by (metis length_0_conv length_sort_by)

lemma validate_sorted [simp]:
  "validate_discount_rule (r\<lparr>dr_courts := sort_by le (dr_courts r)\<rparr>) = validate_discount_rule r"
  by (simp add: validate_discount_rule_def list_ex_iff)

lemma overlap_sorted [simp]:
  "discounts_overlap a (b\<lparr>dr_courts := sort_by le (dr_courts b)\<rparr>) = discounts_overlap a b"
  by (simp add: discounts_overlap_def Let_def cong: if_cong)

lemma overlap_trimmed [simp]:
  "discounts_overlap (a\<lparr>dr_name := js_trim (dr_name a)\<rparr>) b = discounts_overlap a b"
  "discounts_overlap a (b\<lparr>dr_name := js_trim (dr_name b)\<rparr>) = discounts_overlap a b"
  by (simp_all add: discounts_overlap_def Let_def cong: if_cong)

section \<open>The invariant\<close>

definition rules_clash :: "discount_row \<Rightarrow> discount_row \<Rightarrow> bool" where
  "rules_clash r s \<longleftrightarrow> ds_tenant r = ds_tenant s \<and> ds_active r \<and> ds_active s \<and>
     discounts_overlap (ds_rule r) (ds_rule s) \<noteq> Inr False"

definition venue_ok :: "venue_row \<Rightarrow> bool" where
  "venue_ok v \<longleftrightarrow> validate_opening_hours (vn_hours v) = Inr () \<and>
     (\<forall>m. vn_minimum v = Some m \<longrightarrow> validate_minimum_minutes m = Inr ())"

definition catalog_ok :: "db \<Rightarrow> bool" where
  "catalog_ok d \<longleftrightarrow>
     (\<forall>c\<in>set (courts d). sellable c) \<and> (\<forall>v\<in>set (venues d). venue_ok v) \<and>
     (\<forall>r\<in>set (discount_rows d). validate_discount_rule (ds_rule r) = Inr ()) \<and>
     distinct (map (\<lambda>r. dr_id (ds_rule r)) (discount_rows d)) \<and>
     sorted_wrt (\<lambda>r s. \<not> rules_clash r s) (discount_rows d)"

lemma rules_clash_sym: "rules_clash r s \<longleftrightarrow> rules_clash s r"
  unfolding rules_clash_def using discounts_overlap_sym by metis

lemma check_venue_input_hours: "check_venue_input fmt x = Inr () \<Longrightarrow>
   validate_opening_hours (vi_hours x) = Inr () \<and> validate_minimum_minutes (vi_minimum x) = Inr ()"
  by (auto simp: check_venue_input_def ok_iff split: sum.splits)

lemma catalog_rows:
  "venue_ok v \<Longrightarrow> check_venue_input fmt x = Inr () \<Longrightarrow> venue_ok (update_row tenant x v)"
  "venue_ok v \<Longrightarrow> venue_ok (bump_row tenant i v)"
  "sellable c \<Longrightarrow> sellable r \<Longrightarrow> sellable (court_update r c)"
  using check_venue_input_hours [of fmt x]
  by (simp_all add: venue_ok_def update_row_def bump_row_def court_update_def)

lemma catalog_ok_venue_writes:
  "vn_hours v = [] \<Longrightarrow> vn_minimum v = None \<Longrightarrow> keeps catalog_ok (insert_venue v)"
  "check_venue_input fmt x = Inr () \<Longrightarrow> keeps catalog_ok (set_venue tenant x)"
  "keeps catalog_ok (bump_catalog tenant i)"
proof -
  show "keeps catalog_ok (insert_venue v)" if "vn_hours v = []" "vn_minimum v = None"
    unfolding insert_venue_def
    by (intro keeps_intros keeps_tmodify)
      (use that in \<open>simp add: catalog_ok_def venue_ok_def validate_opening_hours_def\<close>)
  show "keeps catalog_ok (set_venue tenant x)" if "check_venue_input fmt x = Inr ()"
    unfolding set_venue_def
    by (rule keeps_tmodify)
      (use that in \<open>simp add: catalog_ok_def catalog_rows(1)\<close>)
  show "keeps catalog_ok (bump_catalog tenant i)"
    unfolding bump_catalog_def
    by (rule keeps_tmodify) (simp add: catalog_ok_def catalog_rows(2))
qed

lemma catalog_ok_court_writes:
  "sellable r \<Longrightarrow> keeps catalog_ok (insert_court r)" "sellable r \<Longrightarrow> keeps catalog_ok (set_court r)"
proof -
  assume r: "sellable r"
  show "keeps catalog_ok (insert_court r)"
    unfolding insert_court_def by (intro keeps_intros keeps_tmodify) (use r in \<open>simp add: catalog_ok_def\<close>)
  show "keeps catalog_ok (set_court r)"
    unfolding set_court_def by (rule keeps_tmodify) (use r in \<open>simp add: catalog_ok_def catalog_rows(3)\<close>)
qed

text \<open>The test of the saved rule against the active rules of its venue.\<close>

lemma overlaps_existing_False:
  "overlaps_existing rule rows = Inr False \<Longrightarrow> other \<in> set rows \<Longrightarrow> ds_active other \<Longrightarrow>
     dr_id (ds_rule other) \<noteq> dr_id rule \<Longrightarrow> discounts_overlap rule (ds_rule other) = Inr False"
proof (induction rows)
  case (Cons q rows)
  have "overlaps_existing rule rows = Inr False \<and>
    (ds_active q \<and> dr_id (ds_rule q) \<noteq> dr_id rule \<longrightarrow> discounts_overlap rule (ds_rule q) = Inr False)"
  proof (cases "ds_active q \<and> dr_id (ds_rule q) \<noteq> dr_id rule")
    case True
    then obtain v where v: "discounts_overlap rule (ds_rule q) = Inr v"
        "(if v then Inr True else overlaps_existing rule rows) = Inr False"
      using Cons.prems(1) by (auto simp: bindE_Inr_iff)
    then show ?thesis by (cases v) simp_all
  next
    case False
    then show ?thesis using Cons.prems(1) by (auto split: if_splits)
  qed
  then show ?case using Cons.IH Cons.prems(2-4) by (cases "other = q") simp_all
qed simp

lemma overlap_other_venue:
  "validate_discount_rule a = Inr () \<Longrightarrow> validate_discount_rule b = Inr () \<Longrightarrow> dr_venue a \<noteq> dr_venue b \<Longrightarrow>
     discounts_overlap a b = Inr False"
  by (simp add: discounts_overlap_def)

lemma saved_no_clash:
  assumes ok: "catalog_ok d" and rule: "validate_discount_rule rule = Inr ()"
    and hit: "(if active then overlaps_existing rule (map (sort_courts E) (venue_discounts (ac_tenant a) (dr_venue rule) d))
       else Inr False) = Inr False"
    and q: "q \<in> set (discount_rows d)" "dr_id (ds_rule q) \<noteq> dr_id rule"
  shows "\<not> rules_clash (stored_discount a rule active current) q"
proof
  assume clash: "rules_clash (stored_discount a rule active current) q"
  then have act: "active" "ds_active q" "ds_tenant q = ac_tenant a"
    and over: "discounts_overlap rule (ds_rule q) \<noteq> Inr False"
    by (auto simp: rules_clash_def stored_discount_def)
  have "validate_discount_rule (ds_rule q) = Inr ()" using ok q(1) by (simp add: catalog_ok_def)
  then have v: "dr_venue (ds_rule q) = dr_venue rule" using over overlap_other_venue [OF rule] by metis
  have "sort_courts E q \<in> set (map (sort_courts E) (venue_discounts (ac_tenant a) (dr_venue rule) d))"
    using q(1) act v by (simp add: venue_discounts_def)
  then have "discounts_overlap rule (ds_rule (sort_courts E q)) = Inr False"
    using hit act q(2) overlaps_existing_False [of rule _ "sort_courts E q"]
    by (simp add: sort_courts_def del: set_map image_eqI)
  then show False using over by (simp add: sort_courts_def)
qed

lemma discount_rows_updated:
  assumes "sorted_wrt (\<lambda>r s. \<not> rules_clash r s) rows" "distinct (map (\<lambda>r. dr_id (ds_rule r)) rows)"
    and "\<And>q. q \<in> set rows \<Longrightarrow> dr_id (ds_rule q) \<noteq> dr_id (ds_rule r) \<Longrightarrow> \<not> rules_clash r q"
  shows "sorted_wrt (\<lambda>r s. \<not> rules_clash r s) (map (discount_update r) rows)"
  using assms
proof (induction rows)
  case (Cons p rows)
  have "\<not> rules_clash (discount_update r p) (discount_update r q)" if q: "q \<in> set rows" for q
  proof -
    have "dr_id (ds_rule q) \<noteq> dr_id (ds_rule p)"
      using Cons.prems(2) q by (metis (mono_tags, lifting) distinct.simps(2) imageI list.map(2) list.set_map)
    moreover have "\<not> rules_clash p q" using Cons.prems(1) q by simp
    moreover have "dr_id (ds_rule p) \<noteq> dr_id (ds_rule r) \<Longrightarrow> \<not> rules_clash r p"
      "dr_id (ds_rule q) \<noteq> dr_id (ds_rule r) \<Longrightarrow> \<not> rules_clash r q" using Cons.prems(3) q by simp_all
    ultimately show ?thesis by (auto simp: discount_update_def rules_clash_sym [of p r])
  qed
  then show ?case using Cons by simp
qed simp

lemma discount_update_id [simp]: "dr_id (ds_rule (discount_update r q)) = dr_id (ds_rule q)"
  by (simp add: discount_update_def)

lemma set_discount_catalog_ok:
  assumes "catalog_ok d" "validate_discount_rule (ds_rule r) = Inr ()"
    and "\<And>q. q \<in> set (discount_rows d) \<Longrightarrow> dr_id (ds_rule q) \<noteq> dr_id (ds_rule r) \<Longrightarrow> \<not> rules_clash r q"
  shows "catalog_ok (d\<lparr>discount_rows := map (discount_update r) (discount_rows d)\<rparr>)"
  using assms discount_rows_updated [of "discount_rows d" r]
  by (simp add: catalog_ok_def comp_def) (simp add: discount_update_def)

lemma insert_discount_catalog_ok:
  assumes "catalog_ok d" "validate_discount_rule (ds_rule r) = Inr ()"
    and "\<And>q. q \<in> set (discount_rows d) \<Longrightarrow> dr_id (ds_rule q) \<noteq> dr_id (ds_rule r)"
    and "\<And>q. q \<in> set (discount_rows d) \<Longrightarrow> dr_id (ds_rule q) \<noteq> dr_id (ds_rule r) \<Longrightarrow> \<not> rules_clash r q"
  shows "catalog_ok (d\<lparr>discount_rows := discount_rows d @ [r]\<rparr>)"
proof -
  have "\<forall>q\<in>set (discount_rows d). \<not> rules_clash q r" using assms(3,4) rules_clash_sym by blast
  moreover have "dr_id (ds_rule r) \<notin> (\<lambda>r. dr_id (ds_rule r)) ` set (discount_rows d)" using assms(3) by force
  ultimately show ?thesis using assms(1,2) by (simp add: catalog_ok_def sorted_wrt_append)
qed

lemma catalog_ok_ticks [simp]: "catalog_ok (d\<lparr>ticks := n\<rparr>) = catalog_ok d" "catalog_ok (d\<lparr>uuids := n\<rparr>) = catalog_ok d"
  by (simp_all add: catalog_ok_def)

lemma catalog_ok_audit: "keeps catalog_ok (record_tenant_audit a s r ds)"
  by (auto simp: keeps_def record_tenant_audit_def ok_iff catalog_ok_def)

lemma save_discount_work_catalog_ok:
  assumes rule: "validate_discount_rule rule = Inr ()"
  shows "keeps catalog_ok (save_discount_work a x rule)"
proof (rule keepsI)
  fix E d y d' assume ok: "catalog_ok d" and run: "save_discount_work a x rule E d = Inr (y, d')"
  obtain u1 d1 where r1: "require_venue_permission a (dr_venue rule) PManagePrices E d = Inr (u1, d1)"
    and rest: "tbind (discounts_in_transaction a (dr_venue rule)) (\<lambda>existing.
      let current = find (\<lambda>r. dr_id (ds_rule r) = dr_id rule) existing in
      tseq (tguard (\<not> (given (di_id x) \<noteq> None \<and> current = None)) (AccessErr ResourceNotFound))
      (tseq (tguard (\<not> (current \<noteq> None \<and> di_expected x \<noteq> map_option ds_revision current)) (CatalogErr StaleConfiguration))
      (tseq (teach (\<lambda>c. tbind (court_in_transaction a (dr_venue rule) c) (\<lambda>_. tret ())) (dr_courts rule))
      (tbind (tlift PricingErr (if di_active x then overlaps_existing rule existing else Inr False)) (\<lambda>hit.
       tseq (tguard (\<not> hit) (PricingErr (DiscountOverlap [dr_id rule])))
       (tseq (if current \<noteq> None then set_discount (stored_discount a rule (di_active x) current)
              else insert_discount (stored_discount a rule (di_active x) current))
       (tseq (bump_catalog (ac_tenant a) (dr_venue rule))
       (tseq (record_tenant_audit a ''discount.save'' (dr_id rule)
          [(''before'', j_opt rule_json (map_option ds_rule current)), (''after'', rule_json rule)])
       (tret (stored_discount a rule (di_active x) current)))))))))) E d1 = Inr (y, d')"
    using run unfolding save_discount_work_def tseq_Inr by blast
  have ok1: "catalog_ok d1"
    using ok reads_onlyD [OF reads_require_venue_permission r1] by (auto simp: same_tables_def)
  let ?ex = "map (sort_courts E) (venue_discounts (ac_tenant a) (dr_venue rule) d1)"
  let ?cur = "find (\<lambda>r. dr_id (ds_rule r) = dr_id rule) ?ex"
  let ?new = "stored_discount a rule (di_active x) ?cur"
  obtain u2 d2 hit u3 d3 where
      c: "teach (\<lambda>c. tbind (court_in_transaction a (dr_venue rule) c) (\<lambda>_. tret ())) (dr_courts rule) E d1 = Inr (u2, d2)"
    and hit: "(if di_active x then overlaps_existing rule ?ex else Inr False) = Inr False"
    and put: "(if ?cur \<noteq> None then set_discount ?new else insert_discount ?new) E d2 = Inr (u3, d3)"
    and fin: "tseq (bump_catalog (ac_tenant a) (dr_venue rule))
       (tseq (record_tenant_audit a ''discount.save'' (dr_id rule)
          [(''before'', j_opt rule_json (map_option ds_rule ?cur)), (''after'', rule_json rule)])
       (tret ?new)) E d3 = Inr (y, d')"
    using rest unfolding discounts_in_transaction_def tbind_Inr tseq_Inr tguard_Inr Let_def tlift_Inr tenv_Inr tread_Inr
    by (elim exE conjE) (simp, blast)
  have "reads_only (teach (\<lambda>c. tbind (court_in_transaction a (dr_venue rule) c) (\<lambda>_. tret ())) (dr_courts rule))"
    by (intro reads_intros)
  then have d2: "same_tables d1 d2" using c by (rule reads_onlyD)
  then have ok2: "catalog_ok d2" using ok1 by (auto simp: same_tables_def)
  have rows: "discount_rows d2 = discount_rows d1" using d2 by (auto simp: same_tables_def)
  have new: "validate_discount_rule (ds_rule ?new) = Inr ()" "dr_id (ds_rule ?new) = dr_id rule"
    using rule by (simp_all add: stored_discount_def)
  have free: "\<not> rules_clash ?new q" if "q \<in> set (discount_rows d2)" "dr_id (ds_rule q) \<noteq> dr_id (ds_rule ?new)" for q
    using saved_no_clash [OF ok1 rule hit] that by (simp add: rows new(2))
  have "catalog_ok d3"
  proof (cases "?cur = None")
    case True
    then have "d3 = d2\<lparr>discount_rows := discount_rows d2 @ [?new]\<rparr>"
        "\<forall>q\<in>set (discount_rows d2). dr_id (ds_rule q) \<noteq> dr_id (ds_rule ?new)"
      using put by (auto simp: insert_discount_def ok_iff list_ex_iff)
    then show ?thesis using insert_discount_catalog_ok [OF ok2 new(1) _ free] by simp
  next
    case False
    then have "d3 = d2\<lparr>discount_rows := map (discount_update ?new) (discount_rows d2)\<rparr>"
      using put by (auto simp: set_discount_def ok_iff)
    then show ?thesis using set_discount_catalog_ok [OF ok2 new(1) free] by simp
  qed
  moreover have fin_keeps: "keeps catalog_ok (tseq (bump_catalog (ac_tenant a) (dr_venue rule))
       (tseq (record_tenant_audit a ''discount.save'' (dr_id rule)
          [(''before'', j_opt rule_json (map_option ds_rule ?cur)), (''after'', rule_json rule)])
       (tret ?new)))"
    by (intro keeps_intros catalog_ok_audit catalog_ok_venue_writes(3))
  ultimately show "catalog_ok d'" using keepsD [OF fin_keeps _ fin] by simp
qed

lemma catalog_ok_occupancies [simp]: "catalog_ok (d\<lparr>occupancies := os\<rparr>) = catalog_ok d"
  by (simp add: catalog_ok_def)

interpretation catalog: catalog_writes catalog_ok "\<lambda>_. True"
  by unfold_locales
    (auto intro: catalog_ok_audit catalog_ok_venue_writes catalog_ok_court_writes save_discount_work_catalog_ok)

interpretation catalog_inventory: inventory_invariant catalog_ok "\<lambda>_. True"
  by unfold_locales (auto simp: keeps_def insert_occupancy_def move_occupancy_def ok_iff)

interpretation no_double_catalog: plain_catalog no_double_booking "\<lambda>_. True"
  by unfold_locales
    (auto simp: keeps_def insert_venue_def set_venue_def bump_catalog_def insert_court_def set_court_def
      insert_discount_def set_discount_def ok_iff no_double_booking_def)

end
