(* ===== verification/Selling.thy ===== *)
theory Selling
  imports CatalogInv
begin

text \<open>
  The selling side of packages/db/src/tennis/catalog.ts: which courts are free in a range,
  which of them serve one interval, and the price of a selection of court intervals.
\<close>

section \<open>Available courts\<close>

text \<open>
  Date.parse on the ISO strings of free intervals, which always have the form matched here;
  any other string is not a number, and comparisons with it are false.
\<close>

definition iso_instant :: "string \<Rightarrow> instant option" where
  "iso_instant s = (case minute_instant s of Inr t \<Rightarrow> Some t | Inl _ \<Rightarrow> None)"

definition bookable_order :: "env \<Rightarrow> court_row \<Rightarrow> court_row \<Rightarrow> bool" where
  "bookable_order E p q \<longleftrightarrow>
     (if ct_name p = ct_name q then e_collate_le E (ct_id p) (ct_id q) else e_collate_le E (ct_name p) (ct_name q))"

definition priced_courts :: "string \<Rightarrow> string \<Rightarrow> db \<Rightarrow> court_row list" where
  "priced_courts tenant venue d =
     filter (\<lambda>c. ct_tenant c = tenant \<and> ct_venue c = venue \<and> ct_active c \<and> ct_hourly c \<noteq> None) (courts d)"

definition occupied_rows :: "string \<Rightarrow> string \<Rightarrow> parsed_interval \<Rightarrow> db \<Rightarrow> occupancy_row list" where
  "occupied_rows tenant venue p d =
     filter (\<lambda>o'. oc_tenant o' = tenant \<and> court_of_venue d tenant venue (oc_court o') \<and> oc_released o' = None \<and>
         oc_start o' < snd p \<and> oc_end o' > fst p) (occupancies d)"

definition court_blocks :: "occupancy_row list \<Rightarrow> court_row \<Rightarrow> court_interval list" where
  "court_blocks occ c =
     map (\<lambda>o'. \<lparr>start_at = to_iso_string (oc_start o'), end_at = to_iso_string (oc_end o')\<rparr>)
       (filter (\<lambda>o'. oc_court o' = ct_id c) occ)"

definition long_enough :: "int \<Rightarrow> court_interval \<Rightarrow> bool" where
  "long_enough minutes i \<longleftrightarrow>
     (case (iso_instant (start_at i), iso_instant (end_at i)) of
        (Some s, Some e) \<Rightarrow> e - s \<ge> minutes * 60000 | _ \<Rightarrow> False)"

definition court_availability ::
  "court_interval list \<Rightarrow> occupancy_row list \<Rightarrow> int \<Rightarrow> court_row \<Rightarrow> interval_error + court_row \<times> court_interval list" where
  "court_availability openings occ minutes c =
     bindE (mapE (\<lambda>opening. available_court_intervals opening (court_blocks occ c)) openings) (\<lambda>frees.
     Inr (c, filter (long_enough minutes) (concat frees)))"

definition venue_availability ::
  "actor \<Rightarrow> string \<Rightarrow> court_interval \<Rightarrow> parsed_interval \<Rightarrow> venue_row \<Rightarrow>
     (venue_row \<times> (court_row \<times> court_interval list) list) tx" where
  "venue_availability a venue_id rng p venue =
     (case vn_minimum venue of None \<Rightarrow> tret (venue, [])
      | Some minutes \<Rightarrow>
          if \<not> vn_active venue then tret (venue, [])
          else
            tbind (tenv e_intl) (\<lambda>fmt.
            tbind (tlift price_err (opening_intervals fmt rng (vn_timezone venue) (vn_hours venue))) (\<lambda>openings.
            tbind (tenv bookable_order) (\<lambda>le.
            tbind (tread (\<lambda>d. sort_by le (priced_courts (ac_tenant a) venue_id d))) (\<lambda>cs.
            tbind (tread (occupied_rows (ac_tenant a) venue_id p)) (\<lambda>occ.
            tbind (tlift IntervalErr (mapE (court_availability openings occ minutes)
              (filter (\<lambda>c. is_court_ready_for_booking (court_purchase_info c)) cs))) (\<lambda>found.
            tret (venue, found))))))))"

definition range_check :: "court_interval \<Rightarrow> err + parsed_interval" where
  "range_check rng = (case parse_court_interval rng of Inl e \<Rightarrow> Inl (IntervalErr e) | Inr p \<Rightarrow> Inr p)"

definition find_available_courts ::
  "actor \<Rightarrow> string \<Rightarrow> court_interval \<Rightarrow> (venue_row \<times> (court_row \<times> court_interval list) list) op" where
  "find_available_courts a venue_id rng =
     checked (range_check rng) (\<lambda>p.
     with_tenant_transaction a
       (tseq (require_venue_permission a venue_id PRead)
       (tbind (venue_in_transaction a venue_id) (venue_availability a venue_id rng p))))"

record matching =
  mt_sufficient :: bool
  mt_requested :: int
  mt_available :: int
  mt_candidates :: "court_row list"

definition map_op :: "('a \<Rightarrow> 'b) \<Rightarrow> 'a op \<Rightarrow> 'b op" where
  "map_op f m E d = (case m E d of (Inl e, d') \<Rightarrow> (Inl e, d') | (Inr x, d') \<Rightarrow> (Inr (f x), d'))"

definition serves :: "parsed_interval \<Rightarrow> court_interval \<Rightarrow> bool" where
  "serves p free \<longleftrightarrow>
     (case (iso_instant (start_at free), iso_instant (end_at free)) of
        (Some s, Some e) \<Rightarrow> s \<le> fst p \<and> e \<ge> snd p | _ \<Rightarrow> False)"

definition match_courts ::
  "int \<Rightarrow> parsed_interval \<Rightarrow> venue_row \<times> (court_row \<times> court_interval list) list \<Rightarrow> matching" where
  "match_courts requested p availability =
     (let candidates = map fst (filter (\<lambda>item. list_ex (serves p) (snd item)) (snd availability))
      in \<lparr>mt_sufficient = int (length candidates) \<ge> requested, mt_requested = requested,
          mt_available = int (length candidates), mt_candidates = candidates\<rparr>)"

definition find_matching_courts :: "actor \<Rightarrow> string \<Rightarrow> court_interval \<Rightarrow> int \<Rightarrow> matching op" where
  "find_matching_courts a venue interval requested =
     checked (bindE (guardE (\<not> (\<not> is_safe requested \<or> requested < 1 \<or> requested > 100)) (CatalogErr InvalidSelection)) (\<lambda>_.
         range_check interval)) (\<lambda>p.
     map_op (match_courts requested p) (find_available_courts a venue interval))"

section \<open>The price of a selection\<close>

record selection_line = court_interval +
  sl_court :: string

fun lines_clash :: "(string \<times> parsed_interval) list \<Rightarrow> bool" where
  "lines_clash [] = False"
| "lines_clash (x # xs) = (list_ex (\<lambda>y. fst x = fst y \<and> overlapping (snd x) (snd y)) xs \<or> lines_clash xs)"

definition line_interval :: "selection_line \<Rightarrow> interval_error + string \<times> parsed_interval" where
  "line_interval l = bindE (parse_court_interval \<lparr>start_at = start_at l, end_at = end_at l\<rparr>) (\<lambda>p. Inr (sl_court l, p))"

definition line_input :: "venue_row \<Rightarrow> discount_rule list \<Rightarrow> string \<Rightarrow> court_row \<Rightarrow> selection_line \<Rightarrow> price_input" where
  "line_input venue discounts venue_id c l =
     \<lparr>pi_court = ct_id c, pi_venue = venue_id, pi_timezone = vn_timezone venue, pi_hourly = ct_hourly c,
       pi_minimum = vn_minimum venue, pi_hours = vn_hours venue,
       pi_interval = \<lparr>start_at = start_at l, end_at = end_at l\<rparr>, pi_discounts = discounts\<rparr>"

definition price_line ::
  "actor \<Rightarrow> string \<Rightarrow> bool \<Rightarrow> venue_row \<Rightarrow> discount_rule list \<Rightarrow> selection_line \<Rightarrow> court_price tx" where
  "price_line a venue_id existing_quote venue discounts l =
     tbind (court_in_transaction a venue_id (sl_court l)) (\<lambda>c.
     tseq (tguard (ct_active c) (AccessErr ResourceUnavailable))
     (tbind (tenv e_intl) (\<lambda>fmt.
      tbind (tlift price_err (price_court_interval fmt (line_input venue discounts venue_id c l))) (\<lambda>price.
      tseq (tguard (\<not> (\<not> existing_quote \<and> missing_court_purchase_fields (court_purchase_info c) \<noteq> []))
          (CatalogErr CourtDetailsIncomplete))
        (tret price)))))"

definition price_selection_in_transaction ::
  "actor \<Rightarrow> string \<Rightarrow> selection_line list \<Rightarrow> bool \<Rightarrow> priced_selection tx" where
  "price_selection_in_transaction a venue_id lines existing_quote =
     tseq (tguard (\<not> (length lines = 0 \<or> length lines > 100)) (CatalogErr InvalidSelection))
     (tbind (tlift IntervalErr (mapE line_interval lines)) (\<lambda>parsed.
      tseq (tguard (\<not> lines_clash parsed) (CatalogErr InvalidSelection))
      (tbind (venue_in_transaction a venue_id) (\<lambda>venue.
       tseq (tguard (vn_active venue) (AccessErr ResourceUnavailable))
       (tbind (discounts_in_transaction a venue_id) (\<lambda>rows.
        let discounts = map ds_rule (filter ds_active rows) in
        tbind (tmap (price_line a venue_id existing_quote venue discounts) lines) (\<lambda>priced.
        let tot = sum_list (map cp_total priced) in
        tseq (tlift PricingErr (assert_cents tot))
        (tret \<lparr>ps_venue = venue_id, ps_revision = vn_revision venue, ps_total = tot, ps_lines = priced\<rparr>))))))))"

definition price_selection :: "actor \<Rightarrow> string \<Rightarrow> selection_line list \<Rightarrow> priced_selection op" where
  "price_selection a venue_id lines =
     with_tenant_transaction a
       (tseq (require_venue_permission a venue_id PRead) (price_selection_in_transaction a venue_id lines False))"

section \<open>The searches only read\<close>

lemma reads_price_line [reads_intros]: "reads_only (price_line a v q venue ds l)"
  unfolding price_line_def by (intro reads_intros)

lemma reads_price_selection [reads_intros]: "reads_only (price_selection_in_transaction a v ls q)"
  unfolding price_selection_in_transaction_def Let_def by (intro reads_intros)

lemma reads_venue_availability [reads_intros]: "reads_only (venue_availability a v r p venue)"
  unfolding venue_availability_def by (intro reads_intros)

lemma op_keeps_map_op [keeps_intros]: "op_keeps I m \<Longrightarrow> op_keeps I (map_op f m)"
proof -
  have "snd (map_op f m E d) = snd (m E d)" for E d
    by (cases "m E d") (auto simp: map_op_def split: sum.splits)
  then show "op_keeps I m \<Longrightarrow> ?thesis" by (simp add: op_keeps_def)
qed

context catalog_writes
begin

lemma find_available_courts_inv: "op_keeps I (find_available_courts a v r)"
  unfolding find_available_courts_def
  by (intro keeps_intros op_keeps_tenant keeps_base keeps_catalog_reads keeps_reading [OF reads_venue_availability])

lemma find_matching_courts_inv: "op_keeps I (find_matching_courts a v i n)"
  unfolding find_matching_courts_def by (intro keeps_intros find_available_courts_inv)

lemma price_selection_inv: "op_keeps I (price_selection a v ls)"
  unfolding price_selection_def
  by (intro op_keeps_tenant keeps_intros keeps_base keeps_reading [OF reads_price_selection])

end

end
