(* ===== verification/Matching.thy ===== *)
theory Matching
  imports Selling
begin

text \<open>
  The search for courts that can serve an interval is exact. The proof goes through the string
  interfaces of the code: opening hours and free intervals are rendered to ISO strings and
  parsed again on the way.
\<close>

section \<open>Ends of free intervals\<close>

lemma free_from_ends:
  assumes "P c" "P (snd w)" "\<forall>b\<in>set bs. P (fst b) \<and> P (snd b)"
  shows "\<forall>p\<in>set (free_from w c bs). P (fst p) \<and> P (snd p)"
  using assms
proof (induction w c bs rule: free_from.induct)
  case (2 w c b bs)
  show ?case
  proof (cases "snd b \<le> c \<or> fst b \<ge> snd w")
    case False
    then have "P (min (snd w) (max c (snd b)))" using 2(3-5) by (simp add: min_def max_def)
    then show ?thesis using False 2(2) [OF False] 2(3-5) by auto
  qed (use 2 in simp)
qed simp

lemma free_intervals_ends:
  "P (fst w) \<Longrightarrow> P (snd w) \<Longrightarrow> \<forall>b\<in>set occ. P (fst b) \<and> P (snd b) \<Longrightarrow>
     \<forall>p\<in>set (free_intervals w occ). P (fst p) \<and> P (snd p)"
  unfolding free_intervals_def by (rule free_from_ends) simp_all

text \<open>Instants on the quarter-hour grid that ISO strings with a four-digit year can name.\<close>

definition on_grid :: "instant \<Rightarrow> bool" where
  "on_grid t \<longleftrightarrow> t mod 900000 = 0 \<and> four_digit_year (day_of t)"

lemma on_grid_instant: "on_grid t \<Longrightarrow> minute_instant (to_iso_string t) = Inr t"
  by (rule minute_instant_to_iso) (auto simp: on_grid_def grid_minute step_ms_def)

lemma on_grid_iso: "on_grid t \<Longrightarrow> iso_instant (to_iso_string t) = Some t"
  by (simp add: iso_instant_def on_grid_instant)

lemma parse_render:
  "on_grid (fst p) \<Longrightarrow> on_grid (snd p) \<Longrightarrow> fst p < snd p \<Longrightarrow> parse_court_interval (render p) = Inr p"
  by (simp add: parse_court_interval_def render_def on_grid_instant check_interval_def) (simp add: on_grid_def)

lemma mapE_cong_Inr: "(\<And>x. x \<in> set xs \<Longrightarrow> f x = Inr (g x)) \<Longrightarrow> mapE f xs = Inr (map g xs)"
  by (induction xs) auto

definition grid_row :: "occupancy_row \<Rightarrow> bool" where
  "grid_row r \<longleftrightarrow> on_grid (oc_start r) \<and> on_grid (oc_end r) \<and> oc_start r < oc_end r"

definition row_span :: "occupancy_row \<Rightarrow> parsed_interval" where
  "row_span r = (oc_start r, oc_end r)"

lemma parse_blocks:
  assumes "\<forall>r\<in>set occ. grid_row r"
  shows "mapE parse_court_interval (court_blocks occ c) =
    Inr (map row_span (filter (\<lambda>r. oc_court r = ct_id c) occ))"
proof -
  have eq: "court_blocks occ c = map render (map row_span (filter (\<lambda>r. oc_court r = ct_id c) occ))"
    by (simp add: court_blocks_def render_def row_span_def)
  have parse: "mapE parse_court_interval (map render ps) = Inr ps"
    if "\<forall>p\<in>set ps. on_grid (fst p) \<and> on_grid (snd p) \<and> fst p < snd p" for ps
    using that by (induction ps) (simp_all add: parse_render)
  show ?thesis unfolding eq by (rule parse) (use assms in \<open>auto simp: grid_row_def row_span_def\<close>)
qed

section \<open>One opening interval and one court\<close>

lemma serves_render:
  "on_grid (fst q) \<Longrightarrow> on_grid (snd q) \<Longrightarrow> serves p (render q) \<longleftrightarrow> fst q \<le> fst p \<and> snd p \<le> snd q"
  by (simp add: serves_def render_def on_grid_iso)

lemma long_render:
  "on_grid (fst q) \<Longrightarrow> on_grid (snd q) \<Longrightarrow> long_enough m (render q) \<longleftrightarrow> m * 60000 \<le> snd q - fst q"
  by (simp add: long_enough_def render_def on_grid_iso)

lemma on_grid_between: "s mod 900000 = 0 \<Longrightarrow> e mod 900000 = 0 \<Longrightarrow> four_digit_year (day_of s) \<Longrightarrow>
   four_digit_year (day_of e) \<Longrightarrow> s \<le> t \<Longrightarrow> t \<le> e \<Longrightarrow> t mod 900000 = 0 \<Longrightarrow> on_grid t"
  using four_digit_between [of s e t] by (simp add: on_grid_def)

lemma free_of_opening:
  assumes p: "on_grid (fst p)" "on_grid (snd p)" "fst p < snd p"
    and occ: "\<forall>r\<in>set occ. grid_row r"
  shows "available_court_intervals (render p) (court_blocks occ c) =
      Inr (map render (free_intervals p (map row_span (filter (\<lambda>r. oc_court r = ct_id c) occ))))"
    and "\<forall>q\<in>set (free_intervals p (map row_span (filter (\<lambda>r. oc_court r = ct_id c) occ))).
      on_grid (fst q) \<and> on_grid (snd q) \<and> fst p \<le> fst q \<and> fst q < snd q \<and> snd q \<le> snd p"
proof -
  let ?bs = "map row_span (filter (\<lambda>r. oc_court r = ct_id c) occ)"
  show "available_court_intervals (render p) (court_blocks occ c) = Inr (map render (free_intervals p ?bs))"
    by (simp add: available_court_intervals_def parse_render [OF p] parse_blocks [OF occ])
  have b: "\<forall>b\<in>set ?bs. fst b < snd b" "\<forall>b\<in>set ?bs. on_grid (fst b) \<and> on_grid (snd b)"
    using occ by (auto simp: grid_row_def row_span_def)
  show "\<forall>q\<in>set (free_intervals p ?bs).
      on_grid (fst q) \<and> on_grid (snd q) \<and> fst p \<le> fst q \<and> fst q < snd q \<and> snd q \<le> snd p"
    using free_intervals_ends [where P = on_grid, OF p(1,2) b(2)] free_intervals_ordered(1) [OF b(1), of p] by blast
qed

text \<open>The whole range is one free interval exactly when nothing occupies the court.\<close>

lemma whole_free_iff:
  assumes "fst w < snd w" "\<forall>b\<in>set bs. fst b < snd b \<and> overlapping b w"
  shows "w \<in> set (free_intervals w bs) \<longleftrightarrow> bs = []"
proof
  assume w: "w \<in> set (free_intervals w bs)"
  show "bs = []"
  proof (rule ccontr)
    assume "bs \<noteq> []"
    then obtain b where b: "b \<in> set bs" by (cases bs) auto
    have "span w \<subseteq> spans (free_intervals w bs)" using w by (auto simp: spans_def)
    then have "span w \<inter> span b = {}"
      using free_intervals_spans [of bs w] assms b by (auto simp: spans_def)
    then show False using overlapping_span [of b w] assms b by auto
  qed
qed (use assms in \<open>simp add: free_intervals_def\<close>)

text \<open>Separate intervals that cover a whole interval are that interval.\<close>

lemma whole_cover:
  assumes sep: "sorted_wrt (\<lambda>p q. snd p < fst q) ps" and cover: "spans ps = span (s, e)" and "s < (e::int)"
    and inside: "\<forall>p\<in>set ps. s \<le> fst p \<and> fst p < snd p \<and> snd p \<le> e"
  shows "(s, e) \<in> set ps"
proof -
  have "s \<in> spans ps" using cover assms(3) by (simp add: span_def)
  then obtain p where p: "p \<in> set ps" "fst p \<le> s" "s < snd p" by (auto simp: spans_def span_def)
  have "snd p = e"
  proof (rule ccontr)
    assume "snd p \<noteq> e"
    then have "snd p \<in> spans ps" using cover inside p by (auto simp: span_def)
    then obtain q where q: "q \<in> set ps" "fst q \<le> snd p" "snd p < snd q" by (auto simp: spans_def span_def)
    obtain i j where "i < length ps" "j < length ps" "ps ! i = p" "ps ! j = q" using p(1) q(1) by (metis in_set_conv_nth)
    moreover from this have "i \<noteq> j" using q(3) by auto
    ultimately have "snd p < fst q \<or> snd q < fst p" using sep by (metis linorder_neqE_nat sorted_wrt_nth_less)
    then show False using q p inside by (metis less_le_trans not_less order_less_trans)
  qed
  moreover have "fst p = s" using p inside by force
  ultimately show ?thesis using p(1) by (metis prod.collapse)
qed

lemma court_availability_serves:
  assumes av: "court_availability (map render ps) occ m c = Inr (c', frees)"
    and ps: "sorted_wrt (\<lambda>p q. snd p < fst q) ps"
      "\<forall>p\<in>set ps. s \<le> fst p \<and> fst p < snd p \<and> snd p \<le> e \<and> on_grid (fst p) \<and> on_grid (snd p)"
    and occ: "\<forall>r\<in>set occ. grid_row r \<and> overlapping (row_span r) (s, e)" and "s < e" "on_grid s" "on_grid e"
  shows "c' = c \<and> (list_ex (serves (s, e)) frees \<longleftrightarrow>
     spans ps = span (s, e) \<and> m * 60000 \<le> e - s \<and> (\<forall>r\<in>set occ. oc_court r \<noteq> ct_id c))"
proof -
  let ?bs = "map row_span (filter (\<lambda>r. oc_court r = ct_id c) occ)"
  have g: "\<forall>r\<in>set occ. grid_row r" using occ by blast
  have "mapE (\<lambda>opening. available_court_intervals opening (court_blocks occ c)) (map render ps)
      = Inr (map (\<lambda>p. map render (free_intervals p ?bs)) ps)"
    using ps(2) by (induction ps) (simp_all add: free_of_opening(1) [OF _ _ _ g])
  then have c: "c' = c" and fr: "frees = filter (long_enough m) (concat (map (\<lambda>p. map render (free_intervals p ?bs)) ps))"
    using av by (auto simp: court_availability_def)
  have q: "on_grid (fst q) \<and> on_grid (snd q) \<and> s \<le> fst q \<and> fst q < snd q \<and> snd q \<le> e"
    "fst p \<le> fst q \<and> snd q \<le> snd p"
    if "p \<in> set ps" "q \<in> set (free_intervals p ?bs)" for p q
    using free_of_opening(2) [OF _ _ _ g] ps(2) that by (meson order_trans)+
  have sv: "serves (s, e) (render q) \<and> long_enough m (render q) \<longleftrightarrow> q = (s, e) \<and> m * 60000 \<le> e - s"
    if "p \<in> set ps" "q \<in> set (free_intervals p ?bs)" for p q
    using q [OF that] by (cases q) (auto simp: serves_render long_render)
  have eq: "p = (s, e)" if "p \<in> set ps" "(s, e) \<in> set (free_intervals p ?bs)" for p
    using q(2) [OF that] ps(2) that(1) by (cases p) force
  have "list_ex (serves (s, e)) frees \<longleftrightarrow> (\<exists>p\<in>set ps. \<exists>q\<in>set (free_intervals p ?bs).
      serves (s, e) (render q) \<and> long_enough m (render q))"
    unfolding fr by (auto simp: list_ex_iff)
  also have "\<dots> \<longleftrightarrow> (s, e) \<in> set ps \<and> (s, e) \<in> set (free_intervals (s, e) ?bs) \<and> m * 60000 \<le> e - s"
    using sv eq by (metis (no_types, lifting))
  also have "(s, e) \<in> set (free_intervals (s, e) ?bs) \<longleftrightarrow> ?bs = []"
    by (rule whole_free_iff) (use occ \<open>s < e\<close> in \<open>auto simp: grid_row_def row_span_def\<close>)
  also have "?bs = [] \<longleftrightarrow> (\<forall>r\<in>set occ. oc_court r \<noteq> ct_id c)" by (auto simp: filter_empty_conv)
  also have "(s, e) \<in> set ps \<longleftrightarrow> spans ps = span (s, e)"
  proof
    assume "(s, e) \<in> set ps"
    then show "spans ps = span (s, e)" using ps(2) by (auto simp: spans_def span_def)
  next
    assume "spans ps = span (s, e)"
    then show "(s, e) \<in> set ps" using whole_cover [OF ps(1) _ \<open>s < e\<close>] ps(2) by blast
  qed
  finally show ?thesis using c by blast
qed

section \<open>The search\<close>

lemma mapE_item: "mapE f xs = Inr ys \<Longrightarrow> (\<exists>y\<in>set ys. P y) \<longleftrightarrow> (\<exists>x\<in>set xs. \<exists>y. f x = Inr y \<and> P y)"
proof (induction xs arbitrary: ys)
  case (Cons x xs)
  then show ?case by (auto simp: ok_iff)
qed simp

lemma mapE_Inr_in: "mapE f xs = Inr ys \<Longrightarrow> x \<in> set xs \<Longrightarrow> \<exists>y. f x = Inr y"
  by (induction xs arbitrary: ys) (auto simp: ok_iff)

lemma found_candidates:
  assumes found: "mapE (court_availability (map render ps) occ m) cs = Inr found"
    and "sorted_wrt (\<lambda>p q. snd p < fst q) ps"
      "\<forall>p\<in>set ps. s \<le> fst p \<and> fst p < snd p \<and> snd p \<le> e \<and> on_grid (fst p) \<and> on_grid (snd p)"
    and "\<forall>r\<in>set occ. grid_row r \<and> overlapping (row_span r) (s, e)" "s < e" "on_grid s" "on_grid e"
  shows "c \<in> set (map fst (filter (\<lambda>item. list_ex (serves (s, e)) (snd item)) found)) \<longleftrightarrow>
     c \<in> set cs \<and> spans ps = span (s, e) \<and> m * 60000 \<le> e - s \<and> (\<forall>r\<in>set occ. oc_court r \<noteq> ct_id c)"
proof -
  have "c \<in> set (map fst (filter (\<lambda>item. list_ex (serves (s, e)) (snd item)) found))
      \<longleftrightarrow> (\<exists>y\<in>set found. fst y = c \<and> list_ex (serves (s, e)) (snd y))" by auto
  also have "\<dots> \<longleftrightarrow> (\<exists>x\<in>set cs. \<exists>y. court_availability (map render ps) occ m x = Inr y \<and>
      fst y = c \<and> list_ex (serves (s, e)) (snd y))"
    by (rule mapE_item [OF found])
  also have "\<dots> \<longleftrightarrow> c \<in> set cs \<and> (\<exists>frees. court_availability (map render ps) occ m c = Inr (c, frees) \<and>
      list_ex (serves (s, e)) frees)"
  proof -
    have own: "fst y = x" if "court_availability (map render ps) occ m x = Inr y" for x y
      using court_availability_serves [of ps occ m x "fst y" "snd y", OF _ assms(2-7)] that by simp
    show ?thesis
    proof
      assume "\<exists>x\<in>set cs. \<exists>y. court_availability (map render ps) occ m x = Inr y \<and> fst y = c \<and> list_ex (serves (s, e)) (snd y)"
      then obtain x y where xy: "x \<in> set cs" "court_availability (map render ps) occ m x = Inr y" "fst y = c"
        "list_ex (serves (s, e)) (snd y)" by (elim bexE exE conjE) (rule that)
      have x: "x = c" using own [OF xy(2)] xy(3) by simp
      obtain frees where y: "y = (c, frees)" using xy(3) by (cases y) simp
      show "c \<in> set cs \<and> (\<exists>frees. court_availability (map render ps) occ m c = Inr (c, frees) \<and> list_ex (serves (s, e)) frees)"
        using xy(1,2,4) unfolding x y by auto
    qed (elim conjE exE, intro bexI exI conjI, assumption, simp_all)
  qed
  also have "\<dots> \<longleftrightarrow> c \<in> set cs \<and> spans ps = span (s, e) \<and> m * 60000 \<le> e - s \<and> (\<forall>r\<in>set occ. oc_court r \<noteq> ct_id c)"
  proof (cases "c \<in> set cs")
    case True
    then obtain y where "court_availability (map render ps) occ m c = Inr y"
      using mapE_Inr_in [OF found] by blast
    then obtain c' frees where y: "court_availability (map render ps) occ m c = Inr (c', frees)"
      by (cases y) simp
    then show ?thesis using court_availability_serves [OF y assms(2-7)] by auto
  qed simp
  finally show ?thesis .
qed

lemma opening_intervals_shape:
  assumes "opening_intervals fmt i tz ws = Inr ivs" "parse_court_interval i = Inr (s, e)" "on_grid s" "on_grid e"
  obtains ps where "ivs = map render ps" "sorted_wrt (\<lambda>p q. snd p < fst q) ps"
    "\<forall>p\<in>set ps. s \<le> fst p \<and> fst p < snd p \<and> snd p \<le> e \<and> on_grid (fst p) \<and> on_grid (snd p)"
    "is_within_opening_hours fmt i tz ws = Inr True \<longleftrightarrow> spans ps = span (s, e)"
proof -
  obtain local where cal: "calendar fmt tz = Inr local"
    using assms(1) by (auto simp: opening_intervals_def ok_iff)
  have y: "four_digit_year (day_of s)" "four_digit_year (day_of e)" using assms(3,4) by (simp_all add: on_grid_def)
  obtain ps where ps: "ivs = map render ps" "sorted_wrt (\<lambda>p q. snd p < fst q) ps"
    "is_within_opening_hours fmt i tz ws = Inr True \<longleftrightarrow> spans ps = span (s, e)"
    "\<forall>p\<in>set ps. s \<le> fst p \<and> fst p < snd p \<and> snd p \<le> e \<and> fst p mod step_ms = 0 \<and> snd p mod step_ms = 0"
    using opening_intervals_spec [OF assms(1,2) cal y] by blast
  have g: "on_grid t" if "s \<le> t" "t \<le> e" "t mod step_ms = 0" for t
    using on_grid_between [of s e t] assms(3,4) that by (simp add: on_grid_def step_ms_def)
  have "\<forall>p\<in>set ps. s \<le> fst p \<and> fst p < snd p \<and> snd p \<le> e \<and> on_grid (fst p) \<and> on_grid (snd p)"
    using ps(4) g by (meson less_imp_le order_trans)
  then show ?thesis using ps that by blast
qed

definition can_serve :: "env \<Rightarrow> db \<Rightarrow> actor \<Rightarrow> string \<Rightarrow> court_interval \<Rightarrow> parsed_interval \<Rightarrow> venue_row \<Rightarrow> court_row \<Rightarrow> bool" where
  "can_serve E d a v i p venue c \<longleftrightarrow>
     c \<in> set (courts d) \<and> ct_tenant c = ac_tenant a \<and> ct_venue c = v \<and> ct_active c \<and> vn_active venue \<and>
     is_court_ready_for_booking (court_purchase_info c) \<and>
     (\<exists>m. vn_minimum venue = Some m \<and> m * 60000 \<le> snd p - fst p) \<and>
     is_within_opening_hours (e_intl E) i (vn_timezone venue) (vn_hours venue) = Inr True \<and>
     (\<forall>r\<in>set (occupancies d). oc_tenant r = ac_tenant a \<longrightarrow> \<not> occupies (ct_id c) (fst p) (snd p) r)"

lemma ready_priced: "is_court_ready_for_booking (court_purchase_info c) \<Longrightarrow> ct_hourly c \<noteq> None"
  by (auto simp: ready_iff)

lemma priced_courts_ready:
  "c \<in> set (priced_courts t v d) \<and> is_court_ready_for_booking (court_purchase_info c) \<longleftrightarrow>
     c \<in> set (courts d) \<and> ct_tenant c = t \<and> ct_venue c = v \<and> ct_active c \<and> is_court_ready_for_booking (court_purchase_info c)"
  using ready_priced by (auto simp: priced_courts_def)

lemma occupied_free:
  assumes "c \<in> set (courts d)" "ct_tenant c = t" "ct_venue c = v"
  shows "(\<forall>r\<in>set (occupied_rows t v (s, e) d). oc_court r \<noteq> ct_id c) \<longleftrightarrow>
     (\<forall>r\<in>set (occupancies d). oc_tenant r = t \<longrightarrow> \<not> occupies (ct_id c) s e r)"
proof -
  have k: "court_of_venue d t v (ct_id c)" using assms by (auto simp: court_of_venue_def list_ex_iff)
  have "r \<in> set (occupied_rows t v (s, e) d) \<and> oc_court r = ct_id c \<longleftrightarrow>
      r \<in> set (occupancies d) \<and> oc_tenant r = t \<and> occupies (ct_id c) s e r" for r
    using k by (cases "oc_court r = ct_id c") (auto simp: occupied_rows_def occupies_def)
  then show ?thesis by blast
qed

lemma venue_availability_candidates:
  assumes run: "venue_availability a v i (s, e) venue E d = Inr ((venue', found), d')"
    and parse: "parse_court_interval i = Inr (s, e)" and g: "on_grid s" "on_grid e"
    and rows: "\<forall>r\<in>set (occupancies d). oc_released r = None \<longrightarrow> grid_row r"
  shows "venue' = venue \<and>
    (c \<in> set (map fst (filter (\<lambda>item. list_ex (serves (s, e)) (snd item)) found)) \<longleftrightarrow> can_serve E d a v i (s, e) venue c)"
proof (cases "\<exists>m. vn_minimum venue = Some m \<and> vn_active venue")
  case False
  then have "found = []" "venue' = venue"
    using run by (auto simp: venue_availability_def ok_iff split: option.splits)
  then show ?thesis using False by (auto simp: can_serve_def)
next
  case True
  then obtain m where m: "vn_minimum venue = Some m" "vn_active venue" by blast
  let ?occ = "occupied_rows (ac_tenant a) v (s, e) d"
  let ?cs = "sort_by (bookable_order E) (priced_courts (ac_tenant a) v d)"
  obtain ivs where ivs: "opening_intervals (e_intl E) i (vn_timezone venue) (vn_hours venue) = Inr ivs"
    and found: "mapE (court_availability ivs ?occ m)
      (filter (\<lambda>c. is_court_ready_for_booking (court_purchase_info c)) ?cs) = Inr found" and ve: "venue' = venue"
    using run m by (auto simp: venue_availability_def ok_iff)
  obtain ps where ps: "ivs = map render ps" "sorted_wrt (\<lambda>p q. snd p < fst q) ps"
    "\<forall>p\<in>set ps. s \<le> fst p \<and> fst p < snd p \<and> snd p \<le> e \<and> on_grid (fst p) \<and> on_grid (snd p)"
    "is_within_opening_hours (e_intl E) i (vn_timezone venue) (vn_hours venue) = Inr True \<longleftrightarrow> spans ps = span (s, e)"
    using opening_intervals_shape [OF ivs parse g] by blast
  have occ: "\<forall>r\<in>set ?occ. grid_row r \<and> overlapping (row_span r) (s, e)"
    using rows by (auto simp: occupied_rows_def overlapping_def row_span_def)
  have se: "s < e" using parse_grid [OF parse] by simp
  note cand = found_candidates [OF found [unfolded ps(1)] ps(2,3) occ se g, of c]
  show ?thesis
  proof (cases "c \<in> set (courts d) \<and> ct_tenant c = ac_tenant a \<and> ct_venue c = v \<and> ct_active c \<and>
      is_court_ready_for_booking (court_purchase_info c)")
    case True
    then have "c \<in> set (filter (\<lambda>c. is_court_ready_for_booking (court_purchase_info c)) ?cs)"
      using priced_courts_ready by simp
    then show ?thesis
      unfolding cand can_serve_def using True occupied_free [of c d "ac_tenant a" v s e] m ps(4) ve by auto
  next
    case False
    then have "c \<notin> set (filter (\<lambda>c. is_court_ready_for_booking (court_purchase_info c)) ?cs)"
      using priced_courts_ready [of c "ac_tenant a" v d] by simp
    then show ?thesis unfolding cand can_serve_def using False ve by blast
  qed
qed

lemma can_serve_same: "same_tables d d' \<Longrightarrow> can_serve E d' a v i p venue c = can_serve E d a v i p venue c"
  by (auto simp: same_tables_def can_serve_def)

lemma find_available_candidates:
  assumes run: "find_available_courts a v i E d = (Inr (venue, found), d')"
    and parse: "parse_court_interval i = Inr (s, e)" and g: "on_grid s" "on_grid e"
    and rows: "\<forall>r\<in>set (occupancies d). oc_released r = None \<longrightarrow> grid_row r"
  shows "find_venue (ac_tenant a) v d = Some venue \<and>
    (c \<in> set (map fst (filter (\<lambda>item. list_ex (serves (s, e)) (snd item)) found)) \<longleftrightarrow> can_serve E d a v i (s, e) venue c)"
proof -
  let ?d = "d\<lparr>ticks := 0, uuids := 0\<rparr>"
  have "tseq (require_tenant_permission a PRead None) (tseq (require_venue_permission a v PRead)
       (tbind (venue_in_transaction a v) (venue_availability a v i (s, e)))) E ?d = Inr ((venue, found), d')"
    using run by (simp add: find_available_courts_def checked_def range_check_def parse with_tenant_transaction_def run_tx_Inr)
  then obtain u1 d1 u2 d2 venue' where "require_tenant_permission a PRead None E ?d = Inr (u1, d1)"
      "require_venue_permission a v PRead E d1 = Inr (u2, d2)"
      and v: "find_venue (ac_tenant a) v d2 = Some venue'"
      and av: "venue_availability a v i (s, e) venue' E d2 = Inr ((venue, found), d')"
    by (auto simp: ok_iff venue_in_transaction_def)
  then have same: "same_tables ?d d2"
    by (meson reads_onlyD reads_require_tenant_permission reads_require_venue_permission same_tables_trans)
  have "venue = venue' \<and>
    (c \<in> set (map fst (filter (\<lambda>item. list_ex (serves (s, e)) (snd item)) found)) \<longleftrightarrow> can_serve E d2 a v i (s, e) venue' c)"
    by (rule venue_availability_candidates [OF av parse g]) (use rows same in \<open>auto simp: same_tables_def\<close>)
  moreover have "can_serve E d2 a v i (s, e) venue' c = can_serve E d a v i (s, e) venue' c"
    unfolding can_serve_same [OF same] by (simp add: can_serve_def)
  moreover have "find_venue (ac_tenant a) v d = Some venue'"
    using v same by (auto simp: same_tables_def find_venue_def)
  ultimately show ?thesis by blast
qed

text \<open>
  C12: The search for courts is exact: a court is a candidate for an interval precisely when it is
  an active, sellable court of the venue, the venue is active and open during the whole
  interval in its time zone, the interval is not shorter than the venue's minimum, and no
  unreleased occupancy of the tenant overlaps it on that court; and the answer says truly how
  many there are and whether they suffice.
\<close>

theorem matching_exact:
  assumes "find_matching_courts a v i n E d = (Inr r, d')" "parse_court_interval i = Inr (s, e)"
    and "on_grid s" "on_grid e" "\<forall>o'\<in>set (occupancies d). oc_released o' = None \<longrightarrow> grid_row o'"
  shows "\<exists>venue. find_venue (ac_tenant a) v d = Some venue \<and>
     set (mt_candidates r) = {c. can_serve E d a v i (s, e) venue c} \<and>
     mt_available r = int (length (mt_candidates r)) \<and> (mt_sufficient r \<longleftrightarrow> n \<le> mt_available r)"
proof -
  obtain venue found where f: "find_available_courts a v i E d = (Inr (venue, found), d')"
    and r: "r = match_courts n (s, e) (venue, found)"
    using assms(1,2) by (auto simp: find_matching_courts_def checked_def range_check_def map_op_def bindE_def guardE_def
        split: if_splits sum.splits prod.splits)
  show ?thesis
    using find_available_candidates [OF f assms(2-5)] unfolding r
    by (intro exI [of _ venue]) (auto simp: match_courts_def Let_def)
qed

lemma sample_parse: "parse_court_interval sample_interval = Inr (1772416800000, 1772420400000)"
  by code_simp

theorem matching_exact_witness:
  "\<exists>r d' venue. find_matching_courts sample_admin ''v'' sample_interval 2 sample_env sample_db = (Inr r, d') \<and>
     find_venue ''t'' ''v'' sample_db = Some venue \<and>
     set (mt_candidates r) = {c. can_serve sample_env sample_db sample_admin ''v'' sample_interval (1772416800000, 1772420400000) venue c} \<and>
     mt_available r = 2"
proof -
  have "map_prod (map_sum id (\<lambda>r. map ct_id (mt_candidates r))) (\<lambda>_. ())
      (find_matching_courts sample_admin ''v'' sample_interval 2 sample_env sample_db) = (Inr [''c1'', ''c2''], ())"
    by code_simp
  from result_view [OF this] obtain r d' where r: "find_matching_courts sample_admin ''v'' sample_interval 2 sample_env sample_db = (Inr r, d')"
      "map ct_id (mt_candidates r) = [''c1'', ''c2'']"
    by (elim exE conjE) (rule that)
  have "on_grid 1772416800000" "on_grid 1772420400000" by code_simp+
  note matching_exact [OF r(1) sample_parse this]
  moreover have "\<forall>o'\<in>set (occupancies sample_db). oc_released o' = None \<longrightarrow> grid_row o'"
    by (simp add: sample_db_def empty_db_def)
  moreover have "length (mt_candidates r) = 2" using arg_cong [OF r(2), of length] by simp
  ultimately show ?thesis using r(1) by (simp add: sample_admin_def) blast
qed

end
