(* ===== verification/WalletStore.thy ===== *)
theory WalletStore
  imports Customers WalletDebit
begin

text \<open>
  packages/db/src/tennis/wallet-store.ts and wallet.ts: the wallet of a customer as batches of
  principal and gift money, the reservation of a payment's share, its release or consumption,
  the journal of entries, and the top-up recorded by staff. The keys and CHECK constraints of
  wallet_batches, wallet_allocations and wallet_entries and their foreign keys to the batch are
  part of the writes. Batches are kept in credit order, which is the order of insertion.
\<close>

section \<open>Writes\<close>

definition batch_key :: "string \<Rightarrow> string \<Rightarrow> string \<Rightarrow> batch_row \<Rightarrow> bool" where
  "batch_key t c i r \<longleftrightarrow> wr_tenant r = t \<and> wr_customer r = c \<and> wr_id r = i"

definition batch_checks :: "batch_row \<Rightarrow> bool" where
  "batch_checks r \<longleftrightarrow>
     0 \<le> wr_principal r \<and> 0 \<le> wr_gift r \<and> 0 \<le> wr_avail_principal r \<and> 0 \<le> wr_avail_gift r \<and>
     0 \<le> wr_res_principal r \<and> 0 \<le> wr_res_gift r \<and>
     0 < wr_principal r + wr_gift r \<and> wr_principal r + wr_gift r \<le> max_safe \<and>
     wr_avail_principal r + wr_res_principal r \<le> wr_principal r \<and> wr_avail_gift r + wr_res_gift r \<le> wr_gift r"

definition lock_wallet :: "string \<Rightarrow> string \<Rightarrow> unit tx" where
  "lock_wallet t c = tmodify (\<lambda>d. if (t, c) \<in> set (wallets d) then d else d\<lparr>wallets := wallets d @ [(t, c)]\<rparr>)"

definition insert_batch :: "batch_row \<Rightarrow> unit tx" where
  "insert_batch r =
     tseq (tcheck (\<lambda>d. \<not> list_ex (\<lambda>q. wr_id q = wr_id r) (batches d)) (SqlErr UniqueViolation))
     (tseq (tcheck (\<lambda>d. \<not> list_ex (\<lambda>q. wr_tenant q = wr_tenant r \<and> wr_source_kind q = wr_source_kind r \<and>
         wr_source_reference q = wr_source_reference r) (batches d)) (SqlErr UniqueViolation))
     (tseq (tguard (batch_checks r) (SqlErr CheckViolation))
     (tmodify (\<lambda>d. d\<lparr>batches := batches d @ [r]\<rparr>))))"

definition adjust_row :: "string \<Rightarrow> string \<Rightarrow> string \<Rightarrow> (batch_row \<Rightarrow> batch_row) \<Rightarrow> batch_row \<Rightarrow> batch_row" where
  "adjust_row t c i f r = (if batch_key t c i r then f r else r)"

text \<open>UPDATE of one batch, refused by a CHECK.\<close>

definition adjust_batch :: "string \<Rightarrow> string \<Rightarrow> string \<Rightarrow> (batch_row \<Rightarrow> batch_row) \<Rightarrow> unit tx" where
  "adjust_batch t c i f =
     tseq (tcheck (\<lambda>d. list_all (\<lambda>r. batch_checks (f r)) (filter (batch_key t c i) (batches d))) (SqlErr CheckViolation))
     (tmodify (\<lambda>d. d\<lparr>batches := map (adjust_row t c i f) (batches d)\<rparr>))"

definition insert_allocation :: "allocation_row \<Rightarrow> unit tx" where
  "insert_allocation r =
     tseq (tcheck (\<lambda>d. \<not> list_ex (\<lambda>q. wa_tenant q = wa_tenant r \<and> wa_payment q = wa_payment r \<and> wa_batch q = wa_batch r)
         (allocations d)) (SqlErr UniqueViolation))
     (tseq (tguard (0 \<le> wa_principal r \<and> 0 \<le> wa_gift r \<and> 0 < wa_principal r + wa_gift r) (SqlErr CheckViolation))
     (tseq (tcheck (\<lambda>d. list_ex (batch_key (wa_tenant r) (wa_customer r) (wa_batch r)) (batches d)) (SqlErr ForeignKeyViolation))
     (tmodify (\<lambda>d. d\<lparr>allocations := allocations d @ [r]\<rparr>))))"

definition status_row :: "string \<Rightarrow> string \<Rightarrow> string \<Rightarrow> allocation_status \<Rightarrow> allocation_row \<Rightarrow> allocation_row" where
  "status_row t p b st r =
     (if wa_tenant r = t \<and> wa_payment r = p \<and> wa_batch r = b then r\<lparr>wa_status := st\<rparr> else r)"

definition set_allocation_status :: "string \<Rightarrow> string \<Rightarrow> string \<Rightarrow> allocation_status \<Rightarrow> unit tx" where
  "set_allocation_status t p b st = tmodify (\<lambda>d. d\<lparr>allocations := map (status_row t p b st) (allocations d)\<rparr>)"

definition insert_entry :: "entry_row \<Rightarrow> unit tx" where
  "insert_entry r =
     tseq (tcheck (\<lambda>d. \<not> list_ex (\<lambda>q. we_id q = we_id r \<or> (we_tenant q = we_tenant r \<and> we_kind q = we_kind r \<and>
         we_source q = we_source r \<and> we_batch q = we_batch r)) (entries d)) (SqlErr UniqueViolation))
     (tseq (tguard (0 \<le> we_principal r \<and> 0 \<le> we_gift r \<and> 0 < we_principal r + we_gift r) (SqlErr CheckViolation))
     (tseq (tcheck (\<lambda>d. list_ex (batch_key (we_tenant r) (we_customer r) (we_batch r)) (batches d)) (SqlErr ForeignKeyViolation))
     (tmodify (\<lambda>d. d\<lparr>entries := entries d @ [r]\<rparr>))))"

definition append_wallet_entry ::
  "string \<Rightarrow> string \<Rightarrow> entry_kind \<Rightarrow> string \<Rightarrow> wallet_portion \<Rightarrow> unit tx" where
  "append_wallet_entry t c kind source p =
     tbind tuuid (\<lambda>i. tbind tclock (\<lambda>now.
     insert_entry \<lparr>we_id = i, we_tenant = t, we_customer = c, we_batch = wp_batch p, we_kind = kind,
       we_principal = wp_principal p, we_gift = wp_gift p, we_source = source, we_created = now\<rparr>))"

section \<open>Operations inside a transaction\<close>

record wallet_balance =
  wl_available :: cents
  wl_reserved :: cents
  wl_total :: cents
  wl_principal :: cents
  wl_gift :: cents

definition own_batches :: "string \<Rightarrow> string \<Rightarrow> db \<Rightarrow> batch_row list" where
  "own_batches t c d = filter (\<lambda>r. wr_tenant r = t \<and> wr_customer r = c) (batches d)"

definition balance_of :: "batch_row list \<Rightarrow> wallet_balance" where
  "balance_of rs =
     (let av = sum_list (map (\<lambda>r. wr_avail_principal r + wr_avail_gift r) rs);
          re = sum_list (map (\<lambda>r. wr_res_principal r + wr_res_gift r) rs)
      in \<lparr>wl_available = av, wl_reserved = re, wl_total = av + re,
          wl_principal = sum_list (map (\<lambda>r. wr_avail_principal r + wr_res_principal r) rs),
          wl_gift = sum_list (map (\<lambda>r. wr_avail_gift r + wr_res_gift r) rs)\<rparr>)"

definition check_balance :: "wallet_balance \<Rightarrow> pricing_error + unit" where
  "check_balance b =
     eachE assert_cents [wl_available b, wl_reserved b, wl_principal b, wl_gift b, wl_total b]"

definition wallet_balance_in_transaction :: "string \<Rightarrow> string \<Rightarrow> wallet_balance tx" where
  "wallet_balance_in_transaction t c =
     tbind (tread (\<lambda>d. balance_of (own_batches t c d))) (\<lambda>b.
     tseq (tlift PricingErr (check_balance b)) (tret b))"

record credit_input =
  cr_venue :: string
  cr_customer :: string
  cr_principal :: cents
  cr_gift :: cents
  cr_source_kind :: source_kind
  cr_source_reference :: string
  cr_reason :: string

definition credit_wallet_batch :: "actor \<Rightarrow> credit_input \<Rightarrow> string tx" where
  "credit_wallet_batch a x =
     tseq (tlift PricingErr (eachE assert_cents [cr_principal x, cr_gift x, cr_principal x + cr_gift x]))
     (tseq (lock_wallet (ac_tenant a) (cr_customer x))
     (tbind (tread (\<lambda>d. sum_list (map (\<lambda>r. wr_principal r + wr_gift r) (own_batches (ac_tenant a) (cr_customer x) d)))) (\<lambda>credited.
      tseq (tlift PricingErr (assert_cents (credited + cr_principal x + cr_gift x)))
      (tbind tuuid (\<lambda>i.
       tseq (insert_batch \<lparr>wr_id = i, wr_tenant = ac_tenant a, wr_customer = cr_customer x, wr_venue = cr_venue x,
          wr_principal = cr_principal x, wr_gift = cr_gift x, wr_avail_principal = cr_principal x,
          wr_avail_gift = cr_gift x, wr_res_principal = 0, wr_res_gift = 0, wr_source_kind = cr_source_kind x,
          wr_source_reference = cr_source_reference x, wr_reason = cr_reason x, wr_created_by = ac_subject a\<rparr>)
       (tseq (append_wallet_entry (ac_tenant a) (cr_customer x) ETopup i
          \<lparr>wp_batch = i, wp_principal = cr_principal x, wp_gift = cr_gift x\<rparr>)
        (tret i)))))))"

definition debit_batch :: "batch_row \<Rightarrow> wallet_batch" where
  "debit_batch r = \<lparr>wb_id = wr_id r, wb_principal = wr_principal r, wb_gift = wr_gift r,
     wb_avail_principal = wr_avail_principal r, wb_avail_gift = wr_avail_gift r\<rparr>"

definition wallet_err :: "wallet_failure \<Rightarrow> err" where
  "wallet_err f = (case f of WalletError c \<Rightarrow> WalletErr c | WalletAmountError e \<Rightarrow> PricingErr e)"

definition reserve_row :: "wallet_portion \<Rightarrow> batch_row \<Rightarrow> batch_row" where
  "reserve_row p r = r\<lparr>wr_avail_principal := wr_avail_principal r - wp_principal p,
     wr_avail_gift := wr_avail_gift r - wp_gift p, wr_res_principal := wr_res_principal r + wp_principal p,
     wr_res_gift := wr_res_gift r + wp_gift p\<rparr>"

definition reserve_portion :: "string \<Rightarrow> string \<Rightarrow> string \<Rightarrow> wallet_portion \<Rightarrow> unit tx" where
  "reserve_portion t c payment p =
     tseq (adjust_batch t c (wp_batch p) (reserve_row p))
     (tseq (insert_allocation \<lparr>wa_tenant = t, wa_customer = c, wa_payment = payment, wa_batch = wp_batch p,
        wa_principal = wp_principal p, wa_gift = wp_gift p, wa_status = Reserved\<rparr>)
     (append_wallet_entry t c EReserve payment p))"

definition reserve_wallet :: "string \<Rightarrow> string \<Rightarrow> string \<Rightarrow> cents \<Rightarrow> unit tx" where
  "reserve_wallet t c payment amount =
     (if amount = 0 then tret ()
      else
        tseq (lock_wallet t c)
        (tbind (tread (\<lambda>d. map debit_batch (own_batches t c d))) (\<lambda>bs.
         tbind (tlift wallet_err (allocate_wallet_debit amount bs)) (\<lambda>portions.
         teach (reserve_portion t c payment) portions))))"

definition settle_row :: "bool \<Rightarrow> wallet_portion \<Rightarrow> batch_row \<Rightarrow> batch_row" where
  "settle_row consume p r = r\<lparr>wr_res_principal := wr_res_principal r - wp_principal p,
     wr_res_gift := wr_res_gift r - wp_gift p,
     wr_avail_principal := wr_avail_principal r + (if consume then 0 else wp_principal p),
     wr_avail_gift := wr_avail_gift r + (if consume then 0 else wp_gift p)\<rparr>"

definition settle_portion :: "string \<Rightarrow> string \<Rightarrow> string \<Rightarrow> bool \<Rightarrow> wallet_portion \<Rightarrow> unit tx" where
  "settle_portion t c payment consume p =
     tseq (adjust_batch t c (wp_batch p) (settle_row consume p))
     (tseq (set_allocation_status t payment (wp_batch p) (if consume then Consumed else Released))
     (append_wallet_entry t c (if consume then EConsume else ERelease) payment p))"

definition allocation_portion :: "allocation_row \<Rightarrow> wallet_portion" where
  "allocation_portion r = \<lparr>wp_batch = wa_batch r, wp_principal = wa_principal r, wp_gift = wa_gift r\<rparr>"

definition reserved_allocations :: "string \<Rightarrow> string \<Rightarrow> string \<Rightarrow> db \<Rightarrow> allocation_row list" where
  "reserved_allocations t c payment d =
     filter (\<lambda>r. wa_tenant r = t \<and> wa_customer r = c \<and> wa_payment r = payment \<and> wa_status r = Reserved) (allocations d)"

definition batch_order :: "env \<Rightarrow> wallet_portion \<Rightarrow> wallet_portion \<Rightarrow> bool" where
  "batch_order E p q \<longleftrightarrow> e_collate_le E (wp_batch p) (wp_batch q)"

definition settle_wallet_reservation :: "string \<Rightarrow> string \<Rightarrow> string \<Rightarrow> bool \<Rightarrow> unit tx" where
  "settle_wallet_reservation t c payment consume =
     tseq (lock_wallet t c)
     (tbind (tenv batch_order) (\<lambda>le.
      tbind (tread (\<lambda>d. sort_by le (map allocation_portion (reserved_allocations t c payment d)))) (\<lambda>portions.
      teach (settle_portion t c payment consume) portions)))"


section \<open>The books\<close>

datatype money = Principal | Gift

fun avail :: "money \<Rightarrow> batch_row \<Rightarrow> cents" where
  "avail Principal r = wr_avail_principal r"
| "avail Gift r = wr_avail_gift r"

fun held :: "money \<Rightarrow> batch_row \<Rightarrow> cents" where
  "held Principal r = wr_res_principal r"
| "held Gift r = wr_res_gift r"

fun credited :: "money \<Rightarrow> batch_row \<Rightarrow> cents" where
  "credited Principal r = wr_principal r"
| "credited Gift r = wr_gift r"

fun share :: "money \<Rightarrow> wallet_portion \<Rightarrow> cents" where
  "share Principal p = wp_principal p"
| "share Gift p = wp_gift p"

definition entry_portion :: "entry_row \<Rightarrow> wallet_portion" where
  "entry_portion e = \<lparr>wp_batch = we_batch e, wp_principal = we_principal e, wp_gift = we_gift e\<rparr>"

text \<open>What the journal says about a batch, and what the allocations of it amount to.\<close>

definition booked :: "money \<Rightarrow> entry_kind \<Rightarrow> string \<Rightarrow> entry_row list \<Rightarrow> cents" where
  "booked m k i es = sum_list (map (\<lambda>e. share m (entry_portion e)) (filter (\<lambda>e. we_batch e = i \<and> we_kind e = k) es))"

definition allocated :: "money \<Rightarrow> allocation_status \<Rightarrow> string \<Rightarrow> allocation_row list \<Rightarrow> cents" where
  "allocated m st i as =
     sum_list (map (\<lambda>a. share m (allocation_portion a)) (filter (\<lambda>a. wa_batch a = i \<and> wa_status a = st) as))"

definition allocation_key :: "allocation_row \<Rightarrow> string \<times> string \<times> string" where
  "allocation_key a = (wa_tenant a, wa_payment a, wa_batch a)"

text \<open>
  The columns of a batch are what its journal says: money comes in by a top-up, is reserved,
  and a reservation is released or consumed; what is reserved belongs to reserved allocations,
  what was consumed to consumed ones.
\<close>

definition in_books :: "entry_row list \<Rightarrow> allocation_row list \<Rightarrow> money \<Rightarrow> batch_row \<Rightarrow> bool" where
  "in_books es as m r \<longleftrightarrow>
     booked m ETopup (wr_id r) es = credited m r \<and>
     avail m r = booked m ETopup (wr_id r) es - booked m EReserve (wr_id r) es + booked m ERelease (wr_id r) es
       + booked m ERefund (wr_id r) es \<and>
     held m r = booked m EReserve (wr_id r) es - booked m ERelease (wr_id r) es - booked m EConsume (wr_id r) es \<and>
     held m r = allocated m Reserved (wr_id r) as \<and>
     booked m EConsume (wr_id r) es = allocated m Consumed (wr_id r) as"

definition wallet_ledger :: "db \<Rightarrow> bool" where
  "wallet_ledger d \<longleftrightarrow>
     distinct (map wr_id (batches d)) \<and> distinct (map allocation_key (allocations d)) \<and>
     (\<forall>a\<in>set (allocations d). \<exists>r\<in>set (batches d). batch_key (wa_tenant a) (wa_customer a) (wa_batch a) r) \<and>
     (\<forall>e\<in>set (entries d). \<exists>r\<in>set (batches d). batch_key (we_tenant e) (we_customer e) (we_batch e) r) \<and>
     (\<forall>r\<in>set (batches d). batch_checks r \<and> (\<forall>m. in_books (entries d) (allocations d) m r))"

lemma booked_append [simp]:
  "booked m k i (es @ [e]) = booked m k i es + (if we_batch e = i \<and> we_kind e = k then share m (entry_portion e) else 0)"
  by (simp add: booked_def)

lemma allocated_append [simp]:
  "allocated m st i (as @ [a]) = allocated m st i as
     + (if wa_batch a = i \<and> wa_status a = st then share m (allocation_portion a) else 0)"
  by (simp add: allocated_def)

lemma booked_absent: "(\<And>e. e \<in> set es \<Longrightarrow> we_batch e \<noteq> i) \<Longrightarrow> booked m k i es = 0"
  by (simp add: booked_def filter_False)

lemma allocated_absent: "(\<And>a. a \<in> set as \<Longrightarrow> wa_batch a \<noteq> i) \<Longrightarrow> allocated m st i as = 0"
  by (simp add: allocated_def filter_False)

lemma allocated_Cons:
  "allocated m st i (a # as) = (if wa_batch a = i \<and> wa_status a = st then share m (allocation_portion a) else 0)
     + allocated m st i as"
  by (simp add: allocated_def)

lemma status_row_simps [simp]:
  "wa_tenant (status_row t p b st a) = wa_tenant a" "wa_customer (status_row t p b st a) = wa_customer a"
  "wa_payment (status_row t p b st a) = wa_payment a" "wa_batch (status_row t p b st a) = wa_batch a"
  "allocation_portion (status_row t p b st a) = allocation_portion a"
  "allocation_key (status_row t p b st a) = allocation_key a"
  by (simp_all add: status_row_def allocation_portion_def allocation_key_def)

lemma status_rows_other:
  "(t, p, b) \<notin> allocation_key ` set as \<Longrightarrow> map (status_row t p b st) as = as"
  by (induction as) (auto simp: status_row_def allocation_key_def)

lemma allocated_status:
  assumes "a \<in> set as" "allocation_key a = (t, p, b)" "distinct (map allocation_key as)"
  shows "allocated m st' i (map (status_row t p b st) as) = allocated m st' i as
    - (if b = i \<and> wa_status a = st' then share m (allocation_portion a) else 0)
    + (if b = i \<and> st = st' then share m (allocation_portion a) else 0)"
  using assms
proof (induction as)
  case (Cons x xs)
  show ?case
  proof (cases "x = a")
    case True
    then have "map (status_row t p b st) xs = xs" using Cons.prems(2,3) by (intro status_rows_other) auto
    moreover have "status_row t p b st x = x\<lparr>wa_status := st\<rparr>"
      using True Cons.prems(2) by (simp add: status_row_def allocation_key_def)
    ultimately show ?thesis
      using True Cons.prems(2) by (simp add: allocated_Cons allocation_key_def allocation_portion_def)
  next
    case False
    then have a: "a \<in> set xs" using Cons.prems(1) by simp
    then have "allocation_key x \<noteq> (t, p, b)" using Cons.prems(2,3) by (metis distinct.simps(2) image_eqI list.simps(9) list.set_map)
    then have "status_row t p b st x = x" by (auto simp: status_row_def allocation_key_def)
    moreover have "distinct (map allocation_key xs)" using Cons.prems(3) by simp
    ultimately show ?thesis using Cons.IH [OF a Cons.prems(2)] by (simp add: allocated_Cons)
  qed
qed simp


lemma adjust_row_simps:
  assumes "\<And>r. wr_id (f r) = wr_id r \<and> wr_tenant (f r) = wr_tenant r \<and> wr_customer (f r) = wr_customer r"
  shows "wr_id (adjust_row t c i f r) = wr_id r" "batch_key t' c' i' (adjust_row t c i f r) = batch_key t' c' i' r"
  using assms [of r] by (simp_all add: adjust_row_def batch_key_def)

text \<open>One journal entry of a batch, with what it does to the batch and its allocations.\<close>

lemma ledger_step:
  assumes L: "wallet_ledger d"
    and f: "\<And>r. wr_id (f r) = wr_id r \<and> wr_tenant (f r) = wr_tenant r \<and> wr_customer (f r) = wr_customer r"
    and b: "batches d' = map (adjust_row t c b f) (batches d)"
    and e: "entries d' = entries d @ [e]" "we_batch e = b" "we_tenant e = t" "we_customer e = c"
    and r: "r \<in> set (batches d)" "batch_key t c b r"
    and a: "distinct (map allocation_key (allocations d'))"
      "\<And>x. x \<in> set (allocations d') \<Longrightarrow> \<exists>r\<in>set (batches d). batch_key (wa_tenant x) (wa_customer x) (wa_batch x) r"
      "\<And>m st i. i \<noteq> b \<Longrightarrow> allocated m st i (allocations d') = allocated m st i (allocations d)"
    and new: "batch_checks (f r)" "\<And>m. in_books (entries d') (allocations d') m (f r)"
  shows "wallet_ledger d'"
proof -
  note s = adjust_row_simps [OF f]
  have ids: "map wr_id (batches d') = map wr_id (batches d)" unfolding b by (simp add: s)
  have keys: "(\<exists>q\<in>set (batches d'). batch_key t' c' i' q) \<longleftrightarrow> (\<exists>q\<in>set (batches d). batch_key t' c' i' q)" for t' c' i'
    unfolding b by (simp add: s)
  have "batch_checks q' \<and> (\<forall>m. in_books (entries d') (allocations d') m q')" if q': "q' \<in> set (batches d')" for q'
  proof -
    obtain q where q: "q \<in> set (batches d)" "q' = adjust_row t c b f q" using q' unfolding b by auto
    have L': "batch_checks q" "\<And>m. in_books (entries d) (allocations d) m q" using L q(1) by (auto simp: wallet_ledger_def)
    show ?thesis
    proof (cases "wr_id q = b")
      case True
      then have "q = r"
        using L q(1) r by (auto simp: wallet_ledger_def batch_key_def distinct_map dest: inj_onD)
      then show ?thesis using new r(2) q(2) by (simp add: adjust_row_def)
    next
      case False
      then have "q' = q" using q(2) by (simp add: adjust_row_def batch_key_def)
      moreover have "in_books (entries d') (allocations d') m q = in_books (entries d) (allocations d) m q" for m
        using False e a(3) by (simp add: in_books_def)
      ultimately show ?thesis using L' by blast
    qed
  qed
  moreover have "\<exists>q\<in>set (batches d). batch_key (we_tenant x) (we_customer x) (we_batch x) q" if "x \<in> set (entries d')" for x
    using that e r L by (auto simp: wallet_ledger_def)
  ultimately show ?thesis
    using L a(1,2) unfolding wallet_ledger_def ids keys by blast
qed

lemma batch_checks_parts:
  "batch_checks r \<Longrightarrow> 0 \<le> avail m r \<and> 0 \<le> held m r \<and> avail m r + held m r \<le> credited m r"
  by (cases m) (simp_all add: batch_checks_def)

lemma find_batch: "list_ex (batch_key t c i) rs \<Longrightarrow> \<exists>r\<in>set rs. batch_key t c i r"
  by (simp add: list_ex_iff)

lemma insert_entry_Inr:
  "insert_entry e E d = Inr (x, d') \<Longrightarrow> d' = d\<lparr>entries := entries d @ [e]\<rparr> \<and>
     list_ex (batch_key (we_tenant e) (we_customer e) (we_batch e)) (batches d) \<and> 0 \<le> we_principal e \<and> 0 \<le> we_gift e"
  by (auto simp: insert_entry_def ok_iff)

lemma append_entry_Inr:
  assumes "append_wallet_entry t c k s p E d = Inr (x, d')"
  obtains e n where "d' = d\<lparr>entries := entries d @ [e], ticks := n, uuids := Suc (uuids d)\<rparr>" "entry_portion e = p"
    "we_tenant e = t" "we_customer e = c" "we_batch e = wp_batch p" "we_kind e = k" "we_source e = s"
    "list_ex (batch_key t c (wp_batch p)) (batches d)" "0 \<le> wp_principal p" "0 \<le> wp_gift p"
proof -
  let ?e = "\<lparr>we_id = e_uuid E (uuids d), we_tenant = t, we_customer = c, we_batch = wp_batch p, we_kind = k,
       we_principal = wp_principal p, we_gift = wp_gift p, we_source = s, we_created = e_clock E (ticks d)\<rparr>"
  have i: "insert_entry ?e E (d\<lparr>uuids := Suc (uuids d), ticks := Suc (ticks d)\<rparr>) = Inr (x, d')"
    using assms by (simp add: append_wallet_entry_def ok_iff)
  from insert_entry_Inr [OF i] show thesis
    by (intro that [where e = ?e and n = "Suc (ticks d)"]) (simp_all add: entry_portion_def)
qed

lemma adjust_batch_Inr:
  "adjust_batch t c i f E d = Inr (x, d') \<Longrightarrow>
     d' = d\<lparr>batches := map (adjust_row t c i f) (batches d)\<rparr> \<and>
     (\<forall>r\<in>set (batches d). batch_key t c i r \<longrightarrow> batch_checks (f r))"
  by (auto simp: adjust_batch_def ok_iff list_all_iff)

lemma insert_allocation_Inr:
  "insert_allocation a E d = Inr (x, d') \<Longrightarrow> d' = d\<lparr>allocations := allocations d @ [a]\<rparr> \<and>
     allocation_key a \<notin> allocation_key ` set (allocations d) \<and>
     list_ex (batch_key (wa_tenant a) (wa_customer a) (wa_batch a)) (batches d)"
  by (auto simp: insert_allocation_def ok_iff list_ex_iff allocation_key_def)

lemma reserve_portion_ledger: "keeps wallet_ledger (reserve_portion t c payment p)"
proof (rule keepsI)
  fix E d x d' assume L: "wallet_ledger d" and run: "reserve_portion t c payment p E d = Inr (x, d')"
  let ?a = "\<lparr>wa_tenant = t, wa_customer = c, wa_payment = payment, wa_batch = wp_batch p,
        wa_principal = wp_principal p, wa_gift = wp_gift p, wa_status = Reserved\<rparr>"
  obtain u d1 v d2 where 1: "adjust_batch t c (wp_batch p) (reserve_row p) E d = Inr (u, d1)"
    and 2: "insert_allocation ?a E d1 = Inr (v, d2)" and 3: "append_wallet_entry t c EReserve payment p E d2 = Inr (x, d')"
    using run unfolding reserve_portion_def tseq_Inr by blast
  note d1 = adjust_batch_Inr [OF 1] and d2 = insert_allocation_Inr [OF 2]
  obtain e n where e: "d' = d2\<lparr>entries := entries d2 @ [e], ticks := n, uuids := Suc (uuids d2)\<rparr>" "entry_portion e = p"
    "we_tenant e = t" "we_customer e = c" "we_batch e = wp_batch p" "we_kind e = EReserve"
    by (rule append_entry_Inr [OF 3])
  have keep: "wr_id (reserve_row p q) = wr_id q \<and> wr_tenant (reserve_row p q) = wr_tenant q \<and>
      wr_customer (reserve_row p q) = wr_customer q" for q
    by (simp add: reserve_row_def)
  have "list_ex (batch_key t c (wp_batch p)) (batches d)"
    using d1 d2 adjust_row_simps(2) [OF keep] by (simp add: list_ex_iff)
  then obtain r where r: "r \<in> set (batches d)" "batch_key t c (wp_batch p) r" by (auto dest: find_batch)
  have books: "\<And>m. in_books (entries d) (allocations d) m r" using L r by (simp add: wallet_ledger_def)
  show "wallet_ledger d'"
  proof (rule ledger_step [OF L keep _ _ _ _ _ r])
    show "batches d' = map (adjust_row t c (wp_batch p) (reserve_row p)) (batches d)"
      using d1 d2 e(1) by simp
    show "entries d' = entries d @ [e]" using d1 d2 e(1) by simp
    show "we_batch e = wp_batch p" "we_tenant e = t" "we_customer e = c" using e by simp_all
    show "distinct (map allocation_key (allocations d'))"
      using L d1 d2 e(1) by (simp add: wallet_ledger_def)
    show "batch_checks (reserve_row p r)" using d1 r by simp
    show "\<exists>r\<in>set (batches d). batch_key (wa_tenant y) (wa_customer y) (wa_batch y) r" if "y \<in> set (allocations d')" for y
      using that L d1 d2 e(1) r by (auto simp: wallet_ledger_def)
    show "allocated m st i (allocations d') = allocated m st i (allocations d)" if "i \<noteq> wp_batch p" for m st i
      using that d1 d2 e(1) by simp
    show "in_books (entries d') (allocations d') m (reserve_row p r)" for m
      using books [of m] r d1 d2 e
      by (cases m) (simp_all add: in_books_def batch_key_def reserve_row_def allocation_portion_def)
  qed
qed


text \<open>The reserved allocations behind the portions that a settlement works through.\<close>

definition backed :: "string \<Rightarrow> string \<Rightarrow> string \<Rightarrow> db \<Rightarrow> wallet_portion \<Rightarrow> bool" where
  "backed t c payment d p \<longleftrightarrow>
     (\<exists>a\<in>set (allocations d). wa_tenant a = t \<and> wa_customer a = c \<and> wa_payment a = payment \<and>
        wa_status a = Reserved \<and> allocation_portion a = p)"

lemma settle_portion_ledger:
  assumes L: "wallet_ledger d" and p: "backed t c payment d p"
    and run: "settle_portion t c payment consume p E d = Inr (x, d')"
  shows "wallet_ledger d'"
proof -
  obtain a where a: "a \<in> set (allocations d)" "wa_tenant a = t" "wa_customer a = c" "wa_payment a = payment"
      "wa_status a = Reserved" "allocation_portion a = p"
    using p by (auto simp: backed_def)
  have key: "allocation_key a = (t, payment, wp_batch p)"
    using a by (auto simp: allocation_key_def allocation_portion_def)
  let ?st = "if consume then Consumed else Released" and ?k = "if consume then EConsume else ERelease"
  obtain u d1 v d2 where 1: "adjust_batch t c (wp_batch p) (settle_row consume p) E d = Inr (u, d1)"
    and 2: "set_allocation_status t payment (wp_batch p) ?st E d1 = Inr (v, d2)"
    and 3: "append_wallet_entry t c ?k payment p E d2 = Inr (x, d')"
    using run unfolding settle_portion_def tseq_Inr by blast
  note d1 = adjust_batch_Inr [OF 1]
  have d2: "d2 = d1\<lparr>allocations := map (status_row t payment (wp_batch p) ?st) (allocations d1)\<rparr>"
    using 2 by (simp add: set_allocation_status_def ok_iff)
  obtain e n where e: "d' = d2\<lparr>entries := entries d2 @ [e], ticks := n, uuids := Suc (uuids d2)\<rparr>" "entry_portion e = p"
    "we_tenant e = t" "we_customer e = c" "we_batch e = wp_batch p" "we_kind e = ?k"
    by (rule append_entry_Inr [OF 3])
  have keep: "wr_id (settle_row consume p q) = wr_id q \<and> wr_tenant (settle_row consume p q) = wr_tenant q \<and>
      wr_customer (settle_row consume p q) = wr_customer q" for q
    by (simp add: settle_row_def)
  obtain r where r: "r \<in> set (batches d)" "batch_key t c (wp_batch p) r"
    using L a by (force simp: wallet_ledger_def allocation_portion_def)
  have books: "\<And>m. in_books (entries d) (allocations d) m r" using L r by (simp add: wallet_ledger_def)
  have dist: "distinct (map allocation_key (allocations d))" using L by (simp add: wallet_ledger_def)
  have al: "allocations d' = map (status_row t payment (wp_batch p) ?st) (allocations d)"
    using d1 d2 e(1) by simp
  note st = allocated_status [OF a(1) key dist]
  show ?thesis
  proof (rule ledger_step [OF L keep _ _ _ _ _ r])
    show "batches d' = map (adjust_row t c (wp_batch p) (settle_row consume p)) (batches d)"
      using d1 d2 e(1) by simp
    show "entries d' = entries d @ [e]" using d1 d2 e(1) by simp
    show "we_batch e = wp_batch p" "we_tenant e = t" "we_customer e = c" using e by simp_all
    show "distinct (map allocation_key (allocations d'))" using dist unfolding al by (simp add: comp_def)
    show "batch_checks (settle_row consume p r)" using d1 r by simp
    show "\<exists>r\<in>set (batches d). batch_key (wa_tenant y) (wa_customer y) (wa_batch y) r" if "y \<in> set (allocations d')" for y
      using that L unfolding al by (auto simp: wallet_ledger_def)
    show "allocated m st i (allocations d') = allocated m st i (allocations d)" if "i \<noteq> wp_batch p" for m st i
      using that unfolding al st by simp
    show "in_books (entries d') (allocations d') m (settle_row consume p r)" for m
      using books [of m] r d1 d2 e a(5,6) unfolding al
      by (cases m; cases consume) (simp_all add: in_books_def batch_key_def settle_row_def st)
  qed
qed

lemma settle_portion_run:
  assumes "settle_portion t c payment consume p E d = Inr (x, d')"
  shows "batches d' = map (adjust_row t c (wp_batch p) (settle_row consume p)) (batches d) \<and>
    allocations d' = map (status_row t payment (wp_batch p) (if consume then Consumed else Released)) (allocations d)"
proof -
  obtain u d1 v d2 where 1: "adjust_batch t c (wp_batch p) (settle_row consume p) E d = Inr (u, d1)"
    and 2: "set_allocation_status t payment (wp_batch p) (if consume then Consumed else Released) E d1 = Inr (v, d2)"
    and 3: "append_wallet_entry t c (if consume then EConsume else ERelease) payment p E d2 = Inr (x, d')"
    using assms unfolding settle_portion_def tseq_Inr by blast
  obtain e n where "d' = d2\<lparr>entries := entries d2 @ [e], ticks := n, uuids := Suc (uuids d2)\<rparr>"
    by (rule append_entry_Inr [OF 3])
  then show ?thesis using adjust_batch_Inr [OF 1] 2 by (simp add: set_allocation_status_def ok_iff)
qed

lemma backed_step:
  assumes "backed t c payment d q" "wp_batch q \<noteq> wp_batch p" "settle_portion t c payment consume p E d = Inr (x, d')"
  shows "backed t c payment d' q"
proof -
  obtain a where a: "a \<in> set (allocations d)" "wa_tenant a = t \<and> wa_customer a = c \<and> wa_payment a = payment \<and>
      wa_status a = Reserved \<and> allocation_portion a = q"
    using assms(1) by (auto simp: backed_def)
  have "status_row t payment (wp_batch p) (if consume then Consumed else Released) a = a"
    using a(2) assms(2) by (auto simp: status_row_def allocation_portion_def)
  then have "a \<in> set (allocations d')"
    using settle_portion_run [OF assms(3)] a(1) by (metis image_eqI list.set_map)
  then show ?thesis using a(2) by (auto simp: backed_def)
qed

lemma settle_loop_ledger:
  assumes "wallet_ledger d" "\<And>p. p \<in> set ps \<Longrightarrow> backed t c payment d p" "distinct (map wp_batch ps)"
    and "teach (settle_portion t c payment consume) ps E d = Inr (x, d')"
  shows "wallet_ledger d'"
  using assms
proof (induction ps arbitrary: d)
  case (Cons p ps)
  then obtain u d1 where 1: "settle_portion t c payment consume p E d = Inr (u, d1)"
    and 2: "teach (settle_portion t c payment consume) ps E d1 = Inr (x, d')"
    unfolding teach.simps tseq_Inr by blast
  have L1: "wallet_ledger d1" using settle_portion_ledger [OF Cons.prems(1) _ 1] Cons.prems(2) by simp
  have B1: "backed t c payment d1 q" if "q \<in> set ps" for q
  proof (rule backed_step [OF _ _ 1])
    show "backed t c payment d q" using Cons.prems(2) that by simp
    show "wp_batch q \<noteq> wp_batch p" using Cons.prems(3) imageI [OF that, of wp_batch] by auto
  qed
  have "distinct (map wp_batch ps)" using Cons.prems(3) by simp
  then show ?case using L1 B1 2 by (intro Cons.IH)
qed (simp add: ok_iff)

lemma lock_wallet_Inr: "lock_wallet t c E d = Inr (x, d') \<Longrightarrow> \<exists>ws. d' = d\<lparr>wallets := ws\<rparr>"
proof -
  assume "lock_wallet t c E d = Inr (x, d')"
  then have "d' = d\<lparr>wallets := (if (t, c) \<in> set (wallets d) then wallets d else wallets d @ [(t, c)])\<rparr>"
    by (simp add: lock_wallet_def ok_iff)
  then show ?thesis by blast
qed

lemma ledger_wallets [simp]: "wallet_ledger (d\<lparr>wallets := ws\<rparr>) = wallet_ledger d"
  by (simp add: wallet_ledger_def)

definition settled_portions :: "env \<Rightarrow> string \<Rightarrow> string \<Rightarrow> string \<Rightarrow> db \<Rightarrow> wallet_portion list" where
  "settled_portions E t c payment d = sort_by (batch_order E) (map allocation_portion (reserved_allocations t c payment d))"

lemma settle_wallet_Inr:
  assumes "settle_wallet_reservation t c payment consume E d = Inr (x, d')"
  obtains ws where "teach (settle_portion t c payment consume) (settled_portions E t c payment d) E (d\<lparr>wallets := ws\<rparr>) = Inr (x, d')"
proof -
  obtain u d1 where 1: "lock_wallet t c E d = Inr (u, d1)"
    and 2: "teach (settle_portion t c payment consume) (settled_portions E t c payment d1) E d1 = Inr (x, d')"
    using assms by (auto simp: settle_wallet_reservation_def ok_iff settled_portions_def)
  obtain ws where "d1 = d\<lparr>wallets := ws\<rparr>" using lock_wallet_Inr [OF 1] by blast
  then show thesis using that 2 by (simp add: settled_portions_def reserved_allocations_def)
qed

lemma settled_portions_backed: "p \<in> set (settled_portions E t c payment d) \<Longrightarrow> backed t c payment d p"
  by (auto simp: settled_portions_def reserved_allocations_def backed_def)

lemma settled_portions_distinct:
  assumes "wallet_ledger d"
  shows "distinct (map wp_batch (settled_portions E t c payment d))"
proof -
  have "distinct (map allocation_key (reserved_allocations t c payment d))"
    using assms by (simp add: wallet_ledger_def reserved_allocations_def distinct_map_filter)
  moreover have "map allocation_key (reserved_allocations t c payment d)
      = map (\<lambda>b. (t, payment, b)) (map (wp_batch \<circ> allocation_portion) (reserved_allocations t c payment d))"
    by (simp add: reserved_allocations_def allocation_key_def allocation_portion_def)
  ultimately have "distinct (map (wp_batch \<circ> allocation_portion) (reserved_allocations t c payment d))"
    by (metis distinct_map)
  then have "distinct (map wp_batch (map allocation_portion (reserved_allocations t c payment d)))" by simp
  then show ?thesis
    unfolding settled_portions_def by (metis mset_map mset_sort_by distinct_count_atmost_1 mset_eq_imp_distinct_iff)
qed

lemma settle_wallet_ledger: "keeps wallet_ledger (settle_wallet_reservation t c payment consume)"
proof (rule keepsI)
  fix E d x d' assume L: "wallet_ledger d" and run: "settle_wallet_reservation t c payment consume E d = Inr (x, d')"
  obtain ws where ws: "teach (settle_portion t c payment consume) (settled_portions E t c payment d) E (d\<lparr>wallets := ws\<rparr>) = Inr (x, d')"
    by (rule settle_wallet_Inr [OF run])
  show "wallet_ledger d'"
    by (rule settle_loop_ledger [OF _ _ settled_portions_distinct [OF L] ws])
      (use L settled_portions_backed in \<open>simp_all add: backed_def\<close>)
qed


lemma reserve_loop_ledger: "keeps wallet_ledger (teach (reserve_portion t c payment) ps)"
  by (intro keeps_intros reserve_portion_ledger)

lemma ledger_counters [simp]:
  "wallet_ledger (d\<lparr>ticks := n\<rparr>) = wallet_ledger d" "wallet_ledger (d\<lparr>uuids := n\<rparr>) = wallet_ledger d"
  by (simp_all add: wallet_ledger_def)

lemma lock_wallet_ledger: "keeps wallet_ledger (lock_wallet t c)"
proof (rule keepsI)
  fix E d x d' assume "wallet_ledger d" "lock_wallet t c E d = Inr (x, d')"
  then show "wallet_ledger d'" using lock_wallet_Inr [of t c E d x d'] by auto
qed

lemma reserve_wallet_ledger: "keeps wallet_ledger (reserve_wallet t c payment amount)"
  unfolding reserve_wallet_def by (intro keeps_intros lock_wallet_ledger reserve_portion_ledger)

lemma insert_batch_Inr:
  "insert_batch r E d = Inr (x, d') \<Longrightarrow> d' = d\<lparr>batches := batches d @ [r]\<rparr> \<and>
     wr_id r \<notin> wr_id ` set (batches d) \<and> batch_checks r"
  unfolding insert_batch_def tseq_Inr tcheck_Inr tguard_Inr tmodify_Inr list_ex_iff by (clarify, auto)

lemma ledger_refs:
  "wallet_ledger d \<Longrightarrow> e \<in> set (entries d) \<Longrightarrow> \<exists>q\<in>set (batches d). wr_id q = we_batch e"
  "wallet_ledger d \<Longrightarrow> a \<in> set (allocations d) \<Longrightarrow> \<exists>q\<in>set (batches d). wr_id q = wa_batch a"
  unfolding wallet_ledger_def batch_key_def by blast+

text \<open>A new batch enters with its top-up entry.\<close>

lemma credit_step_ledger:
  assumes L: "wallet_ledger d" and ins: "insert_batch r E d = Inr (u, d1)"
    and ent: "append_wallet_entry (wr_tenant r) (wr_customer r) ETopup (wr_id r)
      \<lparr>wp_batch = wr_id r, wp_principal = wr_principal r, wp_gift = wr_gift r\<rparr> E d1 = Inr (x, d')"
    and fresh: "wr_avail_principal r = wr_principal r" "wr_avail_gift r = wr_gift r" "wr_res_principal r = 0" "wr_res_gift r = 0"
  shows "wallet_ledger d'"
proof -
  note d1 = insert_batch_Inr [OF ins]
  let ?p = "\<lparr>wp_batch = wr_id r, wp_principal = wr_principal r, wp_gift = wr_gift r\<rparr>"
  obtain e n where e: "d' = d1\<lparr>entries := entries d1 @ [e], ticks := n, uuids := Suc (uuids d1)\<rparr>" "entry_portion e = ?p"
    "we_tenant e = wr_tenant r" "we_customer e = wr_customer r" "we_batch e = wp_batch ?p" "we_kind e = ETopup"
    by (rule append_entry_Inr [OF ent])
  have old: "we_batch e' \<noteq> wr_id r" if "e' \<in> set (entries d)" for e'
    using ledger_refs(1) [OF L that] d1 by (metis image_eqI)
  have old': "wa_batch a \<noteq> wr_id r" if "a \<in> set (allocations d)" for a
    using ledger_refs(2) [OF L that] d1 by (metis image_eqI)
  have none: "booked m k (wr_id r) (entries d) = 0" "allocated m st (wr_id r) (allocations d) = 0" for m k st
    using booked_absent [OF old] allocated_absent [OF old'] by auto
  have new: "in_books (entries d') (allocations d') m r" for m
    using d1 e fresh none by (cases m) (simp_all add: in_books_def)
  have rest: "in_books (entries d') (allocations d') m q" if "q \<in> set (batches d)" for m q
  proof -
    have "wr_id q \<noteq> wr_id r" using imageI [OF that, of wr_id] d1 by auto
    moreover have "in_books (entries d) (allocations d) m q" using L that by (simp add: wallet_ledger_def)
    ultimately show ?thesis using d1 e by (simp add: in_books_def)
  qed
  have r: "batch_key (we_tenant e) (we_customer e) (we_batch e) r" using e by (simp add: batch_key_def)
  have b: "batches d' = batches d @ [r]" "entries d' = entries d @ [e]" "allocations d' = allocations d"
    using d1 e(1) by simp_all
  show ?thesis
    unfolding wallet_ledger_def
  proof (intro conjI ballI allI)
    show "distinct (map wr_id (batches d'))" "distinct (map allocation_key (allocations d'))"
      using L d1 by (simp_all add: b wallet_ledger_def)
    show "\<exists>q\<in>set (batches d'). batch_key (wa_tenant a) (wa_customer a) (wa_batch a) q" if "a \<in> set (allocations d')" for a
      using that L by (auto simp: b wallet_ledger_def)
    show "\<exists>q\<in>set (batches d'). batch_key (we_tenant e') (we_customer e') (we_batch e') q" if "e' \<in> set (entries d')" for e'
      using that L r by (auto simp: b wallet_ledger_def)
    show "batch_checks q" if "q \<in> set (batches d')" for q
      using that L d1 by (auto simp: b wallet_ledger_def)
    show "in_books (entries d') (allocations d') m q" if "q \<in> set (batches d')" for m q
      using that new rest by (auto simp: b)
  qed
qed

lemma credit_wallet_ledger: "keeps wallet_ledger (credit_wallet_batch a x)"
proof (rule keepsI)
  fix E d i d' assume L: "wallet_ledger d" and run: "credit_wallet_batch a x E d = Inr (i, d')"
  let ?r = "\<lambda>i. \<lparr>wr_id = i, wr_tenant = ac_tenant a, wr_customer = cr_customer x, wr_venue = cr_venue x,
          wr_principal = cr_principal x, wr_gift = cr_gift x, wr_avail_principal = cr_principal x,
          wr_avail_gift = cr_gift x, wr_res_principal = 0, wr_res_gift = 0, wr_source_kind = cr_source_kind x,
          wr_source_reference = cr_source_reference x, wr_reason = cr_reason x, wr_created_by = ac_subject a\<rparr>"
  obtain u d1 v d3 d2 w y where 1: "lock_wallet (ac_tenant a) (cr_customer x) E d = Inr (u, d1)"
    and 2: "tuuid E d1 = Inr (v, d2)" and 3: "insert_batch (?r v) E d2 = Inr (w, d3)"
    and 4: "append_wallet_entry (ac_tenant a) (cr_customer x) ETopup v
          \<lparr>wp_batch = v, wp_principal = cr_principal x, wp_gift = cr_gift x\<rparr> E d3 = Inr (y, d')"
    using run unfolding credit_wallet_batch_def tbind_Inr tseq_Inr tread_Inr tlift_Inr tret_Inr prod.inject Inr_inject
    by blast
  have "wallet_ledger d1" using keepsD [OF lock_wallet_ledger L 1] .
  then have "wallet_ledger d2" using 2 by (simp add: tuuid_Inr)
  then show "wallet_ledger d'" using 3 by (rule credit_step_ledger) (use 4 in simp_all)
qed

section \<open>Invariants through the wallet\<close>

locale wallet_invariant = db_invariant +
  assumes inv_credit: "T (ac_tenant a) \<Longrightarrow> keeps I (credit_wallet_batch a x)"
    and inv_reserve: "T t \<Longrightarrow> keeps I (reserve_wallet t c payment amount)"
    and inv_settle: "T t \<Longrightarrow> keeps I (settle_wallet_reservation t c payment consume)"
    and inv_lock_wallet: "T t \<Longrightarrow> keeps I (lock_wallet t c)"

text \<open>An invariant that the writes keep one by one.\<close>

locale wallet_writes = db_invariant +
  assumes inv_wallet_account: "T t \<Longrightarrow> keeps I (lock_wallet t c)"
    and inv_insert_batch: "T (wr_tenant r) \<Longrightarrow> keeps I (insert_batch r)"
    and inv_adjust_batch: "T t \<Longrightarrow> (\<And>r. wr_id (f r) = wr_id r \<and> wr_tenant (f r) = wr_tenant r \<and> wr_customer (f r) = wr_customer r) \<Longrightarrow>
      keeps I (adjust_batch t c i f)"
    and inv_insert_allocation: "T (wa_tenant al) \<Longrightarrow> keeps I (insert_allocation al)"
    and inv_allocation_status: "T t \<Longrightarrow> keeps I (set_allocation_status t p b st)"
    and inv_insert_entry: "T (we_tenant e) \<Longrightarrow> keeps I (insert_entry e)"
begin

lemma keeps_append_entry: "T t \<Longrightarrow> keeps I (append_wallet_entry t c k s p)"
  unfolding append_wallet_entry_def by (intro keeps_intros keeps_counters inv_insert_entry) simp

lemma keeps_credit: "T (ac_tenant a) \<Longrightarrow> keeps I (credit_wallet_batch a x)"
  unfolding credit_wallet_batch_def
  by (intro keeps_intros keeps_counters inv_wallet_account inv_insert_batch keeps_append_entry) simp_all

lemma keeps_reserve: "T t \<Longrightarrow> keeps I (reserve_wallet t c payment amount)"
  unfolding reserve_wallet_def reserve_portion_def
  by (intro keeps_intros inv_wallet_account inv_adjust_batch inv_insert_allocation keeps_append_entry)
    (simp_all add: reserve_row_def)

lemma keeps_settle: "T t \<Longrightarrow> keeps I (settle_wallet_reservation t c payment consume)"
  unfolding settle_wallet_reservation_def settle_portion_def
  by (intro keeps_intros inv_wallet_account inv_adjust_batch inv_allocation_status keeps_append_entry)
    (simp_all add: settle_row_def)

end

sublocale wallet_writes \<subseteq> wallet_invariant
  by unfold_locales (rule keeps_credit keeps_reserve keeps_settle inv_wallet_account; assumption)+

interpretation wallet_receipts: wallet_writes "\<lambda>d. receipts d = rs" "\<lambda>_. True" for rs
  by unfold_locales (auto simp: keeps_def insert_batch_def adjust_batch_def insert_allocation_def set_allocation_status_def
      insert_entry_def record_tenant_audit_def lock_wallet_def ok_iff)

interpretation ledger: wallet_invariant wallet_ledger "\<lambda>_. True"
proof
  show "keeps wallet_ledger (record_tenant_audit a s r ds)" for a s r ds
    by (auto simp: keeps_def record_tenant_audit_def ok_iff wallet_ledger_def)
qed (simp_all add: credit_wallet_ledger reserve_wallet_ledger settle_wallet_ledger lock_wallet_ledger)


section \<open>What a reservation and its settlement move\<close>

definition taken :: "money \<Rightarrow> wallet_portion list \<Rightarrow> string \<Rightarrow> cents" where
  "taken m ps i = sum_list (map (share m) (filter (\<lambda>p. wp_batch p = i) ps))"

text \<open>The rows after a share of each portion has gone to the available and to the reserved money.\<close>

definition shift_row :: "string \<Rightarrow> string \<Rightarrow> int \<Rightarrow> int \<Rightarrow> wallet_portion list \<Rightarrow> batch_row \<Rightarrow> batch_row" where
  "shift_row t c x y ps r =
     (if wr_tenant r = t \<and> wr_customer r = c
      then r\<lparr>wr_avail_principal := wr_avail_principal r + x * taken Principal ps (wr_id r),
        wr_avail_gift := wr_avail_gift r + x * taken Gift ps (wr_id r),
        wr_res_principal := wr_res_principal r + y * taken Principal ps (wr_id r),
        wr_res_gift := wr_res_gift r + y * taken Gift ps (wr_id r)\<rparr>
      else r)"

lemma taken_simps [simp]:
  "taken m [] i = 0" "taken m (p # ps) i = (if wp_batch p = i then share m p else 0) + taken m ps i"
  by (simp_all add: taken_def)

lemma taken_mset:
  assumes "mset ps = mset qs"
  shows "taken m ps i = taken m qs i"
  unfolding taken_def sum_mset_sum_list [symmetric] mset_map mset_filter assms ..

lemma shift_row_Nil [simp]: "shift_row t c x y [] = id"
  by (rule ext) (simp add: shift_row_def)

lemma shift_row_mset: "mset ps = mset qs \<Longrightarrow> shift_row t c x y ps = shift_row t c x y qs"
proof -
  assume "mset ps = mset qs"
  from taken_mset [OF this] show ?thesis by (intro ext) (simp add: shift_row_def)
qed

lemma shift_reserve:
  "shift_row t c (- 1) 1 ps (adjust_row t c (wp_batch p) (reserve_row p) r) = shift_row t c (- 1) 1 (p # ps) r"
  by (cases "wr_tenant r = t \<and> wr_customer r = c"; cases "wp_batch p = wr_id r")
    (simp_all add: shift_row_def adjust_row_def reserve_row_def batch_key_def del: de_Morgan_conj)

lemma shift_settle:
  "shift_row t c (if consume then 0 else 1) (- 1) ps (adjust_row t c (wp_batch p) (settle_row consume p) r)
     = shift_row t c (if consume then 0 else 1) (- 1) (p # ps) r"
  by (cases "wr_tenant r = t \<and> wr_customer r = c"; cases "wp_batch p = wr_id r"; cases consume)
    (simp_all add: shift_row_def adjust_row_def settle_row_def batch_key_def del: de_Morgan_conj)

lemma shift_back: "shift_row t c 1 (- 1) ps (shift_row t c (- 1) 1 ps r) = r"
  by (cases "wr_tenant r = t \<and> wr_customer r = c") (simp_all add: shift_row_def del: de_Morgan_conj)

definition reserved_row :: "string \<Rightarrow> string \<Rightarrow> string \<Rightarrow> wallet_portion \<Rightarrow> allocation_row" where
  "reserved_row t c payment p = \<lparr>wa_tenant = t, wa_customer = c, wa_payment = payment, wa_batch = wp_batch p,
     wa_principal = wp_principal p, wa_gift = wp_gift p, wa_status = Reserved\<rparr>"

lemma reserve_portion_run:
  assumes "reserve_portion t c payment p E d = Inr (x, d')"
  shows "batches d' = map (adjust_row t c (wp_batch p) (reserve_row p)) (batches d) \<and>
    allocations d' = allocations d @ [reserved_row t c payment p]"
proof -
  obtain u d1 v d2 where 1: "adjust_batch t c (wp_batch p) (reserve_row p) E d = Inr (u, d1)"
    and 2: "insert_allocation (reserved_row t c payment p) E d1 = Inr (v, d2)"
    and 3: "append_wallet_entry t c EReserve payment p E d2 = Inr (x, d')"
    using assms unfolding reserve_portion_def reserved_row_def tseq_Inr by blast
  obtain e n where "d' = d2\<lparr>entries := entries d2 @ [e], ticks := n, uuids := Suc (uuids d2)\<rparr>"
    by (rule append_entry_Inr [OF 3])
  then show ?thesis using adjust_batch_Inr [OF 1] insert_allocation_Inr [OF 2] by simp
qed

lemma reserve_loop_run:
  "teach (reserve_portion t c payment) ps E d = Inr (x, d') \<Longrightarrow>
     batches d' = map (shift_row t c (- 1) 1 ps) (batches d) \<and>
     allocations d' = allocations d @ map (reserved_row t c payment) ps"
proof (induction ps arbitrary: d)
  case (Cons p ps)
  then obtain u d1 where 1: "reserve_portion t c payment p E d = Inr (u, d1)"
    and 2: "teach (reserve_portion t c payment) ps E d1 = Inr (x, d')"
    unfolding teach.simps tseq_Inr by blast
  show ?case using Cons.IH [OF 2] reserve_portion_run [OF 1] by (simp add: shift_reserve)
qed (simp add: ok_iff)

lemma settle_loop_run:
  "teach (settle_portion t c payment consume) ps E d = Inr (x, d') \<Longrightarrow>
     batches d' = map (shift_row t c (if consume then 0 else 1) (- 1) ps) (batches d) \<and>
     allocations d' = map (\<lambda>a. if wa_tenant a = t \<and> wa_payment a = payment \<and> wa_batch a \<in> wp_batch ` set ps
       then a\<lparr>wa_status := if consume then Consumed else Released\<rparr> else a) (allocations d)"
proof (induction ps arbitrary: d)
  case (Cons p ps)
  then obtain u d1 where 1: "settle_portion t c payment consume p E d = Inr (u, d1)"
    and 2: "teach (settle_portion t c payment consume) ps E d1 = Inr (x, d')"
    unfolding teach.simps tseq_Inr by blast
  show ?case
    using Cons.IH [OF 2] settle_portion_run [OF 1] by (auto simp: shift_settle status_row_def)
qed (simp add: ok_iff)

text \<open>The status update of a settlement reaches exactly the reserved allocations of the payment.\<close>

definition settle_status :: "string \<Rightarrow> string \<Rightarrow> string \<Rightarrow> bool \<Rightarrow> allocation_row \<Rightarrow> allocation_row" where
  "settle_status t c payment consume a =
     (if wa_tenant a = t \<and> wa_customer a = c \<and> wa_payment a = payment \<and> wa_status a = Reserved
      then a\<lparr>wa_status := if consume then Consumed else Released\<rparr> else a)"

lemma settle_status_not_reserved:
  "\<not> (wa_tenant (settle_status t c payment consume a) = t \<and> wa_customer (settle_status t c payment consume a) = c \<and>
     wa_payment (settle_status t c payment consume a) = payment \<and> wa_status (settle_status t c payment consume a) = Reserved)"
  by (simp add: settle_status_def)

lemma settle_wallet_run:
  assumes L: "wallet_ledger d" and run: "settle_wallet_reservation t c payment consume E d = Inr (x, d')"
  shows "batches d' = map (shift_row t c (if consume then 0 else 1) (- 1) (settled_portions E t c payment d)) (batches d) \<and>
    allocations d' = map (settle_status t c payment consume) (allocations d)"
proof -
  obtain ws where ws: "teach (settle_portion t c payment consume) (settled_portions E t c payment d) E (d\<lparr>wallets := ws\<rparr>) = Inr (x, d')"
    by (rule settle_wallet_Inr [OF run])
  have dist: "distinct (map allocation_key (allocations d))" using L by (simp add: wallet_ledger_def)
  have portion: "wa_batch a \<in> wp_batch ` set (settled_portions E t c payment d) \<longleftrightarrow> wa_customer a = c \<and> wa_status a = Reserved"
    if a: "a \<in> set (allocations d)" "wa_tenant a = t" "wa_payment a = payment" for a
  proof
    assume "wa_batch a \<in> wp_batch ` set (settled_portions E t c payment d)"
    then obtain b where b: "b \<in> set (allocations d)" "wa_tenant b = t" "wa_customer b = c" "wa_payment b = payment"
        "wa_status b = Reserved" "wa_batch b = wa_batch a"
      by (auto simp: settled_portions_def reserved_allocations_def allocation_portion_def)
    then have "allocation_key a = allocation_key b" using a by (simp add: allocation_key_def)
    then have "a = b" using dist a(1) b(1) by (simp add: distinct_map inj_on_def)
    then show "wa_customer a = c \<and> wa_status a = Reserved" using b by simp
  next
    assume "wa_customer a = c \<and> wa_status a = Reserved"
    then have "allocation_portion a \<in> set (settled_portions E t c payment d)"
      using a by (auto simp: settled_portions_def reserved_allocations_def)
    then show "wa_batch a \<in> wp_batch ` set (settled_portions E t c payment d)"
      by (force simp: allocation_portion_def)
  qed
  have "map (\<lambda>a. if wa_tenant a = t \<and> wa_payment a = payment \<and> wa_batch a \<in> wp_batch ` set (settled_portions E t c payment d)
       then a\<lparr>wa_status := if consume then Consumed else Released\<rparr> else a) (allocations d)
      = map (settle_status t c payment consume) (allocations d)"
    using portion by (intro map_cong [OF refl]) (auto simp: settle_status_def)
  then show ?thesis using settle_loop_run [OF ws] by simp
qed

lemma reserve_wallet_run:
  assumes "reserve_wallet t c payment amount E d = Inr (x, d')" "amount \<noteq> 0"
  obtains ps where "allocate_wallet_debit amount (map debit_batch (own_batches t c d)) = Inr ps"
    "batches d' = map (shift_row t c (- 1) 1 ps) (batches d)"
    "allocations d' = allocations d @ map (reserved_row t c payment) ps"
proof -
  obtain u d1 ps where 1: "lock_wallet t c E d = Inr (u, d1)"
    and 2: "allocate_wallet_debit amount (map debit_batch (own_batches t c d1)) = Inr ps"
    and 3: "teach (reserve_portion t c payment) ps E d1 = Inr (x, d')"
    using assms by (auto simp: reserve_wallet_def ok_iff in_wallet_Inr)
  obtain ws where "d1 = d\<lparr>wallets := ws\<rparr>" using lock_wallet_Inr [OF 1] by blast
  then show thesis using that 2 reserve_loop_run [OF 3] by (simp add: own_batches_def)
qed


lemma shift_row_simps [simp]:
  "wr_id (shift_row t c x y ps r) = wr_id r" "wr_tenant (shift_row t c x y ps r) = wr_tenant r"
  "wr_customer (shift_row t c x y ps r) = wr_customer r"
  by (simp_all add: shift_row_def)

lemma own_batches_shift:
  assumes "batches d' = map (shift_row t c x y ps) (batches d)"
  shows "own_batches t c d' = map (shift_row t c x y ps) (own_batches t c d)"
    and "(t', c') \<noteq> (t, c) \<Longrightarrow> own_batches t' c' d' = own_batches t' c' d"
proof -
  show "own_batches t c d' = map (shift_row t c x y ps) (own_batches t c d)"
    by (simp add: own_batches_def assms filter_map comp_def)
  show "own_batches t' c' d' = own_batches t' c' d" if "(t', c') \<noteq> (t, c)"
  proof -
    have "map (shift_row t c x y ps) (filter (\<lambda>r. wr_tenant r = t' \<and> wr_customer r = c') (batches d))
        = map id (filter (\<lambda>r. wr_tenant r = t' \<and> wr_customer r = c') (batches d))"
      using that by (intro map_cong [OF refl]) (auto simp: shift_row_def)
    then show ?thesis by (simp add: own_batches_def assms filter_map comp_def)
  qed
qed

lemma sum_taken:
  fixes rs :: "batch_row list"
  assumes "distinct (map wr_id rs)" "\<And>p. p \<in> set ps \<Longrightarrow> wp_batch p \<in> wr_id ` set rs"
  shows "sum_list (map (\<lambda>r. taken m ps (wr_id r)) rs) = sum_list (map (share m) ps)"
  using assms(2)
proof (induction ps)
  case (Cons p ps)
  have one: "sum_list (map (\<lambda>r. if wp_batch p = wr_id r then s else 0) qs) = s"
    if "distinct (map wr_id qs)" "wp_batch p \<in> wr_id ` set qs" for qs :: "batch_row list" and s :: int
    using that
  proof (induction qs)
    case (Cons q qs)
    show ?case
    proof (cases "wp_batch p = wr_id q")
      case True
      then have "sum_list (map (\<lambda>r. if wp_batch p = wr_id r then s else 0) qs) = 0"
        using Cons.prems(1) by (intro sum_list_zero_map) auto
      then show ?thesis using True by simp
    next
      case False
      then show ?thesis using Cons by auto
    qed
  qed simp
  show ?case
    using Cons one [OF assms(1), of "share m p"] by (simp add: sum_list_map_add)
qed simp

definition own_money :: "(batch_row \<Rightarrow> cents) \<Rightarrow> batch_row list \<Rightarrow> cents" where
  "own_money f rs = sum_list (map f rs)"

text \<open>A shift of all the portions moves their sum.\<close>

lemma balance_shift:
  assumes "distinct (map wr_id rs)" "\<And>p. p \<in> set ps \<Longrightarrow> wp_batch p \<in> wr_id ` set rs"
    and "\<And>r. r \<in> set rs \<Longrightarrow> wr_tenant r = t \<and> wr_customer r = c"
  shows "wl_available (balance_of (map (shift_row t c x y ps) rs)) = wl_available (balance_of rs) + x * sum_list (map wp_total ps)"
    and "wl_reserved (balance_of (map (shift_row t c x y ps) rs)) = wl_reserved (balance_of rs) + y * sum_list (map wp_total ps)"
proof -
  have total: "sum_list (map wp_total ps) = sum_list (map (share Principal) ps) + sum_list (map (share Gift) ps)"
    by (induction ps) (simp_all add: wp_total_def)
  have move: "sum_list (map (\<lambda>r. f r + z * (taken Principal ps (wr_id r) + taken Gift ps (wr_id r))) rs)
      = sum_list (map f rs) + z * sum_list (map wp_total ps)" for f :: "batch_row \<Rightarrow> int" and z
    by (simp add: sum_list_map_add sum_list_const_mult sum_taken [OF assms(1,2)] total)
  have "sum_list (map (\<lambda>r. wr_avail_principal (shift_row t c x y ps r) + wr_avail_gift (shift_row t c x y ps r)) rs)
      = sum_list (map (\<lambda>r. wr_avail_principal r + wr_avail_gift r + x * (taken Principal ps (wr_id r) + taken Gift ps (wr_id r))) rs)"
    using assms(3) by (intro arg_cong [of _ _ sum_list] map_cong [OF refl]) (simp add: shift_row_def algebra_simps)
  then show "wl_available (balance_of (map (shift_row t c x y ps) rs)) = wl_available (balance_of rs) + x * sum_list (map wp_total ps)"
    by (simp add: balance_of_def Let_def comp_def move)
  have "sum_list (map (\<lambda>r. wr_res_principal (shift_row t c x y ps r) + wr_res_gift (shift_row t c x y ps r)) rs)
      = sum_list (map (\<lambda>r. wr_res_principal r + wr_res_gift r + y * (taken Principal ps (wr_id r) + taken Gift ps (wr_id r))) rs)"
    using assms(3) by (intro arg_cong [of _ _ sum_list] map_cong [OF refl]) (simp add: shift_row_def algebra_simps)
  then show "wl_reserved (balance_of (map (shift_row t c x y ps) rs)) = wl_reserved (balance_of rs) + y * sum_list (map wp_total ps)"
    by (simp add: balance_of_def Let_def comp_def move)
qed

lemma balance_total [simp]: "wl_total (balance_of rs) = wl_available (balance_of rs) + wl_reserved (balance_of rs)"
  by (simp add: balance_of_def Let_def)

lemma own_batches_distinct: "wallet_ledger d \<Longrightarrow> distinct (map wr_id (own_batches t c d))"
  by (simp add: wallet_ledger_def own_batches_def distinct_map_filter)

lemma own_batches_own: "r \<in> set (own_batches t c d) \<Longrightarrow> wr_tenant r = t \<and> wr_customer r = c"
  by (simp add: own_batches_def)

lemma debit_portions:
  assumes "allocate_wallet_debit amount (map debit_batch rs) = Inr ps"
  shows "sum_list (map wp_total ps) = amount" "p \<in> set ps \<Longrightarrow> wp_batch p \<in> wr_id ` set rs"
proof -
  have "debit_loop amount (map debit_batch rs) = Inr ps" "0 \<le> amount"
    using assms by (auto simp: allocate_wallet_debit_def ok_iff valid_cents_def)
  from debit_loop_ok [OF this]
  obtain qs where q: "sum_list (map wp_total ps) = amount" "subseq qs (map debit_batch rs)" "list_all2 portion_fits qs ps"
    by blast
  show "sum_list (map wp_total ps) = amount" by (rule q(1))
  show "wp_batch p \<in> wr_id ` set rs" if "p \<in> set ps"
  proof -
    have "\<exists>b\<in>set qs. portion_fits b p" using q(3) that by (induction rule: list_all2_induct) auto
    then obtain b where b: "b \<in> set qs" "portion_fits b p" by blast
    obtain b' where "b' \<in> set (map debit_batch rs)" "b = b'" by (rule list_emb_set [OF q(2) b(1)])
    then have "wp_batch p \<in> wb_id ` set (map debit_batch rs)" using b(2) by (auto simp: portion_fits_def)
    then show ?thesis by (auto simp: debit_batch_def)
  qed
qed


lemma reserved_row_portion [simp]: "allocation_portion (reserved_row t c payment p) = p"
  by (simp add: allocation_portion_def reserved_row_def)

lemma reserved_rows:
  "filter (\<lambda>r. wa_tenant r = t \<and> wa_customer r = c \<and> wa_payment r = payment \<and> wa_status r = Reserved)
     (map (reserved_row t c payment) ps) = map (reserved_row t c payment) ps"
  by (simp add: reserved_row_def)

text \<open>A settlement with nothing reserved only creates the wallet account.\<close>

lemma settle_nothing:
  assumes "reserved_allocations t c payment d = []"
  shows "\<exists>ws. settle_wallet_reservation t c payment consume E d = Inr ((), d\<lparr>wallets := ws\<rparr>)"
proof -
  obtain d1 where 1: "lock_wallet t c E d = Inr ((), d1)" by (simp add: lock_wallet_def tmodify_def)
  obtain ws where ws: "d1 = d\<lparr>wallets := ws\<rparr>" using lock_wallet_Inr [OF 1] by blast
  have "reserved_allocations t c payment d1 = []" using assms unfolding ws by (simp add: reserved_allocations_def)
  then show ?thesis
    by (simp add: settle_wallet_reservation_def tseq_def tbind_def 1 tenv_def tread_def sort_by_def tret_def) (use ws in blast)
qed

text \<open>A wallet with two top-ups on which the theorems are exercised.\<close>

definition sample_batch :: "string \<Rightarrow> cents \<Rightarrow> cents \<Rightarrow> batch_row" where
  "sample_batch i p g = \<lparr>wr_id = i, wr_tenant = ''t'', wr_customer = ''k'', wr_venue = ''v'', wr_principal = p,
     wr_gift = g, wr_avail_principal = p, wr_avail_gift = g, wr_res_principal = 0, wr_res_gift = 0,
     wr_source_kind = Offline, wr_source_reference = i, wr_reason = ''r'', wr_created_by = ''admin''\<rparr>"

definition topup_entry :: "batch_row \<Rightarrow> entry_row" where
  "topup_entry r = \<lparr>we_id = wr_id r, we_tenant = ''t'', we_customer = ''k'', we_batch = wr_id r, we_kind = ETopup,
     we_principal = wr_principal r, we_gift = wr_gift r, we_source = wr_id r, we_created = 0\<rparr>"

definition wallet_db :: db where
  "wallet_db = sample_db\<lparr>wallets := [(''t'', ''k'')], batches := [sample_batch ''b1'' 1000 200, sample_batch ''b2'' 300 100],
     entries := map topup_entry [sample_batch ''b1'' 1000 200, sample_batch ''b2'' 300 100]\<rparr>"

lemma all_money: "(\<forall>m. P m) \<longleftrightarrow> P Principal \<and> P Gift"
  by (metis money.exhaust)

lemma wallet_db_ledger: "wallet_ledger wallet_db"
  by (simp add: wallet_db_def wallet_ledger_def sample_db_def empty_db_def sample_batch_def topup_entry_def batch_checks_def
      max_safe_def all_money in_books_def booked_def allocated_def entry_portion_def batch_key_def)

lemma wallet_db_reserve: "okE (reserve_wallet ''t'' ''k'' ''p'' 1250 sample_env wallet_db)"
  by code_simp

section \<open>Properties\<close>

text \<open>
  C15: A reservation moves exactly the amount of the payment from the available to the reserved
  money of the customer: the total stays, every batch of another customer stays as it is, and
  the reserved allocations written for the payment add up to the amount.
\<close>

theorem reserve_moves_amount:
  assumes "wallet_ledger d" "reserve_wallet t c payment amount E d = Inr (u, d')" "amount \<noteq> 0"
  shows "wl_available (balance_of (own_batches t c d')) = wl_available (balance_of (own_batches t c d)) - amount \<and>
    wl_reserved (balance_of (own_batches t c d')) = wl_reserved (balance_of (own_batches t c d)) + amount \<and>
    wl_total (balance_of (own_batches t c d')) = wl_total (balance_of (own_batches t c d)) \<and>
    (\<forall>t' c'. (t', c') \<noteq> (t, c) \<longrightarrow> own_batches t' c' d' = own_batches t' c' d) \<and>
    (\<exists>new. allocations d' = allocations d @ new \<and> sum_list (map (\<lambda>a. wp_total (allocation_portion a)) new) = amount \<and>
       (\<forall>a\<in>set new. wa_tenant a = t \<and> wa_customer a = c \<and> wa_payment a = payment \<and> wa_status a = Reserved))"
proof -
  obtain ps where debit: "allocate_wallet_debit amount (map debit_batch (own_batches t c d)) = Inr ps"
    and bs: "batches d' = map (shift_row t c (- 1) 1 ps) (batches d)"
    and al: "allocations d' = allocations d @ map (reserved_row t c payment) ps"
    by (rule reserve_wallet_run [OF assms(2,3)])
  have sum: "sum_list (map wp_total ps) = amount" by (rule debit_portions(1) [OF debit])
  have own: "\<And>r. r \<in> set (own_batches t c d) \<Longrightarrow> wr_tenant r = t \<and> wr_customer r = c"
    by (rule own_batches_own)
  have there: "\<And>p. p \<in> set ps \<Longrightarrow> wp_batch p \<in> wr_id ` set (own_batches t c d)"
    by (rule debit_portions(2) [OF debit])
  note move = balance_shift [where x = "- 1" and y = 1 and ps = ps, OF own_batches_distinct [OF assms(1)] there own,
      unfolded own_batches_shift(1) [OF bs, symmetric] sum]
  have portions: "map (\<lambda>a. wp_total (allocation_portion a)) (map (reserved_row t c payment) ps) = map wp_total ps"
    by simp
  have new: "\<forall>a\<in>set (map (reserved_row t c payment) ps). wa_tenant a = t \<and> wa_customer a = c \<and> wa_payment a = payment \<and> wa_status a = Reserved"
    by (simp add: reserved_row_def)
  show ?thesis
  proof (intro conjI)
    show "\<exists>new. allocations d' = allocations d @ new \<and> sum_list (map (\<lambda>a. wp_total (allocation_portion a)) new) = amount \<and>
       (\<forall>a\<in>set new. wa_tenant a = t \<and> wa_customer a = c \<and> wa_payment a = payment \<and> wa_status a = Reserved)"
      using al new sum unfolding portions [symmetric] by blast
    show "\<forall>t' c'. (t', c') \<noteq> (t, c) \<longrightarrow> own_batches t' c' d' = own_batches t' c' d"
      using own_batches_shift(2) [OF bs] by blast
  qed (use move in simp_all)
qed

text \<open>
  C16: A reservation that is released again leaves no trace in the balances: after reserving an
  amount for a new payment and releasing it, every batch has the columns it had before.
\<close>

theorem reserve_release_restores:
  assumes "wallet_ledger d" "reserve_wallet t c payment amount E d = Inr (u, d1)"
    and "settle_wallet_reservation t c payment False E' d1 = Inr (v, d2)"
    and "\<forall>a\<in>set (allocations d). \<not> (wa_tenant a = t \<and> wa_payment a = payment)"
  shows "batches d2 = batches d"
proof -
  have L1: "wallet_ledger d1" using keepsD [OF reserve_wallet_ledger assms(1,2)] .
  have none: "reserved_allocations t c payment d = []"
    using assms(4) by (auto simp: reserved_allocations_def filter_empty_conv)
  note settle = settle_wallet_run [OF L1 assms(3)]
  show ?thesis
  proof (cases "amount = 0")
    case True
    then have "d1 = d" using assms(2) by (simp add: reserve_wallet_def tret_def)
    moreover have "settled_portions E' t c payment d = []" unfolding settled_portions_def none by (simp add: sort_by_def)
    ultimately show ?thesis using settle by simp
  next
    case False
    then obtain ps where bs: "batches d1 = map (shift_row t c (- 1) 1 ps) (batches d)"
      and al: "allocations d1 = allocations d @ map (reserved_row t c payment) ps"
      by (rule reserve_wallet_run [OF assms(2)])
    have "reserved_allocations t c payment d1 = map (reserved_row t c payment) ps"
      using none reserved_rows [of t c payment ps] unfolding reserved_allocations_def al by simp
    then have "map allocation_portion (reserved_allocations t c payment d1) = ps" by (simp add: comp_def)
    then have "mset (settled_portions E' t c payment d1) = mset ps" by (simp add: settled_portions_def)
    then have "shift_row t c 1 (- 1) (settled_portions E' t c payment d1) = shift_row t c 1 (- 1) ps"
      by (rule shift_row_mset)
    then show ?thesis using settle bs by (simp add: comp_def shift_back)
  qed
qed


theorem reserve_moves_amount_witness:
  "\<exists>d'. reserve_wallet ''t'' ''k'' ''p'' 1250 sample_env wallet_db = Inr ((), d') \<and>
     wl_available (balance_of (own_batches ''t'' ''k'' d')) = 350 \<and> wl_reserved (balance_of (own_batches ''t'' ''k'' d')) = 1250"
proof -
  obtain d' where r: "reserve_wallet ''t'' ''k'' ''p'' 1250 sample_env wallet_db = Inr ((), d')"
    using wallet_db_reserve by (auto simp: okE_iff)
  have "wl_available (balance_of (own_batches ''t'' ''k'' wallet_db)) = 1600"
       "wl_reserved (balance_of (own_batches ''t'' ''k'' wallet_db)) = 0"
    by (simp_all add: wallet_db_def own_batches_def balance_of_def sample_batch_def)
  then show ?thesis using reserve_moves_amount [OF wallet_db_ledger r] r by auto
qed

theorem reserve_release_restores_witness:
  "\<exists>d' d''. reserve_wallet ''t'' ''k'' ''p'' 1250 sample_env wallet_db = Inr ((), d') \<and> batches d' \<noteq> batches wallet_db \<and>
     settle_wallet_reservation ''t'' ''k'' ''p'' False sample_env d' = Inr ((), d'') \<and> batches d'' = batches wallet_db"
proof -
  have "case reserve_wallet ''t'' ''k'' ''p'' 1250 sample_env wallet_db of Inl _ \<Rightarrow> False
      | Inr (u, d') \<Rightarrow> wl_reserved (balance_of (batches d')) \<noteq> wl_reserved (balance_of (batches wallet_db)) \<and>
          okE (settle_wallet_reservation ''t'' ''k'' ''p'' False sample_env d')"
    by code_simp
  then obtain d' d'' where r: "reserve_wallet ''t'' ''k'' ''p'' 1250 sample_env wallet_db = Inr ((), d')"
      "settle_wallet_reservation ''t'' ''k'' ''p'' False sample_env d' = Inr ((), d'')" "batches d' \<noteq> batches wallet_db"
    by (auto simp: okE_iff split: sum.splits prod.splits) (metis (full_types))
  have "\<forall>a\<in>set (allocations wallet_db). \<not> (wa_tenant a = ''t'' \<and> wa_payment a = ''p'')"
    by (simp add: wallet_db_def sample_db_def empty_db_def)
  from reserve_release_restores [OF wallet_db_ledger r(1,2) this] r show ?thesis by blast
qed


end
