(* ===== verification/Orders.thy ===== *)
theory Orders
  imports Selling Policy WalletStore
begin

text \<open>
  The tables of orders, their lines, payments and amendments, and what booking.ts, amendments.ts,
  payments.ts and refunds.ts share: access to a venue, the readers, and the release of what a
  lapsed or cancelled order, amendment or payment holds (payment-lifecycle.ts). The keys, the
  CHECK constraints and the partial unique indexes of these tables are part of the writes.
\<close>

section \<open>Quotes and orders\<close>

definition insert_quote :: "quote_row \<Rightarrow> unit tx" where
  "insert_quote r =
     tseq (tcheck (\<lambda>d. \<not> list_ex (\<lambda>q. qt_id q = qt_id r) (quotes d)) (SqlErr UniqueViolation))
     (tmodify (\<lambda>d. d\<lparr>quotes := quotes d @ [r]\<rparr>))"

definition order_checks :: "order_row \<Rightarrow> bool" where
  "order_checks r \<longleftrightarrow> 0 \<le> or_total r \<and> or_total r \<le> max_safe \<and> (or_status r = Held) = (or_hold_until r \<noteq> None) \<and>
     (or_hold_kind r = StaffHold \<longrightarrow> (case or_hold_reason r of None \<Rightarrow> False | Some s \<Rightarrow> \<not> blank s)) \<and>
     (or_payment r = NotRequired \<longrightarrow> or_total r = 0) \<and> 0 < or_revision r"

definition insert_order :: "order_row \<Rightarrow> unit tx" where
  "insert_order r =
     tseq (tcheck (\<lambda>d. \<not> list_ex (\<lambda>q. or_id q = or_id r \<or> or_quote q = or_quote r) (orders d)) (SqlErr UniqueViolation))
     (tseq (tguard (order_checks r) (SqlErr CheckViolation))
     (tmodify (\<lambda>d. d\<lparr>orders := orders d @ [r]\<rparr>)))"

definition order_key :: "string \<Rightarrow> string \<Rightarrow> order_row \<Rightarrow> bool" where
  "order_key t i r \<longleftrightarrow> or_tenant r = t \<and> or_id r = i"

definition change_order :: "string \<Rightarrow> string \<Rightarrow> (order_row \<Rightarrow> order_row) \<Rightarrow> order_row \<Rightarrow> order_row" where
  "change_order t i f r = (if order_key t i r then f r else r)"

text \<open>UPDATE of one order; the new row is a function of the clock, refused by a CHECK.\<close>

definition update_order :: "string \<Rightarrow> string \<Rightarrow> (instant \<Rightarrow> order_row \<Rightarrow> order_row) \<Rightarrow> unit tx" where
  "update_order t i f =
     tbind tclock (\<lambda>now.
     tseq (tcheck (\<lambda>d. list_all (\<lambda>r. order_checks (f now r)) (filter (order_key t i) (orders d))) (SqlErr CheckViolation))
     (tmodify (\<lambda>d. d\<lparr>orders := map (change_order t i (f now)) (orders d)\<rparr>)))"

section \<open>Lines\<close>

definition line_checks :: "order_line_row \<Rightarrow> bool" where
  "line_checks r \<longleftrightarrow> 0 \<le> ol_amount r \<and> ol_amount r \<le> max_safe \<and> 0 \<le> ol_funding r \<and> ol_funding r \<le> max_safe \<and>
     ol_start r < ol_end r \<and> ol_start r mod 900000 = 0 \<and> ol_end r mod 900000 = 0 \<and>
     (ol_cancelled_before_payment r \<longrightarrow> ol_cancelled r \<noteq> None \<and> ol_funding r = 0)"

definition insert_line :: "order_line_row \<Rightarrow> unit tx" where
  "insert_line r =
     tseq (tcheck (\<lambda>d. \<not> list_ex (\<lambda>q. ol_id q = ol_id r \<or> (ol_order q = ol_order r \<and> ol_position q = ol_position r)) (order_lines d))
       (SqlErr UniqueViolation))
     (tseq (tguard (line_checks r) (SqlErr CheckViolation))
     (tmodify (\<lambda>d. d\<lparr>order_lines := order_lines d @ [r]\<rparr>)))"

definition change_line :: "(order_line_row \<Rightarrow> bool) \<Rightarrow> (order_line_row \<Rightarrow> order_line_row) \<Rightarrow> order_line_row \<Rightarrow> order_line_row" where
  "change_line P f r = (if P r then f r else r)"

definition update_lines :: "(order_line_row \<Rightarrow> bool) \<Rightarrow> (instant \<Rightarrow> order_line_row \<Rightarrow> order_line_row) \<Rightarrow> unit tx" where
  "update_lines P f =
     tbind tclock (\<lambda>now.
     tseq (tcheck (\<lambda>d. list_all (\<lambda>r. line_checks (f now r)) (filter P (order_lines d))) (SqlErr CheckViolation))
     (tmodify (\<lambda>d. d\<lparr>order_lines := map (change_line P (f now)) (order_lines d)\<rparr>)))"

definition cancel_line :: "instant \<Rightarrow> order_line_row \<Rightarrow> order_line_row" where
  "cancel_line now r = r\<lparr>ol_cancelled := Some now\<rparr>"

section \<open>Payments\<close>

text \<open>
  One pending payment of an order, one successful initial payment of an order, one successful
  payment of an amendment, and a channel transaction settles one payment.
\<close>

definition payments_clash :: "payment_row \<Rightarrow> payment_row \<Rightarrow> bool" where
  "payments_clash p q \<longleftrightarrow>
     py_id p = py_id q \<or>
     (py_tenant p = py_tenant q \<and> py_order p = py_order q \<and> py_status p = Pending \<and> py_status q = Pending) \<or>
     (py_tenant p = py_tenant q \<and> py_order p = py_order q \<and> py_status p = Succeeded \<and> py_status q = Succeeded \<and>
        py_amendment p = None \<and> py_amendment q = None) \<or>
     (py_tenant p = py_tenant q \<and> py_amendment p = py_amendment q \<and> py_amendment p \<noteq> None \<and>
        py_status p = Succeeded \<and> py_status q = Succeeded) \<or>
     (py_provider p = py_provider q \<and> py_merchant p = py_merchant q \<and> py_transaction p = py_transaction q \<and>
        py_transaction p \<noteq> None)"

definition payments_unique :: "payment_row list \<Rightarrow> bool" where
  "payments_unique ps \<longleftrightarrow> sorted_wrt (\<lambda>p q. \<not> payments_clash p q) ps"

definition payment_checks :: "payment_row \<Rightarrow> bool" where
  "payment_checks r \<longleftrightarrow> 0 \<le> py_external r \<and> 0 \<le> py_wallet r \<and> 0 < py_wallet r + py_external r \<and>
     py_wallet r + py_external r \<le> max_safe \<and> (py_provider r = WalletProvider) = (py_external r = 0)"

definition insert_payment :: "payment_row \<Rightarrow> unit tx" where
  "insert_payment r =
     tseq (tguard (payment_checks r) (SqlErr CheckViolation))
     (tseq (tcheck (\<lambda>d. payments_unique (payments d @ [r])) (SqlErr UniqueViolation))
     (tmodify (\<lambda>d. d\<lparr>payments := payments d @ [r]\<rparr>)))"

definition change_payment :: "string \<Rightarrow> string \<Rightarrow> (payment_row \<Rightarrow> payment_row) \<Rightarrow> payment_row \<Rightarrow> payment_row" where
  "change_payment t i f r = (if py_tenant r = t \<and> py_id r = i then f r else r)"

definition update_payment :: "string \<Rightarrow> string \<Rightarrow> (instant \<Rightarrow> payment_row \<Rightarrow> payment_row) \<Rightarrow> unit tx" where
  "update_payment t i f =
     tbind tclock (\<lambda>now.
     tseq (tcheck (\<lambda>d. payments_unique (map (change_payment t i (f now)) (payments d))) (SqlErr UniqueViolation))
     (tmodify (\<lambda>d. d\<lparr>payments := map (change_payment t i (f now)) (payments d)\<rparr>)))"

section \<open>Amendments\<close>

definition change_amendment :: "string \<Rightarrow> string \<Rightarrow> (amendment_row \<Rightarrow> amendment_row) \<Rightarrow> amendment_row \<Rightarrow> amendment_row" where
  "change_amendment t i f r = (if am_tenant r = t \<and> am_id r = i then f r else r)"

definition amendment_checks :: "amendment_row \<Rightarrow> bool" where
  "amendment_checks r \<longleftrightarrow> 0 \<le> am_supplemental r \<and> 0 \<le> am_suggested r \<and>
     (am_status r = AmAwaiting) = (am_hold_until r \<noteq> None) \<and> (am_status r = AmApplied) = (am_applied r \<noteq> None) \<and>
     (case am_approved r of None \<Rightarrow> True | Some n \<Rightarrow> 0 \<le> n \<and> n \<le> am_suggested r) \<and>
     (am_unpaid r \<longrightarrow> am_supplemental r = 0 \<and> am_suggested r = 0 \<and> am_status r \<noteq> AmAwaiting)"

text \<open>One amendment of an order awaits payment.\<close>

definition amendments_unique :: "amendment_row list \<Rightarrow> bool" where
  "amendments_unique rs \<longleftrightarrow> sorted_wrt (\<lambda>p q. am_id p \<noteq> am_id q \<and>
     \<not> (am_tenant p = am_tenant q \<and> am_order p = am_order q \<and> am_status p = AmAwaiting \<and> am_status q = AmAwaiting)) rs"

definition update_amendment :: "string \<Rightarrow> string \<Rightarrow> (instant \<Rightarrow> amendment_row \<Rightarrow> amendment_row) \<Rightarrow> unit tx" where
  "update_amendment t i f =
     tbind tclock (\<lambda>now.
     tseq (tcheck (\<lambda>d. list_all amendment_checks (map (change_amendment t i (f now)) (filter (\<lambda>r. am_tenant r = t \<and> am_id r = i) (amendments d))))
       (SqlErr CheckViolation))
     (tseq (tcheck (\<lambda>d. amendments_unique (map (change_amendment t i (f now)) (amendments d))) (SqlErr UniqueViolation))
     (tmodify (\<lambda>d. d\<lparr>amendments := map (change_amendment t i (f now)) (amendments d)\<rparr>))))"

section \<open>Access and readers\<close>

definition require_booking_venue :: "actor \<Rightarrow> string \<Rightarrow> permission \<Rightarrow> unit tx" where
  "require_booking_venue a v p =
     tseq (assert_delegation a (Some v))
     (if \<not> is_customer_actor a then require_venue_permission a v p
      else
        tseq (tguard (\<not> (p \<noteq> PRead \<and> p \<noteq> PBook)) (AccessErr TenantAccessDenied))
        (tbind (tread (find_venue (ac_tenant a) v)) (\<lambda>row. tguard (row \<noteq> None) (AccessErr ResourceNotFound))))"

definition own_customer :: "actor \<Rightarrow> string \<Rightarrow> unit tx" where
  "own_customer a c = tguard (\<not> (is_customer_actor a \<and> ac_customer a \<noteq> Some c)) (AccessErr ResourceNotFound)"

definition find_quote :: "string \<Rightarrow> string \<Rightarrow> db \<Rightarrow> quote_row option" where
  "find_quote t i d = find (\<lambda>q. qt_tenant q = t \<and> qt_id q = i) (quotes d)"

definition quote_in_transaction :: "actor \<Rightarrow> string \<Rightarrow> quote_row tx" where
  "quote_in_transaction a i =
     tbind (tread (find_quote (ac_tenant a) i)) (\<lambda>row.
     tbind (tsome row (AccessErr ResourceNotFound)) (\<lambda>q.
     tseq (tguard (qt_created_by q = ac_subject a) (AccessErr ResourceNotFound))
     (tseq (own_customer a (qt_customer q)) (tret q))))"

record order_record =
  ow_row :: order_row
  ow_lines :: "order_line_row list"

definition find_order :: "string \<Rightarrow> string \<Rightarrow> db \<Rightarrow> order_row option" where
  "find_order t i d = find (order_key t i) (orders d)"

definition lines_of :: "string \<Rightarrow> string \<Rightarrow> db \<Rightarrow> order_line_row list" where
  "lines_of t i d = sort_key ol_position (filter (\<lambda>l. ol_tenant l = t \<and> ol_order l = i) (order_lines d))"

definition order_in_transaction :: "actor \<Rightarrow> string \<Rightarrow> order_record tx" where
  "order_in_transaction a i =
     tbind (tread (find_order (ac_tenant a) i)) (\<lambda>row.
     tbind (tsome row (AccessErr ResourceNotFound)) (\<lambda>o'.
     tseq (own_customer a (or_customer o'))
     (tbind (tread (lines_of (ac_tenant a) i)) (\<lambda>ls.
      tret \<lparr>ow_row = o', ow_lines = ls\<rparr>))))"

definition locate_order :: "actor \<Rightarrow> string \<Rightarrow> string tx" where
  "locate_order a i =
     tbind (tread (find_order (ac_tenant a) i)) (\<lambda>row.
     tbind (tsome row (AccessErr ResourceNotFound)) (\<lambda>o'.
     tseq (own_customer a (or_customer o')) (tret (or_venue o'))))"

record amendment_record =
  ad_row :: amendment_row
  ad_lines :: "amendment_line_row list"
  ad_group :: "string option"

definition find_amendment :: "string \<Rightarrow> string \<Rightarrow> db \<Rightarrow> amendment_row option" where
  "find_amendment t i d = find (\<lambda>r. am_tenant r = t \<and> am_id r = i) (amendments d)"

definition amendment_line_order :: "env \<Rightarrow> amendment_line_row \<Rightarrow> amendment_line_row \<Rightarrow> bool" where
  "amendment_line_order E p q \<longleftrightarrow> e_collate_le E (al_line p) (al_line q)"

definition amendment_in_transaction :: "string \<Rightarrow> string \<Rightarrow> amendment_record tx" where
  "amendment_in_transaction t i =
     tbind (tread (find_amendment t i)) (\<lambda>row.
     tbind (tsome row (AccessErr ResourceNotFound)) (\<lambda>am.
     tbind (tenv amendment_line_order) (\<lambda>le.
     tbind (tread (\<lambda>d. sort_by le (filter (\<lambda>l. al_tenant l = t \<and> al_amendment l = i) (amendment_lines d)))) (\<lambda>ls.
     tbind (tread (\<lambda>d. map_option rg_id (find (\<lambda>g. rg_tenant g = t \<and> rg_amendment g = Some i) (refund_groups d)))) (\<lambda>g.
     tret \<lparr>ad_row = am, ad_lines = ls, ad_group = g\<rparr>)))))"

definition find_payment :: "string \<Rightarrow> string \<Rightarrow> db \<Rightarrow> payment_row option" where
  "find_payment t i d = find (\<lambda>r. py_tenant r = t \<and> py_id r = i) (payments d)"

definition payment_in_transaction :: "string \<Rightarrow> string \<Rightarrow> payment_row tx" where
  "payment_in_transaction t i = tbind (tread (find_payment t i)) (\<lambda>row. tsome row (AccessErr ResourceNotFound))"

definition assert_no_pending_amendment :: "string \<Rightarrow> string \<Rightarrow> unit tx" where
  "assert_no_pending_amendment t i =
     tbind (tread (\<lambda>d. list_ex (\<lambda>r. am_tenant r = t \<and> am_order r = i \<and> am_status r = AmAwaiting) (amendments d))) (\<lambda>pending.
     tguard (\<not> pending) (AmendmentErr OrderAmendmentPending))"


section \<open>Releases\<close>

text \<open>Why something lapses: the statuses EXPIRED and CANCELLED of a payment and of an amendment.\<close>

datatype lapse = LapseExpired | LapseCancelled

fun lapse_payment :: "lapse \<Rightarrow> payment_status" where
  "lapse_payment LapseExpired = PExpired"
| "lapse_payment LapseCancelled = PCancelled"

fun lapse_amendment :: "lapse \<Rightarrow> amendment_status" where
  "lapse_amendment LapseExpired = AmExpired"
| "lapse_amendment LapseCancelled = AmCancelled"

fun lapse_json :: "lapse \<Rightarrow> json" where
  "lapse_json LapseExpired = JStr ''EXPIRED''"
| "lapse_json LapseCancelled = JStr ''CANCELLED''"

definition payment_status_to :: "payment_status \<Rightarrow> instant \<Rightarrow> payment_row \<Rightarrow> payment_row" where
  "payment_status_to st now r = r\<lparr>py_status := st\<rparr>"

definition payment_order :: "env \<Rightarrow> payment_row \<Rightarrow> payment_row \<Rightarrow> bool" where
  "payment_order E p q \<longleftrightarrow> e_collate_le E (py_id p) (py_id q)"

definition release_payment :: "string \<Rightarrow> string \<Rightarrow> lapse \<Rightarrow> payment_row \<Rightarrow> unit tx" where
  "release_payment t i st p =
     tseq (settle_wallet_reservation t (py_customer p) (py_id p) False)
     (tseq (update_payment t (py_id p) (payment_status_to (lapse_payment st)))
     (record_tenant_audit (system_actor t) ''payment.release'' (py_id p) [(''orderId'', JStr i), (''status'', lapse_json st)]))"

definition pending_payments :: "env \<Rightarrow> (payment_row \<Rightarrow> bool) \<Rightarrow> db \<Rightarrow> payment_row list" where
  "pending_payments E P d = sort_by (payment_order E) (filter (\<lambda>r. P r \<and> py_status r = Pending) (payments d))"

definition release_pending_payments :: "string \<Rightarrow> string \<Rightarrow> lapse \<Rightarrow> unit tx" where
  "release_pending_payments t i st =
     tbind (tenv (\<lambda>E. pending_payments E (\<lambda>r. py_tenant r = t \<and> py_order r = i))) (\<lambda>pending.
     tbind (tread pending) (teach (release_payment t i st)))"

definition release_order_inventory :: "string \<Rightarrow> string \<Rightarrow> unit tx" where
  "release_order_inventory t i =
     tbind (tread (\<lambda>d. map ol_id (filter (\<lambda>l. ol_tenant l = t \<and> ol_order l = i) (order_lines d)))) (\<lambda>ids.
     release_occupancies (\<lambda>r. oc_tenant r = t \<and> (\<exists>l\<in>set ids. oc_line r = Some l)))"

definition lapse_amendment_row :: "lapse \<Rightarrow> instant \<Rightarrow> amendment_row \<Rightarrow> amendment_row" where
  "lapse_amendment_row st now r = r\<lparr>am_status := lapse_amendment st, am_hold_until := None\<rparr>"

definition release_amendment_payment :: "string \<Rightarrow> string \<Rightarrow> lapse \<Rightarrow> payment_row \<Rightarrow> unit tx" where
  "release_amendment_payment t c st p =
     tseq (settle_wallet_reservation t c (py_id p) False)
     (update_payment t (py_id p) (payment_status_to (lapse_payment st)))"

definition release_amendment_in_transaction :: "string \<Rightarrow> string \<Rightarrow> lapse \<Rightarrow> unit tx" where
  "release_amendment_in_transaction t i st =
     tbind (amendment_in_transaction t i) (\<lambda>am.
     if am_status (ad_row am) \<notin> {AmQuoted, AmAwaiting} then tret ()
     else
       tbind (tenv (\<lambda>E. pending_payments E (\<lambda>r. py_tenant r = t \<and> py_amendment r = Some i))) (\<lambda>pending.
       tbind (tread pending) (\<lambda>ps.
       tseq (teach (release_amendment_payment t (am_customer (ad_row am)) st) ps)
       (tseq (release_occupancies (\<lambda>r. oc_tenant r = t \<and> oc_amendment r = Some i))
       (tseq (update_amendment t i (lapse_amendment_row st))
       (record_tenant_audit (system_actor t) ''amendment.release'' i
          [(''status'', lapse_json st), (''orderId'', JStr (am_order (ad_row am)))]))))))"

definition due_amendments :: "string \<Rightarrow> string \<Rightarrow> instant \<Rightarrow> db \<Rightarrow> amendment_row list" where
  "due_amendments t v now d =
     filter (\<lambda>r. am_tenant r = t \<and> am_venue r = v \<and> am_status r = AmAwaiting \<and>
       (case am_hold_until r of None \<Rightarrow> False | Some h \<Rightarrow> h \<le> now)) (amendments d)"

definition due_order :: "env \<Rightarrow> amendment_row \<Rightarrow> amendment_row \<Rightarrow> bool" where
  "due_order E p q \<longleftrightarrow>
     (if am_order p = am_order q then e_collate_le E (am_id p) (am_id q) else e_collate_le E (am_order p) (am_order q))"

definition expire_venue_amendments :: "string \<Rightarrow> string \<Rightarrow> string list tx" where
  "expire_venue_amendments t v =
     tbind tclock (\<lambda>now.
     tbind (tenv due_order) (\<lambda>le.
     tbind (tread (\<lambda>d. sort_by le (due_amendments t v now d))) (\<lambda>due.
     tseq (teach (\<lambda>r. release_amendment_in_transaction t (am_id r) LapseExpired) due)
       (tret (map am_id due)))))"

definition held_due :: "string \<Rightarrow> string \<Rightarrow> instant \<Rightarrow> order_row \<Rightarrow> bool" where
  "held_due t v now r \<longleftrightarrow> or_tenant r = t \<and> or_venue r = v \<and> or_status r = Held \<and>
     (case or_hold_until r of None \<Rightarrow> False | Some h \<Rightarrow> h \<le> now)"

definition expired_order :: "instant \<Rightarrow> order_row \<Rightarrow> order_row" where
  "expired_order now r = r\<lparr>or_status := Expired, or_hold_until := None, or_revision := or_revision r + 1, or_updated := now\<rparr>"

definition order_id_order :: "env \<Rightarrow> order_row \<Rightarrow> order_row \<Rightarrow> bool" where
  "order_id_order E p q \<longleftrightarrow> e_collate_le E (or_id p) (or_id q)"

definition expire_order :: "string \<Rightarrow> string \<Rightarrow> unit tx" where
  "expire_order t i =
     tseq (release_pending_payments t i LapseExpired)
     (tseq (release_order_inventory t i)
     (tseq (update_order t i expired_order)
     (record_tenant_audit (system_actor t) ''order.expire'' i [])))"

definition expire_venue_holds :: "string \<Rightarrow> string \<Rightarrow> string list tx" where
  "expire_venue_holds t v =
     tseq (expire_venue_amendments t v)
     (tbind tclock (\<lambda>now.
      tbind (tenv order_id_order) (\<lambda>le.
      tbind (tread (\<lambda>d. map or_id (sort_by le (filter (held_due t v now) (orders d))))) (\<lambda>due.
      tseq (teach (expire_order t) due)
        (tret due)))))"

section \<open>Which invariants the releases keep\<close>

text \<open>An update of a row leaves its identity and its owners.\<close>

definition same_order :: "(instant \<Rightarrow> order_row \<Rightarrow> order_row) \<Rightarrow> bool" where
  "same_order f \<longleftrightarrow> (\<forall>now r. or_id (f now r) = or_id r \<and> or_tenant (f now r) = or_tenant r \<and> or_venue (f now r) = or_venue r \<and>
     or_customer (f now r) = or_customer r \<and> or_quote (f now r) = or_quote r)"

definition same_line :: "(instant \<Rightarrow> order_line_row \<Rightarrow> order_line_row) \<Rightarrow> bool" where
  "same_line f \<longleftrightarrow> (\<forall>now r. ol_id (f now r) = ol_id r \<and> ol_tenant (f now r) = ol_tenant r \<and> ol_venue (f now r) = ol_venue r \<and>
     ol_order (f now r) = ol_order r \<and> ol_position (f now r) = ol_position r)"

definition same_payment :: "(instant \<Rightarrow> payment_row \<Rightarrow> payment_row) \<Rightarrow> bool" where
  "same_payment f \<longleftrightarrow> (\<forall>now r. py_id (f now r) = py_id r \<and> py_tenant (f now r) = py_tenant r \<and> py_order (f now r) = py_order r \<and>
     py_customer (f now r) = py_customer r \<and> py_amendment (f now r) = py_amendment r \<and>
     py_external (f now r) = py_external r \<and> py_wallet (f now r) = py_wallet r \<and>
     py_provider (f now r) = py_provider r \<and> py_merchant (f now r) = py_merchant r \<and> py_venue (f now r) = py_venue r)"

definition same_amendment :: "(instant \<Rightarrow> amendment_row \<Rightarrow> amendment_row) \<Rightarrow> bool" where
  "same_amendment f \<longleftrightarrow> (\<forall>now r. am_id (f now r) = am_id r \<and> am_tenant (f now r) = am_tenant r \<and> am_order (f now r) = am_order r)"

named_theorems same_rows "the updates that leave the identity of their row"

lemma same_rows_basic [same_rows]:
  "same_payment (payment_status_to ps)" "same_amendment (lapse_amendment_row st)" "same_order expired_order"
  "same_line cancel_line"
  by (simp_all add: same_payment_def payment_status_to_def same_amendment_def lapse_amendment_row_def same_order_def
      expired_order_def same_line_def cancel_line_def)

locale order_writes = wallet_invariant + inventory_invariant +
  assumes inv_insert_quote: "T (qt_tenant q) \<Longrightarrow> keeps I (insert_quote q)"
    and inv_insert_order: "T (or_tenant r) \<Longrightarrow> keeps I (insert_order r)"
    and inv_update_order: "T t \<Longrightarrow> same_order f \<Longrightarrow> keeps I (update_order t i f)"
    and inv_insert_line: "T (ol_tenant l) \<Longrightarrow> keeps I (insert_line l)"
    and inv_update_lines: "(\<And>l. P l \<Longrightarrow> T (ol_tenant l)) \<Longrightarrow> same_line g \<Longrightarrow> keeps I (update_lines P g)"
    and inv_insert_payment: "T (py_tenant p) \<Longrightarrow> keeps I (insert_payment p)"
    and inv_update_payment: "T t \<Longrightarrow> same_payment h \<Longrightarrow> keeps I (update_payment t i h)"
    and inv_update_amendment: "T t \<Longrightarrow> same_amendment k \<Longrightarrow> keeps I (update_amendment t i k)"

lemma reads_own_customer [reads_intros]: "reads_only (own_customer a c)"
  unfolding own_customer_def by (intro reads_intros)

lemma reads_require_booking_venue [reads_intros]: "reads_only (require_booking_venue a v p)"
  unfolding require_booking_venue_def by (intro reads_intros)

lemma reads_order_readers [reads_intros]:
  "reads_only (quote_in_transaction a i)" "reads_only (order_in_transaction a i)" "reads_only (locate_order a i)"
  "reads_only (amendment_in_transaction t i)" "reads_only (payment_in_transaction t i)"
  "reads_only (assert_no_pending_amendment t i)"
  unfolding quote_in_transaction_def order_in_transaction_def locate_order_def amendment_in_transaction_def
    payment_in_transaction_def assert_no_pending_amendment_def
  by (intro reads_intros)+

lemma system_actor_tenant [simp]: "ac_tenant (system_actor t) = t"
  by (simp add: system_actor_def)

text \<open>An invariant that the releases keep as wholes.\<close>

locale release_invariant = db_invariant +
  assumes inv_release_amendment: "T t \<Longrightarrow> keeps I (release_amendment_in_transaction t i st)"
    and inv_expire_order: "T t \<Longrightarrow> keeps I (expire_order t i)"
begin

lemma keeps_expire_amendments: "T t \<Longrightarrow> keeps I (expire_venue_amendments t v)"
  unfolding expire_venue_amendments_def by (intro keeps_intros keeps_counters inv_release_amendment)

lemma keeps_expire_holds: "T t \<Longrightarrow> keeps I (expire_venue_holds t v)"
  unfolding expire_venue_holds_def by (intro keeps_intros keeps_counters keeps_expire_amendments inv_expire_order)

lemmas keeps_order_readers = keeps_reading [OF reads_require_booking_venue] keeps_reading [OF reads_own_customer]
  keeps_reading [OF reads_order_readers(1)] keeps_reading [OF reads_order_readers(2)]
  keeps_reading [OF reads_order_readers(3)] keeps_reading [OF reads_order_readers(4)]
  keeps_reading [OF reads_order_readers(5)] keeps_reading [OF reads_order_readers(6)]

end

context order_writes
begin

lemma keeps_release_payments: "T t \<Longrightarrow> keeps I (release_pending_payments t i st)"
  unfolding release_pending_payments_def release_payment_def
  by (intro keeps_intros keeps_base inv_settle inv_update_payment same_rows) simp_all

lemma keeps_release_order_inventory: "T t \<Longrightarrow> keeps I (release_order_inventory t i)"
  unfolding release_order_inventory_def by (intro keeps_intros keeps_release) simp

lemma keeps_release_amendment: "T t \<Longrightarrow> keeps I (release_amendment_in_transaction t i st)"
  unfolding release_amendment_in_transaction_def release_amendment_payment_def
  by (intro keeps_intros keeps_base keeps_reading [OF reads_order_readers(4)] keeps_release inv_settle inv_update_payment
      inv_update_amendment same_rows) simp_all

lemma keeps_expire_order: "T t \<Longrightarrow> keeps I (expire_order t i)"
  unfolding expire_order_def
  by (intro keeps_intros keeps_base keeps_release_payments keeps_release_order_inventory inv_update_order same_rows) simp_all

end

sublocale order_writes \<subseteq> release_invariant
  by unfold_locales (rule keeps_release_amendment keeps_expire_order; assumption)+

end
