(* ===== verification/Wallet.thy ===== *)
theory Wallet
  imports WalletStore
begin

text \<open>
  packages/db/src/tennis/wallet.ts: the top-up that staff record for money received offline, and
  the wallet as its owner or the staff see it, with the journal in pages.
\<close>

section \<open>Offline top-ups\<close>

record topup_input =
  ti_venue :: string
  ti_customer :: string
  ti_principal :: cents
  ti_gift :: cents
  ti_reference :: string
  ti_reason :: string

definition topup_text_ok :: "topup_input \<Rightarrow> bool" where
  "topup_text_ok x \<longleftrightarrow>
     \<not> (ti_principal x + ti_gift x = 0 \<or> blank (ti_reference x) \<or> length (ti_reference x) > 200 \<or>
        blank (ti_reason x) \<or> length (ti_reason x) > 2000)"

definition check_topup :: "topup_input \<Rightarrow> err + unit" where
  "check_topup x =
     (case eachE assert_cents [ti_principal x, ti_gift x, ti_principal x + ti_gift x] of
        Inl e \<Rightarrow> Inl (PricingErr e) | Inr _ \<Rightarrow> guardE (topup_text_ok x) (WalletErr InvalidTopup))"

text \<open>The request with its texts trimmed.\<close>

definition topup_request :: "topup_input \<Rightarrow> topup_input" where
  "topup_request x = x\<lparr>ti_reference := js_trim (ti_reference x), ti_reason := js_trim (ti_reason x)\<rparr>"

definition topup_fields :: "topup_input \<Rightarrow> (string \<times> json) list" where
  "topup_fields x = [(''venueId'', JStr (ti_venue x)), (''customerId'', JStr (ti_customer x)),
     (''principalCents'', JNum (ti_principal x)), (''giftCents'', JNum (ti_gift x)),
     (''receiptReference'', JStr (ti_reference x)), (''reason'', JStr (ti_reason x))]"

definition find_offline_batch :: "string \<Rightarrow> string \<Rightarrow> db \<Rightarrow> batch_row option" where
  "find_offline_batch t reference d =
     find (\<lambda>r. wr_tenant r = t \<and> wr_source_kind r = Offline \<and> wr_source_reference r = reference) (batches d)"

definition same_topup :: "topup_input \<Rightarrow> batch_row \<Rightarrow> bool" where
  "same_topup x r \<longleftrightarrow> wr_customer r = ti_customer x \<and> wr_venue r = ti_venue x \<and> wr_principal r = ti_principal x \<and>
     wr_gift r = ti_gift x \<and> wr_reason r = ti_reason x"

definition batch_result :: "string \<Rightarrow> json" where
  "batch_result i = JObj [(''batchId'', JStr i)]"

definition offline_topup_work :: "actor \<Rightarrow> topup_input \<Rightarrow> json tx" where
  "offline_topup_work a x =
     tseq (lock_wallet (ac_tenant a) (ti_customer x))
     (tbind (tread (find_offline_batch (ac_tenant a) (ti_reference x))) (\<lambda>existing.
      case existing of
        Some r \<Rightarrow> tseq (tguard (same_topup x r) (WalletErr TopupReferenceReused)) (tret (batch_result (wr_id r)))
      | None \<Rightarrow>
          tbind (credit_wallet_batch a \<lparr>cr_venue = ti_venue x, cr_customer = ti_customer x,
             cr_principal = ti_principal x, cr_gift = ti_gift x, cr_source_kind = Offline,
             cr_source_reference = ti_reference x, cr_reason = ti_reason x\<rparr>) (\<lambda>i.
          tseq (record_tenant_audit a ''wallet.offline_topup'' i (topup_fields x))
            (tret (batch_result i)))))"

definition record_offline_topup :: "actor \<Rightarrow> topup_input \<Rightarrow> string \<Rightarrow> (json \<times> wallet_balance) op" where
  "record_offline_topup a x key =
     checked (check_topup x) (\<lambda>_.
     with_booking_transaction a
       (tseq (require_venue_permission a (ti_venue x) PManageMembers)
       (tbind (require_customer a (ti_customer x)) (\<lambda>_.
        let request = topup_request x in
        tbind (idempotent_command a (ti_venue x) key ''wallet.offline_topup'' (JObj (topup_fields request))
           (offline_topup_work a request)) (\<lambda>result.
        tbind (wallet_balance_in_transaction (ac_tenant a) (ti_customer x)) (\<lambda>balance.
        tret (result, balance)))))))"

section \<open>The wallet with a page of its journal\<close>

definition page_ok :: "int \<Rightarrow> string option \<Rightarrow> bool" where
  "page_ok n cursor \<longleftrightarrow>
     \<not> (n < 1 \<or> n > 200 \<or> (case cursor of None \<Rightarrow> False | Some c \<Rightarrow> c = '''' \<or> length c > 200))"

definition own_entries :: "string \<Rightarrow> string \<Rightarrow> db \<Rightarrow> entry_row list" where
  "own_entries t c d = filter (\<lambda>e. we_tenant e = t \<and> we_customer e = c) (entries d)"

definition entry_order :: "env \<Rightarrow> entry_row \<Rightarrow> entry_row \<Rightarrow> bool" where
  "entry_order E p q \<longleftrightarrow> we_created p > we_created q \<or> (we_created p = we_created q \<and> e_collate_le E (we_id q) (we_id p))"

text \<open>The entries strictly below the cursor's in the descending order of (created_at, id).\<close>

definition below_pivot :: "env \<Rightarrow> entry_row option \<Rightarrow> entry_row \<Rightarrow> bool" where
  "below_pivot E pivot e =
     (case pivot of None \<Rightarrow> True
      | Some p \<Rightarrow> we_created e < we_created p \<or>
          (we_created e = we_created p \<and> we_id e \<noteq> we_id p \<and> e_collate_le E (we_id e) (we_id p)))"

record wallet_view =
  wv_balance :: wallet_balance
  wv_entries :: "entry_row list"
  wv_next :: "string option"

definition wallet_page :: "env \<Rightarrow> nat \<Rightarrow> entry_row option \<Rightarrow> entry_row list \<Rightarrow> entry_row list \<times> string option" where
  "wallet_page E n pivot es =
     (let rows = take (n + 1) (sort_by (entry_order E) (filter (below_pivot E pivot) es))
      in (take n rows, if length rows > n then Some (we_id (rows ! (n - 1))) else None))"

definition get_wallet :: "actor \<Rightarrow> string \<Rightarrow> int option \<Rightarrow> string option \<Rightarrow> wallet_view op" where
  "get_wallet a c page_size cursor =
     (let n = (case page_size of None \<Rightarrow> 50 | Some k \<Rightarrow> k) in
      checked (guardE (page_ok n cursor) InvalidRequest) (\<lambda>_.
      with_booking_transaction a
        (tseq (if is_customer_actor a then tret () else require_tenant_permission a PManageMembers None)
        (tbind (require_customer a c) (\<lambda>_.
         tbind (tread (\<lambda>d. case cursor of None \<Rightarrow> None | Some i \<Rightarrow> find (\<lambda>e. we_id e = i) (own_entries (ac_tenant a) c d))) (\<lambda>pivot.
         tseq (tguard (cursor \<noteq> None \<longrightarrow> pivot \<noteq> None) (AccessErr ResourceNotFound))
         (tbind (tenv (\<lambda>E. E)) (\<lambda>E.
          tbind (tread (\<lambda>d. wallet_page E (nat n) pivot (own_entries (ac_tenant a) c d))) (\<lambda>page.
          tbind (wallet_balance_in_transaction (ac_tenant a) c) (\<lambda>balance.
          tret \<lparr>wv_balance = balance, wv_entries = fst page, wv_next = snd page\<rparr>))))))))))"

lemma reads_wallet_balance [reads_intros]: "reads_only (wallet_balance_in_transaction t c)"
  unfolding wallet_balance_in_transaction_def by (intro reads_intros)

section \<open>Invariants\<close>

lemma offline_topup_receipts: "no_receipts (offline_topup_work a x)"
  unfolding no_receipts_def offline_topup_work_def
  by (intro allI keeps_intros wallet_receipts.inv_lock_wallet wallet_receipts.inv_credit receipts_kept.inv_audit TrueI)

locale wallet_commands = wallet_invariant + customer_writes + command_invariant
begin

lemma offline_topup_work_inv: "T (ac_tenant a) \<Longrightarrow> keeps I (offline_topup_work a x)"
  unfolding offline_topup_work_def by (intro keeps_intros inv_lock_wallet inv_credit inv_audit)

lemma record_offline_topup_inv: "T (ac_tenant a) \<Longrightarrow> op_keeps I (record_offline_topup a x key)"
  unfolding record_offline_topup_def Let_def
  by (intro keeps_intros op_keeps_booking keeps_base keeps_reading [OF reads_require_customer] inv_idempotent
      offline_topup_receipts offline_topup_work_inv keeps_reading [OF reads_wallet_balance])

lemma get_wallet_inv: "op_keeps I (get_wallet a c n cursor)"
  unfolding get_wallet_def Let_def
  by (intro keeps_intros op_keeps_booking keeps_base keeps_reading [OF reads_require_customer]
      keeps_reading [OF reads_wallet_balance])

end


interpretation ledger_commands: receiptless_invariant wallet_ledger "\<lambda>_. True"
  by unfold_locales (auto simp: keeps_def insert_receipt_def complete_receipt_def insert_link_def ok_iff wallet_ledger_def)

interpretation ledger_customers: customer_writes wallet_ledger "\<lambda>_. True"
  by unfold_locales (auto simp: keeps_def insert_customer_def set_phone_def ok_iff wallet_ledger_def)

interpretation ledger_wallet: wallet_commands wallet_ledger "\<lambda>_. True"
  by unfold_locales

section \<open>The journal in pages\<close>

text \<open>The collation orders the text of the ids.\<close>

definition collate_law :: "(string \<Rightarrow> string \<Rightarrow> bool) \<Rightarrow> bool" where
  "collate_law le \<longleftrightarrow> (\<forall>x y. le x y \<or> le y x) \<and> (\<forall>x y. le x y \<longrightarrow> le y x \<longrightarrow> x = y) \<and>
     (\<forall>x y z. le x y \<longrightarrow> le y z \<longrightarrow> le x z)"

lemma str_le_collate: "collate_law str_le"
  unfolding collate_law_def str_le_def by (metis str_less_irrefl str_less_total str_less_trans)

lemma entry_order_laws:
  assumes "collate_law (e_collate_le E)"
  shows "entry_order E p q \<or> entry_order E q p" "entry_order E p q \<Longrightarrow> entry_order E q r \<Longrightarrow> entry_order E p r"
    and "entry_order E p q \<Longrightarrow> entry_order E q p \<Longrightarrow> we_id p = we_id q"
  using assms unfolding collate_law_def entry_order_def by (smt (verit))+

lemma sorted_journal:
  assumes "collate_law (e_collate_le E)"
  shows "sorted_wrt (entry_order E) (sort_by (entry_order E) es)"
  by (rule sorted_sort_by [of UNIV]) (use entry_order_laws [OF assms] in blast)+

lemma sort_filter_journal:
  assumes "collate_law (e_collate_le E)" "distinct (map we_id es)"
  shows "sort_by (entry_order E) (filter P es) = filter P (sort_by (entry_order E) es)"
proof (rule sorted_wrt_mset_unique [where le = "entry_order E"])
  show "p = q" if "p \<in> set (sort_by (entry_order E) (filter P es))" "q \<in> set (sort_by (entry_order E) (filter P es))"
    "entry_order E p q" "entry_order E q p" for p q
    using that entry_order_laws(3) [OF assms(1) that(3,4)] assms(2) by (auto simp: distinct_map dest: inj_onD)
  show "sorted_wrt (entry_order E) (sort_by (entry_order E) (filter P es))" by (rule sorted_journal [OF assms(1)])
  show "sorted_wrt (entry_order E) (filter P (sort_by (entry_order E) es))"
    by (rule sorted_wrt_filter [OF sorted_journal [OF assms(1)]])
  show "mset (sort_by (entry_order E) (filter P es)) = mset (filter P (sort_by (entry_order E) es))" by simp
qed

lemma below_order:
  assumes "collate_law (e_collate_le E)"
  shows "below_pivot E (Some p) e \<longleftrightarrow> entry_order E p e \<and> we_id e \<noteq> we_id p \<or> we_created e < we_created p"
  unfolding below_pivot_def entry_order_def by auto

lemma filter_below_drop:
  assumes law: "collate_law (e_collate_le E)" and s: "sorted_wrt (entry_order E) rows"
    and d: "distinct (map we_id rows)" and k: "k < length rows"
  shows "filter (below_pivot E (Some (rows ! k))) rows = drop (Suc k) rows"
proof -
  have up: "\<not> below_pivot E (Some (rows ! k)) e" if e: "e \<in> set (take (Suc k) rows)" for e
  proof -
    obtain j where "j < Suc k" "e = rows ! j" using e k by (auto simp: in_set_conv_nth)
    then have j: "j \<le> k" "e = rows ! j" by simp_all
    show ?thesis
    proof (cases "j = k")
      case False
      then have o': "entry_order E e (rows ! k)" using s j k by (simp add: sorted_wrt_iff_nth_less)
      have ne: "we_id e \<noteq> we_id (rows ! k)"
        using d j k False by (metis distinct_conv_nth leD le_neq_implies_less length_map nth_map order.strict_trans1)
      then have "\<not> entry_order E (rows ! k) e" using entry_order_laws(3) [OF law o'] by blast
      then show ?thesis using o' ne by (auto simp: below_pivot_def entry_order_def)
    qed (simp add: below_pivot_def j)
  qed
  have down: "below_pivot E (Some (rows ! k)) e" if e: "e \<in> set (drop (Suc k) rows)" for e
  proof -
    obtain i where "i < length rows - Suc k" "e = rows ! (Suc k + i)" using e by (auto simp: in_set_conv_nth)
    then obtain j where j: "k < j" "j < length rows" "e = rows ! j" by (metis add_Suc less_add_Suc1 less_diff_conv add.commute)
    then have "entry_order E (rows ! k) e" using s by (simp add: sorted_wrt_iff_nth_less)
    moreover have "we_id e \<noteq> we_id (rows ! k)"
      using d j k by (metis distinct_conv_nth length_map less_irrefl nth_map)
    ultimately show ?thesis using below_order [OF law] by blast
  qed
  have "filter (below_pivot E (Some (rows ! k))) (take (Suc k) rows @ drop (Suc k) rows) = drop (Suc k) rows"
    unfolding filter_append using up down by (simp add: filter_id_conv filter_empty_conv)
  then show ?thesis by simp
qed

text \<open>
  C18: The pages of a wallet's journal are the journal: without a cursor a page holds the newest
  entries, and with the cursor of any entry it holds those that follow it, n at a time, in the
  descending order of creation, so that following the returned cursors visits every entry exactly
  once; and a next cursor, the last entry of the page, is returned just when entries remain.
\<close>

theorem journal_pages:
  assumes "collate_law (e_collate_le E)" "distinct (map we_id es)" "0 < n"
  shows "let S = sort_by (entry_order E) es in
      wallet_page E n None es = (take n S, if length S > n then Some (we_id (S ! (n - 1))) else None) \<and>
      (\<forall>k<length S. wallet_page E n (Some (S ! k)) es =
         (take n (drop (Suc k) S), if length S - Suc k > n then Some (we_id (S ! (k + n))) else None))"
proof -
  let ?S = "sort_by (entry_order E) es"
  have d: "distinct (map we_id ?S)"
    using assms(2) by (metis mset_eq_imp_distinct_iff mset_map mset_sort_by)
  have "wallet_page E n None es = (take n ?S, if length ?S > n then Some (we_id (?S ! (n - 1))) else None)"
    using assms(3) by (simp add: wallet_page_def Let_def below_pivot_def min_def)
  moreover have "wallet_page E n (Some (?S ! k)) es =
         (take n (drop (Suc k) ?S), if length ?S - Suc k > n then Some (we_id (?S ! (k + n))) else None)"
    if "k < length ?S" for k
    using filter_below_drop [OF assms(1) sorted_journal [OF assms(1)] d that] assms(3)
    by (simp add: wallet_page_def sort_filter_journal [OF assms(1,2)] Let_def min_def)
  ultimately show ?thesis by (simp add: Let_def)
qed


theorem journal_pages_witness:
  "\<exists>es. length es = 3 \<and> fst (wallet_page sample_env 2 None es) \<noteq> [] \<and>
     (\<exists>c. snd (wallet_page sample_env 2 None es) = Some c \<and>
        length (fst (wallet_page sample_env 2 (find (\<lambda>e. we_id e = c) es) es)) = 1)"
proof -
  let ?e = "\<lambda>i t. \<lparr>we_id = i, we_tenant = ''t'', we_customer = ''k'', we_batch = ''b'', we_kind = ETopup,
      we_principal = 1, we_gift = 0, we_source = i, we_created = t\<rparr>"
  let ?es = "[?e ''a'' 1, ?e ''b'' 3, ?e ''c'' 3]"
  have law: "collate_law (e_collate_le sample_env)" by (simp add: sample_env_def str_le_collate)
  have "distinct (map we_id ?es)" by simp
  note pages = journal_pages [OF law this, of 2, unfolded Let_def, simplified]
  have "sort_by (entry_order sample_env) ?es = [?e ''c'' 3, ?e ''b'' 3, ?e ''a'' 1]" by code_simp
  note p = pages [unfolded this]
  have "find (\<lambda>e. we_id e = ''b'') ?es = Some (?e ''b'' 3)" by simp
  then show ?thesis
    using conjunct1 [OF p] conjunct2 [OF p, rule_format, of 1] by (intro exI [of _ ?es]) (simp add: numeral_2_eq_2)
qed

section \<open>A receipt reference is credited once\<close>

lemma credit_wallet_run:
  assumes "credit_wallet_batch a x E d = Inr (i, d')"
  obtains r where "batches d' = batches d @ [r]" "wr_id r = i" "wr_tenant r = ac_tenant a" "wr_customer r = cr_customer x"
    "wr_venue r = cr_venue x" "wr_principal r = cr_principal x" "wr_gift r = cr_gift x" "wr_source_kind r = cr_source_kind x"
    "wr_source_reference r = cr_source_reference x" "wr_reason r = cr_reason x"
proof -
  let ?r = "\<lambda>i. \<lparr>wr_id = i, wr_tenant = ac_tenant a, wr_customer = cr_customer x, wr_venue = cr_venue x,
          wr_principal = cr_principal x, wr_gift = cr_gift x, wr_avail_principal = cr_principal x,
          wr_avail_gift = cr_gift x, wr_res_principal = 0, wr_res_gift = 0, wr_source_kind = cr_source_kind x,
          wr_source_reference = cr_source_reference x, wr_reason = cr_reason x, wr_created_by = ac_subject a\<rparr>"
  obtain u d1 v d3 d2 w y where 1: "lock_wallet (ac_tenant a) (cr_customer x) E d = Inr (u, d1)"
    and 2: "tuuid E d1 = Inr (v, d2)" and 3: "insert_batch (?r v) E d2 = Inr (w, d3)" and i: "i = v"
    and 4: "append_wallet_entry (ac_tenant a) (cr_customer x) ETopup v
          \<lparr>wp_batch = v, wp_principal = cr_principal x, wp_gift = cr_gift x\<rparr> E d3 = Inr (y, d')"
    using assms unfolding credit_wallet_batch_def tbind_Inr tseq_Inr tread_Inr tlift_Inr tret_Inr prod.inject Inr_inject
    by blast
  obtain ws where "d1 = d\<lparr>wallets := ws\<rparr>" using lock_wallet_Inr [OF 1] by blast
  then have "batches d2 = batches d" using 2 by (simp add: tuuid_Inr)
  moreover obtain e n where "d' = d3\<lparr>entries := entries d3 @ [e], ticks := n, uuids := Suc (uuids d3)\<rparr>"
    by (rule append_entry_Inr [OF 4])
  ultimately have "batches d' = batches d @ [?r v]" using insert_batch_Inr [OF 3] by simp
  then show thesis by (rule that) (simp_all add: i)
qed



end
