(* ===== verification/Booking.thy ===== *)
theory Booking
  imports Orders Wallet
begin

text \<open>
  packages/db/src/tennis/booking.ts: quotes, their confirmation into an order that occupies its
  courts, the expiry of unpaid holds, the reading of orders and receipts and the cancellation of
  orders without payment.
\<close>

section \<open>Quotes\<close>

definition price_span :: "court_price \<Rightarrow> interval_error + court_price \<times> parsed_interval" where
  "price_span p = bindE (parse_court_interval \<lparr>start_at = start_at p, end_at = end_at p\<rparr>) (\<lambda>q. Inr (p, q))"

definition span_order :: "env \<Rightarrow> court_price \<times> parsed_interval \<Rightarrow> court_price \<times> parsed_interval \<Rightarrow> bool" where
  "span_order E p q \<longleftrightarrow>
     (if cp_court (fst p) = cp_court (fst q) then e_locale_le E (start_at (fst p)) (start_at (fst q))
      else e_locale_le E (cp_court (fst p)) (cp_court (fst q)))"

definition court_occupied :: "string \<Rightarrow> string \<Rightarrow> parsed_interval \<Rightarrow> db \<Rightarrow> bool" where
  "court_occupied t c p d \<longleftrightarrow> list_ex (\<lambda>r. oc_tenant r = t \<and> occupies c (fst p) (snd p) r) (occupancies d)"

definition available :: "actor \<Rightarrow> court_price list \<Rightarrow> unit tx" where
  "available a lines =
     tbind tclock (\<lambda>now.
     tbind (tlift IntervalErr (mapE price_span lines)) (\<lambda>spans.
     tseq (tguard (\<not> list_ex (\<lambda>s. fst (snd s) \<le> now) spans) (BookingErr PastInterval))
     (tbind (tenv span_order) (\<lambda>le.
      teach (\<lambda>s. tbind (tread (court_occupied (ac_tenant a) (cp_court (fst s)) (snd s))) (\<lambda>taken.
        tguard (\<not> taken) (InventoryErr InventoryConflict))) (sort_by le spans)))))"

definition minutes :: "int \<Rightarrow> int" where
  "minutes n = n * 60000"

definition create_quote :: "actor \<Rightarrow> string \<Rightarrow> string \<Rightarrow> selection_line list \<Rightarrow> quote_row op" where
  "create_quote a venue customer lines =
     with_booking_transaction a
       (tseq (require_booking_venue a venue PBook)
       (tbind (require_customer a customer) (\<lambda>c.
        tseq (tguard (case parse_booking_phone (cu_phone c) of Phone p \<Rightarrow> True | _ \<Rightarrow> False) (BookingErr BookingPhoneRequired))
        (tbind (expire_venue_holds (ac_tenant a) venue) (\<lambda>_.
         tbind (booking_policy_in_transaction (ac_tenant a)) (\<lambda>policy.
         tbind (price_selection_in_transaction a venue lines False) (\<lambda>price.
         tseq (available a (ps_lines price))
         (tbind tuuid (\<lambda>i. tbind tclock (\<lambda>now. tbind tclock (\<lambda>created.
          let q = \<lparr>qt_id = i, qt_tenant = ac_tenant a, qt_venue = venue, qt_customer = customer,
            qt_created_by = ac_subject a, qt_price = price, qt_expires = now + minutes (po_quote_minutes policy),
            qt_hold_minutes = po_hold_minutes policy, qt_created = created\<rparr>
          in tseq (insert_quote q)
             (tseq (record_tenant_audit a ''quote.create'' i [(''customerId'', JStr customer),
                (''totalCents'', JNum (ps_total price)), (''venueId'', JStr venue)])
             (tret q)))))))))))))"

section \<open>Confirmation\<close>

record staff_hold =
  sh_until :: string
  sh_reason :: string

text \<open>The hold with its end as an instant and its reason trimmed.\<close>

definition staff_hold_request :: "env \<Rightarrow> staff_hold option \<Rightarrow> err + (instant \<times> string) option" where
  "staff_hold_request E hold =
     (case hold of None \<Rightarrow> Inr None
      | Some h \<Rightarrow>
          (case e_date_parse E (sh_until h) of
             None \<Rightarrow> Inl (BookingErr InvalidHold)
           | Some t \<Rightarrow>
               if blank (sh_reason h) \<or> length (sh_reason h) > 2000 then Inl (BookingErr InvalidHold)
               else Inr (Some (t, js_trim (sh_reason h)))))"

definition confirmation_json :: "string \<Rightarrow> (instant \<times> string) option \<Rightarrow> json" where
  "confirmation_json quote hold = JObj [(''quoteId'', JStr quote),
     (''staffHold'', j_opt (\<lambda>h. JObj [(''until'', JStr (to_iso_string (fst h))), (''reason'', JStr (snd h))]) hold)]"

definition quoted_line :: "court_price \<Rightarrow> selection_line" where
  "quoted_line p = \<lparr>start_at = start_at p, end_at = end_at p, sl_court = cp_court p\<rparr>"

definition new_line ::
  "string \<Rightarrow> quote_row \<Rightarrow> string \<Rightarrow> string \<Rightarrow> nat \<Rightarrow> court_price \<Rightarrow> parsed_interval \<Rightarrow> order_line_row" where
  "new_line t q order i position p s =
     \<lparr>ol_id = i, ol_tenant = t, ol_venue = qt_venue q, ol_order = order, ol_court = cp_court p,
       ol_position = position, ol_start = fst s, ol_end = snd s, ol_amount = cp_total p, ol_funding = cp_total p,
       ol_price = p, ol_cancelled = None, ol_cancelled_before_payment = False\<rparr>"

definition line_occupancy :: "order_line_row \<Rightarrow> string \<Rightarrow> occupancy_row" where
  "line_occupancy l i =
     \<lparr>oc_id = i, oc_tenant = ol_tenant l, oc_court = ol_court l, oc_kind = Booking, oc_source = ol_order l,
       oc_start = ol_start l, oc_end = ol_end l, oc_revision = 1, oc_released = None, oc_line = Some (ol_id l),
       oc_amendment = None\<rparr>"

text \<open>One line of the order with the court time it takes.\<close>

definition book_line :: "string \<Rightarrow> quote_row \<Rightarrow> string \<Rightarrow> nat \<times> court_price \<Rightarrow> unit tx" where
  "book_line t q order e =
     tbind (tlift IntervalErr (price_span (snd e))) (\<lambda>s.
     tbind tuuid (\<lambda>i.
     let l = new_line t q order i (fst e) (snd e) (snd s) in
     tseq (insert_line l)
     (tbind tuuid (\<lambda>j. insert_occupancy (line_occupancy l j)))))"

definition new_order :: "actor \<Rightarrow> quote_row \<Rightarrow> json \<Rightarrow> (instant \<times> string) option \<Rightarrow> string \<Rightarrow> instant \<Rightarrow> instant \<Rightarrow> order_row" where
  "new_order a q request hold i until created =
     (let free = ps_total (qt_price q) = 0 in
      \<lparr>or_id = i, or_tenant = ac_tenant a, or_venue = qt_venue q, or_customer = qt_customer q, or_quote = qt_id q,
       or_created_by = ac_subject a, or_status = (if free then Confirmed else Held),
       or_payment = (if free then NotRequired else Unpaid), or_total = ps_total (qt_price q),
       or_hold_kind = (if hold = None then PaymentHold else StaffHold),
       or_hold_until = (if free then None else Some until), or_hold_reason = map_option snd hold,
       or_request = request, or_price = qt_price q, or_revision = 1, or_created = created, or_updated = created\<rparr>)"

definition order_result :: "string \<Rightarrow> json" where
  "order_result i = JObj [(''orderId'', JStr i)]"

definition hold_json :: "'a option \<Rightarrow> json" where
  "hold_json hold = JStr (if hold = None then ''PAYMENT'' else ''STAFF'')"

definition confirm_work :: "actor \<Rightarrow> quote_row \<Rightarrow> (instant \<times> string) option \<Rightarrow> json \<Rightarrow> json tx" where
  "confirm_work a q hold request =
     tbind (tread (\<lambda>d. find (\<lambda>r. or_tenant r = ac_tenant a \<and> or_quote r = qt_id q) (orders d))) (\<lambda>existing.
     case existing of
       Some r \<Rightarrow>
         tbind (tenv (\<lambda>E. request_hash E (or_request r) = request_hash E request)) (\<lambda>same.
         tseq (tguard same (BookingErr QuoteAlreadyUsed)) (tret (order_result (or_id r))))
     | None \<Rightarrow>
         tbind tclock (\<lambda>before.
         tseq (tguard (\<not> qt_expires q \<le> before) (BookingErr QuoteExpired))
         (tbind (price_selection_in_transaction a (qt_venue q) (map quoted_line (ps_lines (qt_price q))) True) (\<lambda>_.
          tseq (available a (ps_lines (qt_price q)))
          (tbind tclock (\<lambda>now.
           tseq (tguard (\<not> qt_expires q \<le> now) (BookingErr QuoteExpired))
           (let until = (case hold of Some h \<Rightarrow> fst h | None \<Rightarrow> now + minutes (qt_hold_minutes q)) in
            tseq (tguard (\<not> until \<le> now) (BookingErr InvalidHold))
            (tbind tuuid (\<lambda>i. tbind tclock (\<lambda>created.
             tseq (insert_order (new_order a q request hold i until created))
             (tseq (teach (book_line (ac_tenant a) q i) (enumerate 0 (ps_lines (qt_price q))))
             (tseq (record_tenant_audit a ''order.create'' i [(''quoteId'', JStr (qt_id q)),
                (''totalCents'', JNum (ps_total (qt_price q))), (''holdKind'', hold_json hold)])
             (tret (order_result i))))))))))))))"

definition rethrow_exclusion :: "err \<Rightarrow> err" where
  "rethrow_exclusion e = (case e of SqlErr ExclusionViolation \<Rightarrow> InventoryErr InventoryConflict | _ \<Rightarrow> e)"

text \<open>The order a command's result names.\<close>

definition result_order :: "actor \<Rightarrow> json \<Rightarrow> order_record tx" where
  "result_order a result = tbind (tsome (j_string ''orderId'' result) TypeErr) (order_in_transaction a)"

definition confirm_quote :: "actor \<Rightarrow> string \<Rightarrow> string \<Rightarrow> staff_hold option \<Rightarrow> order_record op" where
  "confirm_quote a quote key staff =
     with_env (\<lambda>E. checked (staff_hold_request E staff) (\<lambda>hold.
     map_error rethrow_exclusion (with_booking_transaction a
       (tbind (quote_in_transaction a quote) (\<lambda>q.
        tseq (require_booking_venue a (qt_venue q) PBook)
        (tseq (if hold \<noteq> None then require_booking_venue a (qt_venue q) PHoldUnpaid else tret ())
        (tbind (require_customer a (qt_customer q)) (\<lambda>_.
         tbind (expire_venue_holds (ac_tenant a) (qt_venue q)) (\<lambda>_.
         tbind (idempotent_command a (qt_venue q) key ''quote.confirm'' (confirmation_json quote hold)
            (confirm_work a q hold (confirmation_json quote hold)))
          (result_order a))))))))))"

section \<open>Reading\<close>

definition get_order :: "actor \<Rightarrow> string \<Rightarrow> order_record op" where
  "get_order a i =
     with_booking_transaction a
       (tbind (locate_order a i) (\<lambda>v.
        tseq (require_booking_venue a v PRead)
        (tbind (expire_venue_holds (ac_tenant a) v) (\<lambda>_. order_in_transaction a i))))"

definition newest_first :: "env \<Rightarrow> order_row \<Rightarrow> order_row \<Rightarrow> bool" where
  "newest_first E p q \<longleftrightarrow> or_created p > or_created q \<or> (or_created p = or_created q \<and> e_collate_le E (or_id p) (or_id q))"

definition listed_orders :: "actor \<Rightarrow> string \<Rightarrow> env \<Rightarrow> db \<Rightarrow> string list" where
  "listed_orders a v E d =
     map or_id (take 100 (sort_by (newest_first E)
       (filter (\<lambda>r. or_tenant r = ac_tenant a \<and> or_venue r = v \<and>
          (is_customer_actor a \<longrightarrow> ac_customer a = Some (or_customer r))) (orders d))))"

definition list_orders :: "actor \<Rightarrow> string \<Rightarrow> order_record list op" where
  "list_orders a v =
     with_booking_transaction a
       (tseq (require_booking_venue a v PRead)
       (tbind (expire_venue_holds (ac_tenant a) v) (\<lambda>_.
        tbind (tenv (listed_orders a v)) (\<lambda>ids.
        tbind (tread ids) (tmap (order_in_transaction a))))))"

section \<open>Cancellation without payment\<close>

definition reason_ok :: "string \<Rightarrow> bool" where
  "reason_ok s \<longleftrightarrow> \<not> (blank s \<or> length s > 2000)"

definition cancelled_order :: "instant \<Rightarrow> order_row \<Rightarrow> order_row" where
  "cancelled_order now r =
     r\<lparr>or_status := Cancelled, or_hold_until := None, or_revision := or_revision r + 1, or_updated := now\<rparr>"

definition open_line_of :: "string \<Rightarrow> string \<Rightarrow> order_line_row \<Rightarrow> bool" where
  "open_line_of t i l \<longleftrightarrow> ol_tenant l = t \<and> ol_order l = i \<and> ol_cancelled l = None"

definition cancel_unpaid_work :: "actor \<Rightarrow> string \<Rightarrow> int \<Rightarrow> string \<Rightarrow> json tx" where
  "cancel_unpaid_work a i expected reason =
     tbind (order_in_transaction a i) (\<lambda>o'.
     let r = ow_row o' in
     if or_status r = Cancelled \<or> or_status r = Expired then tret (order_result (or_id r))
     else
       tseq (assert_no_pending_amendment (ac_tenant a) (or_id r))
       (tseq (tguard (or_revision r = expected) (BookingErr StaleOrder))
       (tseq (tguard (\<not> (or_payment r \<noteq> Unpaid \<and> or_payment r \<noteq> NotRequired)) (BookingErr OrderRequiresRefund))
       (tseq (tguard (\<not> (or_status r \<noteq> Held \<and> \<not> (or_status r = Confirmed \<and> or_payment r = NotRequired)))
          (BookingErr OrderNotCancellable))
       (tseq (release_pending_payments (ac_tenant a) (or_id r) LapseCancelled)
       (tseq (release_order_inventory (ac_tenant a) (or_id r))
       (tseq (update_lines (open_line_of (ac_tenant a) (or_id r)) cancel_line)
       (tseq (update_order (ac_tenant a) (or_id r) cancelled_order)
       (tseq (record_tenant_audit a ''order.cancel_unpaid'' (or_id r) [(''reason'', JStr (js_trim reason))])
       (tret (order_result (or_id r))))))))))))"

definition cancel_unpaid_order :: "actor \<Rightarrow> string \<Rightarrow> string \<Rightarrow> int \<Rightarrow> string \<Rightarrow> order_record op" where
  "cancel_unpaid_order a i key expected reason =
     checked (guardE (reason_ok reason) (BookingErr InvalidReason)) (\<lambda>_.
     with_booking_transaction a
       (tbind (locate_order a i) (\<lambda>v.
        tseq (require_booking_venue a v PBook)
        (tbind (expire_venue_holds (ac_tenant a) v) (\<lambda>_.
         tbind (idempotent_command a v key ''order.cancel_unpaid''
            (JObj [(''orderId'', JStr i), (''expectedRevision'', JNum expected), (''reason'', JStr reason)])
            (cancel_unpaid_work a i expected reason))
          (result_order a))))))"

definition closed_if_empty :: "bool \<Rightarrow> instant \<Rightarrow> order_row \<Rightarrow> order_row" where
  "closed_if_empty open_lines now r =
     r\<lparr>or_status := (if open_lines then or_status r else Cancelled), or_revision := or_revision r + 1, or_updated := now\<rparr>"

definition has_open_lines :: "string \<Rightarrow> string \<Rightarrow> db \<Rightarrow> bool" where
  "has_open_lines t i d \<longleftrightarrow> list_ex (open_line_of t i) (order_lines d)"

definition line_ids_json :: "string list \<Rightarrow> json" where
  "line_ids_json ids = JArr (map JStr ids)"

definition cancel_free_work :: "actor \<Rightarrow> string \<Rightarrow> int \<Rightarrow> string list \<Rightarrow> string \<Rightarrow> json tx" where
  "cancel_free_work a i expected ids reason =
     tbind (order_in_transaction a i) (\<lambda>o'.
     let r = ow_row o'; t = ac_tenant a in
     tseq (tguard (or_revision r = expected) (BookingErr StaleOrder))
     (tseq (assert_no_pending_amendment t (or_id r))
     (tseq (tguard (\<not> (or_total r \<noteq> 0 \<or> or_payment r \<notin> {NotRequired, Refunded})) (BookingErr OrderRequiresRefund))
     (tseq (tguard (\<not> (or_status r \<noteq> Confirmed \<or>
          list_ex (\<lambda>l. \<not> list_ex (\<lambda>x. ol_id x = l \<and> ol_cancelled x = None) (ow_lines o')) ids)) (BookingErr OrderNotCancellable))
     (tseq (update_lines (\<lambda>l. ol_tenant l = t \<and> ol_order l = or_id r \<and> ol_id l \<in> set ids) cancel_line)
     (tseq (release_occupancies (\<lambda>o'. oc_tenant o' = t \<and> (\<exists>l\<in>set ids. oc_line o' = Some l)))
     (tbind (tread (has_open_lines t (or_id r))) (\<lambda>open_lines.
      tseq (update_order t (or_id r) (closed_if_empty open_lines))
      (tseq (record_tenant_audit a ''order.cancel_free_lines'' (or_id r)
         [(''lineIds'', line_ids_json ids), (''reason'', JStr (js_trim reason))])
      (tret (order_result (or_id r))))))))))))"

definition line_ids_ok :: "string list \<Rightarrow> bool" where
  "line_ids_ok ids \<longleftrightarrow> \<not> (ids = [] \<or> length ids > 100 \<or> list_ex (\<lambda>i. i = '''') ids \<or> \<not> distinct ids)"

definition cancel_free_order_lines :: "actor \<Rightarrow> string \<Rightarrow> int \<Rightarrow> string list \<Rightarrow> string \<Rightarrow> string \<Rightarrow> order_record op" where
  "cancel_free_order_lines a i expected ids key reason =
     checked (bindE (guardE (\<not> is_customer_actor a) (AccessErr TenantAccessDenied)) (\<lambda>_.
        guardE (reason_ok reason \<and> line_ids_ok ids) (BookingErr InvalidReason))) (\<lambda>_.
     with_booking_transaction a
       (tbind (locate_order a i) (\<lambda>v.
        tseq (require_booking_venue a v PBook)
        (tbind (expire_venue_holds (ac_tenant a) v) (\<lambda>_.
         tbind (idempotent_command a v key ''order.cancel_free_lines''
            (JObj [(''orderId'', JStr i), (''expectedRevision'', JNum expected), (''lineIds'', line_ids_json ids),
               (''reason'', JStr reason)])
            (cancel_free_work a i expected ids reason))
          (result_order a))))))"

section \<open>Expiry\<close>

definition due_venues :: "env \<Rightarrow> instant \<Rightarrow> db \<Rightarrow> (string \<times> string) list" where
  "due_venues E now d =
     sort_by (\<lambda>p q. if fst p = fst q then e_collate_le E (snd p) (snd q) else e_collate_le E (fst p) (fst q))
       (remdups (map (\<lambda>r. (or_tenant r, or_venue r))
         (filter (\<lambda>r. held_due (or_tenant r) (or_venue r) now r) (orders d))))"

definition expire_due_orders :: "int \<Rightarrow> string list op" where
  "expire_due_orders limit =
     checked (guardE (\<not> (\<not> is_safe limit \<or> limit < 1 \<or> limit > 1000)) (BookingErr InvalidHold)) (\<lambda>_.
     op_bind (run_tx (tbind tclock (\<lambda>now. tbind (tenv (\<lambda>E. due_venues E now)) (\<lambda>due.
         tread (\<lambda>d. take (nat limit) (due d)))))) (\<lambda>vs.
     op_concat (\<lambda>p. run_more (expire_venue_holds (fst p) (snd p))) vs))"


section \<open>Receipts of commands\<close>

definition given_id :: "string \<Rightarrow> json \<Rightarrow> string option" where
  "given_id k result = j_string k result"

text \<open>The customer of what a command's result names, by the first of the ids that is a string.\<close>

definition result_customer :: "string \<Rightarrow> json \<Rightarrow> db \<Rightarrow> string option" where
  "result_customer t result d =
     (case given_id ''orderId'' result of Some i \<Rightarrow> map_option or_customer (find_order t i d)
      | None \<Rightarrow> (case given_id ''paymentId'' result of Some i \<Rightarrow> map_option py_customer (find_payment t i d)
      | None \<Rightarrow> (case given_id ''topupId'' result of Some i \<Rightarrow> map_option tp_customer (find (\<lambda>r. tp_tenant r = t \<and> tp_id r = i) (topups d))
      | None \<Rightarrow> (case given_id ''refundId'' result of Some i \<Rightarrow> map_option rf_customer (find (\<lambda>r. rf_tenant r = t \<and> rf_id r = i) (refunds d))
      | None \<Rightarrow> (case given_id ''amendmentId'' result of Some i \<Rightarrow> map_option am_customer (find_amendment t i d)
      | None \<Rightarrow> (case given_id ''refundGroupId'' result of Some i \<Rightarrow> map_option rg_customer (find (\<lambda>r. rg_tenant r = t \<and> rg_id r = i) (refund_groups d))
      | None \<Rightarrow> (case given_id ''batchId'' result of Some i \<Rightarrow> map_option wr_customer (find (\<lambda>r. wr_tenant r = t \<and> wr_id r = i) (batches d))
      | None \<Rightarrow> None)))))))"

definition staff_only :: "actor \<Rightarrow> unit tx" where
  "staff_only a = tguard (\<not> is_customer_actor a) (AccessErr TenantAccessDenied)"

text \<open>The permissions that the receipts of some commands need beyond reading.\<close>

definition receipt_access :: "actor \<Rightarrow> receipt_row \<Rightarrow> json \<Rightarrow> unit tx" where
  "receipt_access a r result =
     tseq (require_booking_venue a (rc_venue r) PRead)
     (tseq (twhen (rc_type r = ''booking.customer'') (tseq (staff_only a) (require_booking_venue a (rc_venue r) PBook)))
     (tseq (twhen (rc_type r = ''customer.contact.correct'')
        (tseq (staff_only a) (require_booking_venue a (rc_venue r) PManageMembers)))
     (twhen (rc_type r = ''wecom.receipt.link'')
        (tseq (staff_only a)
        (tseq (require_booking_venue a (rc_venue r) PReconcilePayments)
        (require_booking_venue a (rc_venue r)
           (if given_id ''topupId'' result \<noteq> None then PManageMembers else PBook)))))))"

definition get_command_receipt :: "actor \<Rightarrow> string \<Rightarrow> (string \<times> json \<times> instant) option op" where
  "get_command_receipt a key =
     with_booking_transaction a
       (tbind (tread (\<lambda>d. find (\<lambda>r. receipt_key a key r \<and> rc_completed r \<noteq> None) (receipts d))) (\<lambda>row.
        case row of None \<Rightarrow> tret None
        | Some r \<Rightarrow>
            (case (rc_result r, rc_completed r) of
               (Some result, Some completed) \<Rightarrow>
                 tseq (receipt_access a r result)
                 (tbind (tread (result_customer (ac_tenant a) result)) (\<lambda>c.
                  tret (if is_customer_actor a \<and> c \<noteq> ac_customer a then None else Some (rc_type r, result, completed))))
             | _ \<Rightarrow> tfail TypeErr)))"

lemma reads_available [reads_intros]: "reads_only (available a ls)"
  unfolding available_def by (intro reads_intros)

lemma reads_result_order [reads_intros]: "reads_only (result_order a r)"
  unfolding result_order_def by (intro reads_intros)

lemma reads_receipt_access [reads_intros]: "reads_only (receipt_access a r result)"
  unfolding receipt_access_def staff_only_def by (intro reads_intros)

section \<open>Invariants\<close>

lemma same_rows_booking [same_rows]: "same_order cancelled_order" "same_order (closed_if_empty b)"
  by (simp_all add: same_order_def cancelled_order_def closed_if_empty_def)

text \<open>An invariant that the works of the commands keep as wholes.\<close>

locale booking_invariant = release_invariant + command_invariant + customer_writes +
  assumes inv_quote: "T (qt_tenant q) \<Longrightarrow> keeps I (insert_quote q)"
    and inv_confirm: "T (ac_tenant a) \<Longrightarrow> keeps I (confirm_work a q hold request)"
    and inv_cancel_unpaid: "T (ac_tenant a) \<Longrightarrow> keeps I (cancel_unpaid_work a i expected reason)"
    and inv_cancel_free: "T (ac_tenant a) \<Longrightarrow> keeps I (cancel_free_work a i expected ids reason)"

context order_writes
begin

lemma keeps_book_line: "T t \<Longrightarrow> keeps I (book_line t q i e)"
  unfolding book_line_def Let_def
  by (intro keeps_intros keeps_counters inv_insert_line inv_insert_occupancy) (simp_all add: new_line_def line_occupancy_def)

lemma keeps_confirm: "T (ac_tenant a) \<Longrightarrow> keeps I (confirm_work a q hold request)"
  unfolding confirm_work_def Let_def
  by (intro keeps_intros keeps_base keeps_reading [OF reads_price_selection] keeps_reading [OF reads_available]
      inv_insert_order keeps_book_line) (simp_all add: new_order_def Let_def)

lemma keeps_cancel_unpaid: "T (ac_tenant a) \<Longrightarrow> keeps I (cancel_unpaid_work a i expected reason)"
  unfolding cancel_unpaid_work_def Let_def
  by (intro keeps_intros keeps_base keeps_order_readers keeps_release_payments keeps_release_order_inventory
      inv_update_lines inv_update_order same_rows) (simp_all add: open_line_of_def)

lemma keeps_cancel_free: "T (ac_tenant a) \<Longrightarrow> keeps I (cancel_free_work a i expected ids reason)"
  unfolding cancel_free_work_def Let_def
  by (intro keeps_intros keeps_base keeps_order_readers keeps_release inv_update_lines inv_update_order same_rows) simp_all

end

text \<open>The writes of the works leave the receipts alone.\<close>

interpretation orders_receipts: order_writes "\<lambda>d. receipts d = rs" "\<lambda>_. True" for rs
  by unfold_locales (auto simp: keeps_def insert_occupancy_def move_occupancy_def insert_quote_def insert_order_def
      update_order_def insert_line_def update_lines_def insert_payment_def update_payment_def update_amendment_def ok_iff)

lemma booking_works_receipts:
  "no_receipts (confirm_work a q hold request)" "no_receipts (cancel_unpaid_work a i expected reason)"
  "no_receipts (cancel_free_work a i expected ids reason)"
  unfolding no_receipts_def
  by (blast intro: orders_receipts.keeps_confirm orders_receipts.keeps_cancel_unpaid orders_receipts.keeps_cancel_free)+

context booking_invariant
begin

lemma create_quote_inv: "T (ac_tenant a) \<Longrightarrow> op_keeps I (create_quote a v c ls)"
  unfolding create_quote_def Let_def
  by (intro keeps_intros op_keeps_booking keeps_base keeps_order_readers keeps_expire_holds inv_quote
      keeps_reading [OF reads_require_customer] keeps_reading [OF reads_booking_policy]
      keeps_reading [OF reads_price_selection] keeps_reading [OF reads_available]) simp_all

lemma confirm_quote_inv: "T (ac_tenant a) \<Longrightarrow> op_keeps I (confirm_quote a q key hold)"
  unfolding confirm_quote_def
  by (intro keeps_intros op_keeps_booking keeps_base keeps_order_readers keeps_expire_holds inv_idempotent inv_confirm
      keeps_reading [OF reads_require_customer] keeps_reading [OF reads_result_order] booking_works_receipts)

lemma get_order_inv: "T (ac_tenant a) \<Longrightarrow> op_keeps I (get_order a i)"
  unfolding get_order_def by (intro keeps_intros op_keeps_booking keeps_order_readers keeps_expire_holds)

lemma list_orders_inv: "T (ac_tenant a) \<Longrightarrow> op_keeps I (list_orders a v)"
  unfolding list_orders_def by (intro keeps_intros op_keeps_booking keeps_order_readers keeps_expire_holds)

lemma cancel_unpaid_inv: "T (ac_tenant a) \<Longrightarrow> op_keeps I (cancel_unpaid_order a i key expected reason)"
  unfolding cancel_unpaid_order_def
  by (intro keeps_intros op_keeps_booking keeps_order_readers keeps_expire_holds inv_idempotent inv_cancel_unpaid
      keeps_reading [OF reads_result_order] booking_works_receipts)

lemma cancel_free_inv: "T (ac_tenant a) \<Longrightarrow> op_keeps I (cancel_free_order_lines a i expected ids key reason)"
  unfolding cancel_free_order_lines_def
  by (intro keeps_intros op_keeps_booking keeps_order_readers keeps_expire_holds inv_idempotent inv_cancel_free
      keeps_reading [OF reads_result_order] booking_works_receipts)

lemma get_command_receipt_inv: "op_keeps I (get_command_receipt a key)"
  unfolding get_command_receipt_def
  by (intro op_keeps_booking keeps_reading reads_intros) (auto split: option.split intro: reads_intros)

lemma expire_due_orders_inv: "(\<And>t. T t) \<Longrightarrow> op_keeps I (expire_due_orders n)"
  unfolding expire_due_orders_def
  by (intro keeps_intros op_keeps_tx keeps_counters keeps_expire_holds)

end

text \<open>An invariant that the writes keep one by one.\<close>

locale booking_writes = order_writes + command_invariant + customer_writes

sublocale booking_writes \<subseteq> booking_invariant
  by unfold_locales (rule inv_insert_quote keeps_confirm keeps_cancel_unpaid keeps_cancel_free; assumption)+

end
