(* ===== verification/Booked.thy ===== *)
theory Booked
  imports Booking
begin

text \<open>
  What the bookings promise: the lines of the orders that are held or confirmed and the court
  times taken on behalf of lines correspond to each other, and no court time is taken twice.
  The lemmas are stated on the three tables as lists, for the changes that the commands make of
  them, and lifted to every command of booking.ts and to the staff's own occupancies.
\<close>

section \<open>Lines and occupancies\<close>

definition live :: "order_row list \<Rightarrow> order_line_row \<Rightarrow> bool" where
  "live os l \<longleftrightarrow> ol_cancelled l = None \<and>
     (\<exists>r\<in>set os. or_tenant r = ol_tenant l \<and> or_id r = ol_order l \<and> (or_status r = Held \<or> or_status r = Confirmed))"

definition covers :: "order_line_row \<Rightarrow> occupancy_row \<Rightarrow> bool" where
  "covers l c \<longleftrightarrow> oc_released c = None \<and> oc_line c = Some (ol_id l) \<and> oc_tenant c = ol_tenant l \<and>
     oc_court c = ol_court l \<and> oc_start c = ol_start l \<and> oc_end c = ol_end l"

definition owned :: "order_row list \<Rightarrow> order_line_row \<Rightarrow> bool" where
  "owned os l \<longleftrightarrow> (\<exists>r\<in>set os. or_id r = ol_order l \<and> or_tenant r = ol_tenant l)"

definition books :: "order_row list \<Rightarrow> order_line_row list \<Rightarrow> occupancy_row list \<Rightarrow> bool" where
  "books os ls cs \<longleftrightarrow>
     distinct (map or_id os) \<and> distinct (map ol_id ls) \<and> distinct (map oc_id cs) \<and>
     (\<forall>l\<in>set ls. owned os l \<and> (live os l \<longrightarrow> (\<exists>c\<in>set cs. covers l c))) \<and>
     (\<forall>c\<in>set cs. (oc_line c = None \<or> oc_amendment c = None) \<and>
        (oc_released c = None \<longrightarrow> oc_line c \<noteq> None \<longrightarrow> (\<exists>l\<in>set ls. live os l \<and> covers l c)))"

lemma booksD:
  assumes "books os ls cs"
  shows "distinct (map or_id os)" "distinct (map ol_id ls)" "distinct (map oc_id cs)"
    and "l \<in> set ls \<Longrightarrow> owned os l" "l \<in> set ls \<Longrightarrow> live os l \<Longrightarrow> \<exists>c\<in>set cs. covers l c"
    and "c \<in> set cs \<Longrightarrow> oc_released c = None \<Longrightarrow> oc_line c = Some i \<Longrightarrow> \<exists>l\<in>set ls. live os l \<and> covers l c"
    and "c \<in> set cs \<Longrightarrow> oc_line c = None \<or> oc_amendment c = None"
  using assms unfolding books_def by (blast | simp)+

lemma booksI:
  assumes "distinct (map or_id os)" "distinct (map ol_id ls)" "distinct (map oc_id cs)"
    and "\<And>l. l \<in> set ls \<Longrightarrow> owned os l" "\<And>l. l \<in> set ls \<Longrightarrow> live os l \<Longrightarrow> \<exists>c\<in>set cs. covers l c"
    and "\<And>c i. c \<in> set cs \<Longrightarrow> oc_released c = None \<Longrightarrow> oc_line c = Some i \<Longrightarrow> \<exists>l\<in>set ls. live os l \<and> covers l c"
    and "\<And>c. c \<in> set cs \<Longrightarrow> oc_line c = None \<or> oc_amendment c = None"
  shows "books os ls cs"
  unfolding books_def
  by (intro conjI ballI impI assms(1,2,3); (rule assms(4,5,7); assumption | elim not_None_eq [THEN iffD1, THEN exE]; rule assms(6); assumption))

lemma plain_rows: "books os ls cs \<Longrightarrow> \<forall>c\<in>set cs. oc_line c = None \<or> oc_amendment c = None"
  by (auto simp: books_def)

definition takes_line :: "string \<Rightarrow> string set \<Rightarrow> occupancy_row \<Rightarrow> bool" where
  "takes_line t L c \<longleftrightarrow> oc_tenant c = t \<and> (\<exists>l\<in>L. oc_line c = Some l)"

lemma release_rows_cases:
  assumes "c \<in> set (release_rows now P cs)" "oc_released c = None"
  shows "c \<in> set cs" "\<not> P c"
  using assms by (auto simp: release_rows_def split: if_splits)

lemma release_rows_stay: "c \<in> set cs \<Longrightarrow> \<not> P c \<Longrightarrow> c \<in> set (release_rows now P cs)"
  by (force simp: release_rows_def)

lemma release_rows_plain:
  "c \<in> set (release_rows now P cs) \<Longrightarrow> \<exists>k\<in>set cs. oc_line c = oc_line k \<and> oc_amendment c = oc_amendment k"
  by (auto simp: release_rows_def)

lemma same_id: "distinct (map h xs) \<Longrightarrow> x \<in> set xs \<Longrightarrow> y \<in> set xs \<Longrightarrow> h x = h y \<Longrightarrow> x = y"
  by (simp add: distinct_map inj_on_def)

lemma owned_map: "(\<And>r. or_id (f r) = or_id r \<and> or_tenant (f r) = or_tenant r) \<Longrightarrow> owned (map f os) l = owned os l"
  by (simp add: owned_def)

text \<open>
  The changes of the commands: the orders change by f, the lines by g, the court times of the
  lines L are released and the rows ns taken anew.
\<close>

lemma books_change:
  assumes B: "books os ls cs"
    and f: "\<And>r. or_id (f r) = or_id r \<and> or_tenant (f r) = or_tenant r"
    and g: "\<And>l. ol_id (g l) = ol_id l \<and> ol_tenant (g l) = ol_tenant l \<and> ol_order (g l) = ol_order l"
    and out: "\<And>l. l \<in> set ls \<Longrightarrow> \<not> (ol_tenant l = t \<and> ol_id l \<in> L) \<Longrightarrow> g l = l \<and> live (map f os) l = live os l"
    and new: "\<And>l. l \<in> set ls \<Longrightarrow> ol_tenant l = t \<Longrightarrow> ol_id l \<in> L \<Longrightarrow> live (map f os) (g l) \<Longrightarrow> \<exists>c\<in>set ns. covers (g l) c"
    and ns: "\<And>c. c \<in> set ns \<Longrightarrow> oc_amendment c = None \<and> (\<exists>l\<in>set ls. ol_tenant l = t \<and> ol_id l \<in> L \<and> live (map f os) (g l) \<and> covers (g l) c)"
    and fresh: "distinct (map oc_id (cs @ ns))"
  shows "books (map f os) (map g ls) (release_rows now (takes_line t L) cs @ ns)"
proof (rule booksI)
  show "distinct (map or_id (map f os))" using booksD(1) [OF B] f by (simp add: comp_def)
  show "distinct (map ol_id (map g ls))" using booksD(2) [OF B] g by (simp add: comp_def)
  show "distinct (map oc_id (release_rows now (takes_line t L) cs @ ns))"
    using fresh by (simp only: map_append release_rows_ids)
  fix l' assume "l' \<in> set (map g ls)"
  then obtain l where l: "l \<in> set ls" "l' = g l" by auto
  show "owned (map f os) l'" using booksD(4) [OF B l(1)] f g l(2) by (simp add: owned_def)
  assume live: "live (map f os) l'"
  show "\<exists>c\<in>set (release_rows now (takes_line t L) cs @ ns). covers l' c"
  proof (cases "ol_tenant l = t \<and> ol_id l \<in> L")
    case True
    then show ?thesis using new [OF l(1)] live l(2) by auto
  next
    case False
    then obtain c where c: "c \<in> set cs" "covers l c"
      using out [OF l(1)] booksD(5) [OF B l(1)] live l(2) by auto
    then have "\<not> takes_line t L c" using False by (auto simp: covers_def takes_line_def)
    then have "c \<in> set (release_rows now (takes_line t L) cs)" using c(1) by (rule release_rows_stay [rotated])
    moreover have "covers l' c" using c(2) out [OF l(1) False] l(2) by simp
    ultimately show ?thesis by auto
  qed
next
  fix c i assume c: "c \<in> set (release_rows now (takes_line t L) cs @ ns)" "oc_released c = None" "oc_line c = Some i"
  show "\<exists>l\<in>set (map g ls). live (map f os) l \<and> covers l c"
  proof (cases "c \<in> set ns")
    case True
    then show ?thesis using ns by auto
  next
    case False
    then have "c \<in> set (release_rows now (takes_line t L) cs)" using c(1) by simp
    then have k: "c \<in> set cs" "\<not> takes_line t L c" using c(2) by (rule release_rows_cases)+
    then obtain l where l: "l \<in> set ls" "live os l" "covers l c" using booksD(6) [OF B] c by blast
    then have "\<not> (ol_tenant l = t \<and> ol_id l \<in> L)" using k(2) by (auto simp: covers_def takes_line_def)
    then have "g l = l" "live (map f os) l" using out [OF l(1)] l(2) by auto
    then show ?thesis using l by force
  qed
next
  fix c assume "c \<in> set (release_rows now (takes_line t L) cs @ ns)"
  then show "oc_line c = None \<or> oc_amendment c = None"
    using ns release_rows_plain [of c now "takes_line t L" cs] plain_rows [OF B] by (fastforce simp del: not_None_eq)
qed

lemma books_add_order:
  assumes B: "books os ls cs" and fresh: "or_id r \<notin> or_id ` set os"
  shows "books (os @ [r]) ls cs"
proof -
  have "live (os @ [r]) l = live os l \<and> owned (os @ [r]) l" if "l \<in> set ls" for l
  proof -
    have "or_id r \<noteq> ol_order l" "owned os l"
      using booksD(4) [OF B that] fresh unfolding owned_def by (metis imageI)+
    then show ?thesis by (simp add: live_def owned_def)
  qed
  then show ?thesis
    using fresh booksD(1-3) [OF B] booksD(4,5) [OF B] booksD(6) [OF B] plain_rows [OF B]
    by (intro booksI) (auto simp del: not_None_eq)
qed

lemma books_add_line:
  assumes B: "books os ls cs" and l: "ol_id l \<notin> ol_id ` set ls" "live os l"
    and c: "covers l c" "oc_amendment c = None" "oc_id c \<notin> oc_id ` set cs"
  shows "books os (ls @ [l]) (cs @ [c])"
proof -
  have "owned os l" using l(2) by (auto simp: live_def owned_def)
  then show ?thesis
    using l c booksD(1-3) [OF B] booksD(4,5) [OF B] booksD(6) [OF B] plain_rows [OF B]
    by (intro booksI) (auto simp del: not_None_eq)
qed

lemma books_add_plain:
  assumes B: "books os ls cs" and c: "oc_line c = None" "oc_id c \<notin> oc_id ` set cs"
  shows "books os ls (cs @ [c])"
  using c booksD(1-3) [OF B] booksD(4,5) [OF B] booksD(6) [OF B] plain_rows [OF B]
  by (intro booksI) (auto simp del: not_None_eq)

lemma books_plain_map:
  assumes B: "books os ls cs"
    and h: "\<And>c. c \<in> set cs \<Longrightarrow> oc_id (h c) = oc_id c \<and> oc_line (h c) = oc_line c \<and> oc_amendment (h c) = oc_amendment c"
    and same: "\<And>c. c \<in> set cs \<Longrightarrow> oc_released c = None \<Longrightarrow> oc_line c \<noteq> None \<Longrightarrow> h c = c"
    and gone: "\<And>c. c \<in> set cs \<Longrightarrow> oc_released c \<noteq> None \<Longrightarrow> oc_released (h c) \<noteq> None"
  shows "books os ls (map h cs)"
proof (rule booksI)
  have "map oc_id (map h cs) = map oc_id cs" using h by (induction cs) simp_all
  then show "distinct (map oc_id (map h cs))" using booksD(3) [OF B] by (simp only:)
  show "\<exists>c\<in>set (map h cs). covers l c" if l: "l \<in> set ls" "live os l" for l
  proof -
    obtain c where c: "c \<in> set cs" "covers l c" using booksD(5) [OF B l] by blast
    then have "h c = c" using same by (auto simp: covers_def)
    then show ?thesis using c by force
  qed
  show "\<exists>l\<in>set ls. live os l \<and> covers l c'" if c': "c' \<in> set (map h cs)" "oc_released c' = None" "oc_line c' = Some i" for c' i
  proof -
    obtain c where c: "c \<in> set cs" "c' = h c" using c'(1) by auto
    then have "oc_released c = None" "oc_line c = Some i" using gone [OF c(1)] h [OF c(1)] c' by (auto simp del: not_None_eq)
    then show ?thesis using same [OF c(1)] booksD(6) [OF B c(1)] c(2) by simp
  qed
  show "oc_line c' = None \<or> oc_amendment c' = None" if "c' \<in> set (map h cs)" for c'
    using that h plain_rows [OF B] by (fastforce simp del: not_None_eq)
qed (use booksD [OF B] in blast)+


section \<open>The releases\<close>

definition bookings :: "db \<Rightarrow> order_row list \<times> order_line_row list \<times> occupancy_row list" where
  "bookings d = (orders d, order_lines d, occupancies d)"

text \<open>The wallet, the payments and the amendments are other tables.\<close>

interpretation bookings_wallet: wallet_writes "\<lambda>d. bookings d = b" "\<lambda>_. True" for b
  by unfold_locales (auto simp: keeps_def insert_batch_def adjust_batch_def insert_allocation_def set_allocation_status_def
      insert_entry_def record_tenant_audit_def lock_wallet_def ok_iff bookings_def)

lemma bookings_updates:
  "keeps (\<lambda>d. bookings d = b) (update_payment t i f)" "keeps (\<lambda>d. bookings d = b) (update_amendment t i h)"
  by (auto simp: keeps_def update_payment_def update_amendment_def ok_iff bookings_def)

lemma bookings_release_payments: "keeps (\<lambda>d. bookings d = b) (release_pending_payments t i st)"
  unfolding release_pending_payments_def release_payment_def
  by (intro keeps_intros bookings_wallet.keeps_settle bookings_wallet.inv_audit bookings_updates TrueI)

lemma same_bookings: "keeps (\<lambda>d. bookings d = bookings d0) m \<Longrightarrow> m E d0 = Inr (x, d) \<Longrightarrow> bookings d = bookings d0"
  by (rule keepsD [where I = "\<lambda>d. bookings d = bookings d0", OF _ refl])

definition line_ids :: "string \<Rightarrow> string \<Rightarrow> order_line_row list \<Rightarrow> string set" where
  "line_ids t i ls = ol_id ` {l \<in> set ls. ol_tenant l = t \<and> ol_order l = i}"

lemma release_order_inventory_effect:
  "release_order_inventory t i E d = Inr (x, d') \<Longrightarrow>
     \<exists>now. bookings d' = (orders d, order_lines d, release_rows now (takes_line t (line_ids t i (order_lines d))) (occupancies d))"
  unfolding release_order_inventory_def release_occupancies_def tbind_Inr tread_Inr tclock_Inr tmodify_Inr
  by (auto simp: bookings_def takes_line_def [abs_def] line_ids_def intro!: exI)

lemma update_order_effect:
  "update_order t i f E d = Inr (x, d') \<Longrightarrow>
     \<exists>now. bookings d' = (map (change_order t i (f now)) (orders d), order_lines d, occupancies d)"
  unfolding update_order_def tbind_Inr tseq_Inr tcheck_Inr tclock_Inr tmodify_Inr
  by (auto simp: bookings_def intro!: exI)

lemma update_lines_effect:
  "update_lines P f E d = Inr (x, d') \<Longrightarrow>
     \<exists>now. bookings d' = (orders d, map (change_line P (f now)) (order_lines d), occupancies d)"
  unfolding update_lines_def tbind_Inr tseq_Inr tcheck_Inr tclock_Inr tmodify_Inr
  by (auto simp: bookings_def intro!: exI)

lemma release_occupancies_effect:
  "release_occupancies P E d = Inr (x, d') \<Longrightarrow> \<exists>now. bookings d' = (orders d, order_lines d, release_rows now P (occupancies d))"
  unfolding release_occupancies_def tbind_Inr tclock_Inr tmodify_Inr by (auto simp: bookings_def intro!: exI)

lemma audit_bookings: "record_tenant_audit a s r ds E d = Inr (x, d') \<Longrightarrow> bookings d' = bookings d"
  by (rule same_bookings [OF bookings_wallet.inv_audit]) simp_all

lemma expire_order_effect:
  assumes "expire_order t i E d = Inr (x, d')"
  shows "\<exists>now now'. bookings d' = (map (change_order t i (expired_order now')) (orders d), order_lines d,
     release_rows now (takes_line t (line_ids t i (order_lines d))) (occupancies d))"
proof -
  obtain x1 d1 x2 d2 x3 d3 where 1: "release_pending_payments t i LapseExpired E d = Inr (x1, d1)"
    and 2: "release_order_inventory t i E d1 = Inr (x2, d2)" and 3: "update_order t i expired_order E d2 = Inr (x3, d3)"
    and 4: "record_tenant_audit (system_actor t) ''order.expire'' i [] E d3 = Inr (x, d')"
    using assms unfolding expire_order_def tseq_Inr by blast
  have "bookings d1 = bookings d" using same_bookings [OF bookings_release_payments 1] .
  then show ?thesis
    using release_order_inventory_effect [OF 2] update_order_effect [OF 3] audit_bookings [OF 4]
    by (auto simp: bookings_def)
qed


section \<open>Every command keeps the books\<close>

definition bookings_ok :: "db \<Rightarrow> bool" where
  "bookings_ok d \<longleftrightarrow> books (orders d) (order_lines d) (occupancies d)"

lemma booked_bookings: "bookings d = (os, ls, cs) \<Longrightarrow> bookings_ok d = books os ls cs"
  by (auto simp: bookings_def bookings_ok_def)

lemma booked_same: "bookings d' = bookings d \<Longrightarrow> bookings_ok d' = bookings_ok d"
  by (auto simp: bookings_def bookings_ok_def)

lemma keeps_booked_same: "(\<And>b. keeps (\<lambda>d. bookings d = b) m) \<Longrightarrow> keeps bookings_ok m"
  by (rule keepsI) (metis booked_same same_bookings)

lemma live_other_order:
  assumes "\<And>r. or_id (f r) = or_id r \<and> or_tenant (f r) = or_tenant r" "\<not> (ol_tenant l = t \<and> ol_order l = i)"
  shows "live (map (change_order t i f) os) l = live os l"
  using assms by (auto simp: live_def change_order_def order_key_def)

lemma closed_not_live:
  assumes "\<And>r. or_id (f r) = or_id r \<and> or_tenant (f r) = or_tenant r" "\<And>r. or_status (f r) \<notin> {Held, Confirmed}"
    and "ol_tenant l = t" "ol_order l = i"
  shows "\<not> live (map (change_order t i f) os) l"
  using assms by (auto simp: live_def change_order_def order_key_def)

lemma change_order_ids:
  "(\<And>r. or_id (f r) = or_id r \<and> or_tenant (f r) = or_tenant r) \<Longrightarrow>
     or_id (change_order t i f r) = or_id r \<and> or_tenant (change_order t i f r) = or_tenant r"
  by (simp add: change_order_def)

lemma line_ids_order:
  assumes "distinct (map ol_id ls)" "l \<in> set ls" "ol_id l \<in> line_ids t i ls"
  shows "ol_tenant l = t" "ol_order l = i"
  using assms same_id [OF assms(1,2)] by (auto simp: line_ids_def)

lemma books_close:
  assumes B: "books os ls cs"
    and f: "\<And>r. or_id (f r) = or_id r \<and> or_tenant (f r) = or_tenant r" "\<And>r. or_status (f r) \<notin> {Held, Confirmed}"
    and g: "\<And>l. ol_id (g l) = ol_id l \<and> ol_tenant (g l) = ol_tenant l \<and> ol_order (g l) = ol_order l"
      "\<And>l. \<not> (ol_tenant l = t \<and> ol_order l = i) \<Longrightarrow> g l = l"
  shows "books (map (change_order t i f) os) (map g ls) (release_rows now (takes_line t (line_ids t i ls)) cs)"
proof -
  have "books (map (change_order t i f) os) (map g ls) (release_rows now (takes_line t (line_ids t i ls)) cs @ [])"
  proof (rule books_change [OF B])
    fix l assume l: "l \<in> set ls"
    show "g l = l \<and> live (map (change_order t i f) os) l = live os l" if "\<not> (ol_tenant l = t \<and> ol_id l \<in> line_ids t i ls)"
    proof -
      have no: "\<not> (ol_tenant l = t \<and> ol_order l = i)" using that l by (auto simp: line_ids_def)
      show ?thesis using g(2) [OF no] live_other_order [OF f(1) no] by simp
    qed
    show "\<exists>c\<in>set []. covers (g l) c" if "ol_id l \<in> line_ids t i ls" "live (map (change_order t i f) os) (g l)"
    proof -
      have "ol_tenant (g l) = t" "ol_order (g l) = i"
        using line_ids_order [OF booksD(2) [OF B] l that(1)] g(1) by simp_all
      then show ?thesis using closed_not_live [OF f] that(2) by blast
    qed
  qed (use g(1) change_order_ids [OF f(1)] booksD(3) [OF B] in simp_all)
  then show ?thesis by simp
qed

lemma expire_order_booked: "keeps bookings_ok (expire_order t i)"
proof (rule keepsI)
  fix E d x d' assume I: "bookings_ok d" and "expire_order t i E d = Inr (x, d')"
  from expire_order_effect [OF this(2)] obtain now now' where
    "bookings d' = (map (change_order t i (expired_order now')) (orders d), map id (order_lines d),
       release_rows now (takes_line t (line_ids t i (order_lines d))) (occupancies d))" by auto
  then show "bookings_ok d'"
    using books_close [OF I [unfolded bookings_ok_def], of "expired_order now'" id] by (simp add: booked_bookings expired_order_def)
qed

lemma release_plain_booked: "books os ls cs \<Longrightarrow> (\<And>c. P c \<Longrightarrow> oc_amendment c \<noteq> None) \<Longrightarrow> books os ls (release_rows now P cs)"
  unfolding release_rows_def by (rule books_plain_map) (use plain_rows in \<open>fastforce+\<close>)

lemma release_amendment_booked: "keeps bookings_ok (release_amendment_in_transaction t i st)"
proof -
  have release: "keeps bookings_ok (release_occupancies (\<lambda>r. oc_tenant r = t \<and> oc_amendment r = Some i))"
  proof (rule keepsI)
    fix E d x d' assume I: "bookings_ok d" and run: "release_occupancies (\<lambda>r. oc_tenant r = t \<and> oc_amendment r = Some i) E d = Inr (x, d')"
    show "bookings_ok d'"
      using release_occupancies_effect [OF run]
      by (auto simp: booked_bookings intro!: release_plain_booked I [unfolded bookings_ok_def])
  qed
  show ?thesis
    unfolding release_amendment_in_transaction_def release_amendment_payment_def
    by (intro keeps_intros release keeps_booked_same bookings_wallet.keeps_settle bookings_wallet.inv_audit bookings_updates
        bookings_wallet.keeps_reading [OF reads_order_readers(4)] TrueI)
qed

definition open_order :: "string \<Rightarrow> string \<Rightarrow> order_row list \<Rightarrow> bool" where
  "open_order t i os \<longleftrightarrow> (\<exists>r\<in>set os. or_tenant r = t \<and> or_id r = i \<and> (or_status r = Held \<or> or_status r = Confirmed))"

lemma new_line_fields:
  "ol_id (new_line t q i j n p s) = j" "ol_tenant (new_line t q i j n p s) = t" "ol_order (new_line t q i j n p s) = i"
  "ol_position (new_line t q i j n p s) = n" "ol_cancelled (new_line t q i j n p s) = None"
  "ol_court (new_line t q i j n p s) = cp_court p" "ol_start (new_line t q i j n p s) = fst s" "ol_end (new_line t q i j n p s) = snd s"
  by (simp_all add: new_line_def)

lemma book_line_effect:
  assumes "book_line t q i e E d = Inr (x, d')"
  obtains l c where "bookings d' = (orders d, order_lines d @ [l], occupancies d @ [c])"
    "ol_id l \<notin> ol_id ` set (order_lines d)" "oc_id c \<notin> oc_id ` set (occupancies d)" "covers l c" "oc_amendment c = None"
    "ol_tenant l = t" "ol_order l = i" "ol_cancelled l = None" "ol_court l = cp_court (snd e)"
    "price_span (snd e) = Inr (snd e, (ol_start l, ol_end l))"
proof -
  obtain s where s: "price_span (snd e) = Inr s"
    using assms by (auto simp: book_line_def tbind_Inr tlift_Inr)
  define j k where "j = e_uuid E (uuids d)" and "k = e_uuid E (Suc (uuids d))"
  have fl: "\<not> list_ex (\<lambda>r. ol_id r = j \<or> (ol_order r = i \<and> ol_position r = fst e)) (order_lines d)"
    and ins: "insert_occupancy (line_occupancy (new_line t q i j (fst e) (snd e) (snd s)) k) E
       (d\<lparr>order_lines := order_lines d @ [new_line t q i j (fst e) (snd e) (snd s)], uuids := Suc (Suc (uuids d))\<rparr>) = Inr (x, d')"
    using assms s unfolding j_def k_def
    by (simp_all add: book_line_def insert_line_def Let_def tbind_Inr tseq_Inr tlift_Inr tuuid_Inr tcheck_Inr tguard_Inr
        tmodify_Inr new_line_fields)
  let ?l = "new_line t q i j (fst e) (snd e) (snd s)"
  have "fst s = snd e" using s by (auto simp: price_span_def bindE_def split: sum.splits)
  then show thesis
    using ins fl s by (intro that [where l = ?l and c = "line_occupancy ?l k"])
      (auto simp: insert_occupancy_Inr bookings_def list_ex_iff covers_def line_occupancy_def new_line_fields prod_eq_iff)
qed

lemma book_line_booked: "keeps (\<lambda>d. bookings_ok d \<and> open_order t i (orders d)) (book_line t q i e)"
proof (rule keepsI)
  fix E d x d' assume I: "bookings_ok d \<and> open_order t i (orders d)" and run: "book_line t q i e E d = Inr (x, d')"
  obtain l c where *: "bookings d' = (orders d, order_lines d @ [l], occupancies d @ [c])"
    "ol_id l \<notin> ol_id ` set (order_lines d)" "oc_id c \<notin> oc_id ` set (occupancies d)" "covers l c" "oc_amendment c = None"
    "ol_tenant l = t" "ol_order l = i" "ol_cancelled l = None"
    by (rule book_line_effect [OF run])
  have "live (orders d) l" using I * by (auto simp: live_def open_order_def)
  then have "bookings_ok d'" using books_add_line [of "orders d" "order_lines d" "occupancies d" l c] I *
    unfolding booked_bookings [OF *(1)] by (simp add: bookings_ok_def)
  moreover have "orders d' = orders d" using *(1) by (simp add: bookings_def)
  ultimately show "bookings_ok d' \<and> open_order t i (orders d')" using I by simp
qed


lemma insert_order_booked:
  assumes "or_tenant r = t" "or_id r = i" "or_status r = Held \<or> or_status r = Confirmed"
  shows "ensures bookings_ok (insert_order r) (\<lambda>_ d. bookings_ok d \<and> open_order t i (orders d))"
proof (rule ensuresI)
  fix E d x d' assume I: "bookings_ok d" and run: "insert_order r E d = Inr (x, d')"
  from run have fresh: "or_id r \<notin> or_id ` set (orders d)" and d': "d' = d\<lparr>orders := orders d @ [r]\<rparr>"
    by (auto simp: insert_order_def ok_iff list_ex_iff)
  show "bookings_ok d' \<and> open_order t i (orders d')"
    using books_add_order [OF I [unfolded bookings_ok_def] fresh] assms unfolding d'
    by (auto simp: bookings_ok_def open_order_def)
qed

lemma bookings_reads: "reads_only m \<Longrightarrow> keeps (\<lambda>d. bookings d = b) m"
  by (rule bookings_wallet.keeps_reading)

lemma keeps_booked_reads: "reads_only m \<Longrightarrow> keeps bookings_ok m"
  by (intro keeps_booked_same bookings_reads)

lemmas keeps_booked_plain =
  keeps_booked_same [OF bookings_wallet.inv_audit [OF TrueI]] keeps_booked_same [OF bookings_release_payments]
  keeps_booked_same [OF bookings_wallet.keeps_counters(1)] keeps_booked_same [OF bookings_wallet.keeps_counters(2)]

lemma confirm_booked: "keeps bookings_ok (confirm_work a q hold request)"
proof -
  let ?t = "ac_tenant a"
  have open_new: "or_tenant (new_order a q request hold i until created) = ?t" "or_id (new_order a q request hold i until created) = i"
      "or_status (new_order a q request hold i until created) = Held \<or> or_status (new_order a q request hold i until created) = Confirmed"
    for i until created by (simp_all add: new_order_def Let_def)
  have lines: "ensures (\<lambda>d. bookings_ok d \<and> open_order ?t i (orders d)) (teach (book_line ?t q i) es) (\<lambda>_. bookings_ok)" for i es
    by (rule ensures_weaken [OF keeps_teach [OF book_line_booked, unfolded keeps_ensures]]) simp
  have audit: "keeps bookings_ok (tseq (record_tenant_audit a s i ds) (tret res))" for s i ds and res :: json
    by (intro keeps_intros keeps_booked_plain)
  have written: "keeps bookings_ok (tseq (insert_order (new_order a q request hold i until created))
      (tseq (teach (book_line ?t q i) es) (tseq (record_tenant_audit a s i ds) (tret res))))" for i until created s ds and es and res :: json
    unfolding keeps_ensures
    by (rule ensures_tseq [OF insert_order_booked [OF open_new]], rule ensures_tseq [OF lines], rule audit [unfolded keeps_ensures])
  show ?thesis
    unfolding confirm_work_def Let_def
    by (intro keeps_intros written keeps_booked_plain keeps_booked_reads [OF reads_price_selection] keeps_booked_reads [OF reads_available])
qed

text \<open>A cancelled order and its lines.\<close>

lemma close_order_booked:
  "keeps bookings_ok (tseq (release_order_inventory t i) (tseq (update_lines (open_line_of t i) cancel_line) (update_order t i cancelled_order)))"
proof (rule keepsI)
  fix E d x d' assume I: "bookings_ok d"
    and "tseq (release_order_inventory t i) (tseq (update_lines (open_line_of t i) cancel_line) (update_order t i cancelled_order)) E d = Inr (x, d')"
  then obtain y d1 z d2 where 1: "release_order_inventory t i E d = Inr (y, d1)"
    and 2: "update_lines (open_line_of t i) cancel_line E d1 = Inr (z, d2)" and 3: "update_order t i cancelled_order E d2 = Inr (x, d')"
    unfolding tseq_Inr by blast
  obtain now where d1: "bookings d1 = (orders d, order_lines d, release_rows now (takes_line t (line_ids t i (order_lines d))) (occupancies d))"
    using release_order_inventory_effect [OF 1] by blast
  obtain now' where d2: "bookings d2 = (orders d1, map (change_line (open_line_of t i) (cancel_line now')) (order_lines d1), occupancies d1)"
    using update_lines_effect [OF 2] by blast
  obtain now'' where "bookings d' = (map (change_order t i (cancelled_order now'')) (orders d2), order_lines d2, occupancies d2)"
    using update_order_effect [OF 3] by blast
  with d1 d2 have d': "bookings d' = (map (change_order t i (cancelled_order now'')) (orders d),
      map (change_line (open_line_of t i) (cancel_line now')) (order_lines d),
      release_rows now (takes_line t (line_ids t i (order_lines d))) (occupancies d))"
    by (simp add: bookings_def)
  show "bookings_ok d'"
    unfolding booked_bookings [OF d']
    by (rule books_close [OF I [unfolded bookings_ok_def]])
      (auto simp: cancelled_order_def change_line_def cancel_line_def open_line_of_def)
qed

lemma tseq_assoc: "tseq (tseq m n) k = tseq m (tseq n k)"
  by (auto simp: tseq_def tbind_def fun_eq_iff split: sum.splits)

lemma cancel_unpaid_booked: "keeps bookings_ok (cancel_unpaid_work a i expected reason)"
proof -
  let ?t = "ac_tenant a"
  have closed: "keeps bookings_ok (tseq (release_order_inventory ?t i) (tseq (update_lines (open_line_of ?t i) cancel_line)
      (tseq (update_order ?t i cancelled_order) (tseq (record_tenant_audit a s i ds) (tret res)))))" for i s ds and res :: json
    by (rule keeps_tseq [OF close_order_booked, unfolded tseq_assoc]) (intro keeps_intros keeps_booked_plain)
  show ?thesis
    unfolding cancel_unpaid_work_def Let_def
    by (intro keeps_intros closed keeps_booked_plain keeps_booked_reads [OF reads_order_readers(2)]
        keeps_booked_reads [OF reads_order_readers(6)])
qed


text \<open>Some lines of a free order cancelled by staff; the order ends with its last line.\<close>

definition cancels_lines :: "string \<Rightarrow> string \<Rightarrow> string list \<Rightarrow> order_line_row list \<Rightarrow> bool" where
  "cancels_lines t i ids ls \<longleftrightarrow> (\<forall>k\<in>set ids. \<exists>l\<in>set ls. ol_id l = k \<and> ol_tenant l = t \<and> ol_order l = i)"

lemma live_map:
  assumes "\<And>r. or_id (h r) = or_id r \<and> or_tenant (h r) = or_tenant r \<and>
     (or_status (h r) \<in> {Held, Confirmed} \<longleftrightarrow> or_status r \<in> {Held, Confirmed})"
  shows "live (map h os) l = live os l"
  using assms by (simp add: live_def)

lemma books_cancel_lines:
  assumes B: "books os ls cs" and ids: "cancels_lines t i ids ls"
    and g: "\<And>l. ol_id (g l) = ol_id l \<and> ol_tenant (g l) = ol_tenant l \<and> ol_order (g l) = ol_order l"
      "\<And>l. \<not> (ol_tenant l = t \<and> ol_order l = i \<and> ol_id l \<in> set ids) \<Longrightarrow> g l = l"
      "\<And>l. ol_tenant l = t \<Longrightarrow> ol_order l = i \<Longrightarrow> ol_id l \<in> set ids \<Longrightarrow> ol_cancelled (g l) \<noteq> None"
    and f: "\<And>r. or_id (f r) = or_id r \<and> or_tenant (f r) = or_tenant r"
      "\<And>r l. l \<in> set ls \<Longrightarrow> ol_tenant l = t \<Longrightarrow> ol_order l = i \<Longrightarrow> ol_cancelled (g l) = None \<Longrightarrow>
         or_status (f r) \<in> {Held, Confirmed} \<longleftrightarrow> or_status r \<in> {Held, Confirmed}"
  shows "books (map (change_order t i f) os) (map g ls) (release_rows now (takes_line t (set ids)) cs)"
proof -
  have "books (map (change_order t i f) os) (map g ls) (release_rows now (takes_line t (set ids)) cs @ [])"
  proof (rule books_change [OF B])
    fix l assume l: "l \<in> set ls"
    show "g l = l \<and> live (map (change_order t i f) os) l = live os l" if no: "\<not> (ol_tenant l = t \<and> ol_id l \<in> set ids)"
    proof -
      have same: "g l = l" using g(2) no by blast
      moreover have "live (map (change_order t i f) os) l = live os l"
      proof (cases "ol_tenant l = t \<and> ol_order l = i \<and> ol_cancelled l = None")
        case True
        then have "or_status (f r) \<in> {Held, Confirmed} \<longleftrightarrow> or_status r \<in> {Held, Confirmed}" for r using f(2) [OF l] same by simp
        then show ?thesis using f(1) by (intro live_map) (simp add: change_order_def)
      next
        case False
        show ?thesis
        proof (cases "ol_cancelled l = None")
          case True
          then show ?thesis using False by (intro live_other_order [OF f(1)]) simp
        qed (auto simp: live_def)
      qed
      ultimately show ?thesis ..
    qed
    show "\<exists>c\<in>set []. covers (g l) c" if lt: "ol_tenant l = t" "ol_id l \<in> set ids" "live (map (change_order t i f) os) (g l)"
    proof -
      obtain l' where "l' \<in> set ls" "ol_id l' = ol_id l" "ol_order l' = i"
        using ids lt(2) by (auto simp: cancels_lines_def)
      then have "ol_order l = i" using same_id [OF booksD(2) [OF B] l] by metis
      then have "ol_cancelled (g l) \<noteq> None" using g(3) lt by blast
      then show ?thesis using lt(3) by (simp add: live_def)
    qed
  qed (use g(1) change_order_ids [OF f(1)] booksD(3) [OF B] in simp_all)
  then show ?thesis by simp
qed


lemma order_in_transaction_Inr:
  assumes "order_in_transaction a i E d = Inr (w, d')"
  shows "d' = d" "or_id (ow_row w) = i" "or_tenant (ow_row w) = ac_tenant a" "find_order (ac_tenant a) i d = Some (ow_row w)"
    "ow_lines w = lines_of (ac_tenant a) i d"
  using assms unfolding order_in_transaction_def tbind_Inr tread_Inr tsome_Inr tseq_Inr own_customer_def tguard_Inr tret_Inr
  by (clarsimp simp: find_order_def find_Some_iff order_key_def)+

lemma cancel_free_booked: "keeps bookings_ok (cancel_free_work a i expected ids reason)"
proof (rule keepsI)
  fix E d x d' assume I: "bookings_ok d" and "cancel_free_work a i expected ids reason E d = Inr (x, d')"
  then obtain w d1 y1 d2 y2 d3 y3 d4 y4 d5 y5 where 1: "order_in_transaction a i E d = Inr (w, d1)"
    and 2: "assert_no_pending_amendment (ac_tenant a) (or_id (ow_row w)) E d1 = Inr (y1, d2)"
    and open_ids: "\<forall>k\<in>set ids. \<exists>l\<in>set (ow_lines w). ol_id l = k \<and> ol_cancelled l = None"
    and 3: "update_lines (\<lambda>l. ol_tenant l = ac_tenant a \<and> ol_order l = or_id (ow_row w) \<and> ol_id l \<in> set ids) cancel_line E d2 = Inr (y2, d3)"
    and 4: "release_occupancies (\<lambda>o'. oc_tenant o' = ac_tenant a \<and> (\<exists>l\<in>set ids. oc_line o' = Some l)) E d3 = Inr (y3, d4)"
    and 5: "update_order (ac_tenant a) (or_id (ow_row w)) (closed_if_empty (has_open_lines (ac_tenant a) (or_id (ow_row w)) d4)) E d4 = Inr (y4, d5)"
    and 6: "record_tenant_audit a ''order.cancel_free_lines'' (or_id (ow_row w))
         [(''lineIds'', line_ids_json ids), (''reason'', JStr (js_trim reason))] E d5 = Inr (y5, d')"
    unfolding cancel_free_work_def Let_def tbind_Inr tseq_Inr tguard_Inr tread_Inr tret_Inr list_ex_iff prod.inject by blast
  note w = order_in_transaction_Inr [OF 1]
  let ?t = "ac_tenant a" and ?P = "\<lambda>l. ol_tenant l = ac_tenant a \<and> ol_order l = i \<and> ol_id l \<in> set ids"
  have d2: "bookings d2 = bookings d" using same_bookings [OF bookings_reads [OF reads_order_readers(6)] 2] w(1) by simp
  obtain now where d3: "bookings d3 = (orders d2, map (change_line ?P (cancel_line now)) (order_lines d2), occupancies d2)"
    using update_lines_effect [OF 3] w(2) by auto
  obtain now' where d4: "bookings d4 = (orders d3, order_lines d3, release_rows now' (takes_line ?t (set ids)) (occupancies d3))"
    using release_occupancies_effect [OF 4] by (auto simp: takes_line_def [abs_def])
  define b where "b = has_open_lines ?t i d4"
  obtain now'' where d5: "bookings d5 = (map (change_order ?t i (closed_if_empty b now'')) (orders d4), order_lines d4, occupancies d4)"
    using update_order_effect [OF 5] w(2) by (auto simp: b_def)
  from audit_bookings [OF 6] d2 d3 d4 d5
  have d': "bookings d' = (map (change_order ?t i (closed_if_empty b now'')) (orders d),
      map (change_line ?P (cancel_line now)) (order_lines d), release_rows now' (takes_line ?t (set ids)) (occupancies d))"
    and l4: "order_lines d4 = map (change_line ?P (cancel_line now)) (order_lines d)"
    by (simp_all add: bookings_def)
  show "bookings_ok d'"
    unfolding booked_bookings [OF d']
  proof (rule books_cancel_lines [OF I [unfolded bookings_ok_def]])
    show "cancels_lines ?t i ids (order_lines d)"
      using open_ids w(5) by (auto simp: cancels_lines_def lines_of_def)
    fix r l
    assume l: "l \<in> set (order_lines d)" "ol_tenant l = ?t" "ol_order l = i" "ol_cancelled (change_line ?P (cancel_line now) l) = None"
    then have "open_line_of ?t i (change_line ?P (cancel_line now) l)"
      by (auto simp: open_line_of_def change_line_def cancel_line_def)
    then have b unfolding b_def has_open_lines_def l4 using l(1) by (auto simp: list_ex_iff)
    then show "or_status (closed_if_empty b now'' r) \<in> {Held, Confirmed} \<longleftrightarrow> or_status r \<in> {Held, Confirmed}"
      by (simp add: closed_if_empty_def)
  qed (auto simp: change_line_def cancel_line_def closed_if_empty_def)
qed


section \<open>The operations\<close>

lemma bookings_ok_move:
  assumes I: "bookings_ok d" and r: "unmanaged a i revision r d" and move: "\<And>c. oc_id (h c) = oc_id c \<and> oc_line (h c) = oc_line c \<and> oc_amendment (h c) = oc_amendment c"
    and h: "\<And>c. \<not> is_current a i revision c \<Longrightarrow> h c = c" "\<And>c. oc_released c \<noteq> None \<Longrightarrow> oc_released (h c) \<noteq> None"
  shows "bookings_ok (d\<lparr>occupancies := map h (occupancies d)\<rparr>)"
proof -
  have row: "r \<in> set (occupancies d)" "is_current a i revision r" "oc_line r = None"
    using r by (auto simp: unmanaged_def current_row_def find_Some_iff)
  have only: "c = r" if "c \<in> set (occupancies d)" "is_current a i revision c" for c
    using same_id [OF booksD(3) [OF I [unfolded bookings_ok_def]] that(1) row(1)] that(2) row(2) by (simp add: is_current_def)
  have managed: "h c = c" if c: "c \<in> set (occupancies d)" "oc_line c \<noteq> None" for c
  proof (rule h(1), rule notI)
    assume "is_current a i revision c"
    then have "c = r" by (rule only [OF c(1)])
    then show False using c(2) row(3) by simp
  qed
  have "books (orders d) (order_lines d) (map h (occupancies d))"
    by (rule books_plain_map [OF I [unfolded bookings_ok_def]]; rule move managed h(2); assumption)
  then show ?thesis by (simp add: bookings_ok_def)
qed

interpretation bookings_staff: staff_inventory bookings_ok "\<lambda>_. True"
proof
  show "keeps bookings_ok (record_tenant_audit a s r ds)" for a s r ds by (rule keeps_booked_plain)
  show "keeps bookings_ok (insert_occupancy r)" if "oc_line r = None" for r
  proof (rule keepsI)
    fix E d x d' assume I: "bookings_ok d" and run: "insert_occupancy r E d = Inr (x, d')"
    have "oc_id r \<notin> oc_id ` set (occupancies d)" "d' = d\<lparr>occupancies := occupancies d @ [r]\<rparr>"
      using run by (auto simp: insert_occupancy_Inr)
    then show "bookings_ok d'" using books_add_plain [OF I [unfolded bookings_ok_def] that] by (simp add: bookings_ok_def)
  qed
  show "bookings_ok (d\<lparr>occupancies := release_rows t (is_current a i revision) (occupancies d)\<rparr>)"
    if "bookings_ok d" "unmanaged a i revision r d" for a d i revision r t
    unfolding release_rows_def by (rule bookings_ok_move [OF that]) auto
  show "ensures (\<lambda>d. bookings_ok d \<and> unmanaged a i revision r d) (move_occupancy a i revision court s e) (\<lambda>_. bookings_ok)"
    for a i revision r court s e
  proof (rule ensuresI)
    fix E d x d' assume P: "bookings_ok d \<and> unmanaged a i revision r d"
      and run: "move_occupancy a i revision court s e E d = Inr (x, d')"
    have d': "d' = d\<lparr>occupancies := map (move_row (is_current a i revision) court s e) (occupancies d)\<rparr>"
      using run unfolding move_occupancy_def move_rows_def tseq_Inr tcheck_Inr tmodify_Inr by clarsimp
    show "bookings_ok d'"
      unfolding d' by (rule bookings_ok_move [OF conjunct1 [OF P] conjunct2 [OF P]]) (simp_all add: move_row_def)
  qed
qed (simp_all add: bookings_ok_def)

interpretation bookings_commands: receiptless_invariant bookings_ok "\<lambda>_. True"
  by unfold_locales (auto simp: keeps_def insert_receipt_def complete_receipt_def insert_link_def ok_iff bookings_ok_def)

interpretation bookings_customers: customer_writes bookings_ok "\<lambda>_. True"
  by unfold_locales (auto simp: keeps_def insert_customer_def set_phone_def ok_iff bookings_ok_def)

interpretation bookings_booking: booking_invariant bookings_ok "\<lambda>_. True"
proof
  show "keeps bookings_ok (insert_quote q)" for q by (auto simp: keeps_def insert_quote_def ok_iff bookings_ok_def)
qed (rule release_amendment_booked expire_order_booked confirm_booked cancel_unpaid_booked cancel_free_booked)+

interpretation no_double_commands: receiptless_invariant no_double_booking "\<lambda>_. True"
  by unfold_locales (auto simp: keeps_def insert_receipt_def complete_receipt_def insert_link_def ok_iff no_double_booking_def)

interpretation no_double_customers: customer_writes no_double_booking "\<lambda>_. True"
  by unfold_locales (auto simp: keeps_def insert_customer_def set_phone_def ok_iff no_double_booking_def)

interpretation no_double_wallet: wallet_writes no_double_booking "\<lambda>_. True"
  by unfold_locales (auto simp: keeps_def insert_batch_def adjust_batch_def insert_allocation_def set_allocation_status_def
      insert_entry_def lock_wallet_def ok_iff no_double_booking_def)

interpretation no_double_orders: booking_writes no_double_booking "\<lambda>_. True"
  by unfold_locales (auto simp: keeps_def insert_quote_def insert_order_def update_order_def insert_line_def update_lines_def
      insert_payment_def update_payment_def update_amendment_def ok_iff no_double_booking_def)

interpretation ledger_orders: booking_writes wallet_ledger "\<lambda>_. True"
  by unfold_locales (auto simp: keeps_def insert_quote_def insert_order_def update_order_def insert_line_def update_lines_def
      insert_payment_def update_payment_def update_amendment_def insert_occupancy_def move_occupancy_def ok_iff wallet_ledger_def)

end
