(* ===== verification/Merchants.thy ===== *)
theory Merchants
  imports Access
begin

text \<open>
  packages/db/src/tennis/merchant-bindings.ts: the versions of a tenant's merchant binding with a
  payment provider. Platform operators write them; a payment takes the active one and a refund
  keeps the one of its payment. The time a binding was created is not modelled.
\<close>

definition valid_text :: "string \<Rightarrow> nat \<Rightarrow> bool" where
  "valid_text s n \<longleftrightarrow> 0 < length s \<and> length s \<le> n \<and>
     \<not> list_ex (\<lambda>c. js_space c \<or> of_char c < (32 :: nat) \<or> of_char c = (127 :: nat)) s"

definition provider_text :: "provider \<Rightarrow> string" where
  "provider_text p = (case p of MockProvider \<Rightarrow> ''MOCK'' | WechatProvider \<Rightarrow> ''WECHAT'' | WalletProvider \<Rightarrow> ''WALLET'')"

definition opt_text :: "string option \<Rightarrow> nat \<Rightarrow> bool" where
  "opt_text x n \<longleftrightarrow> (case x of None \<Rightarrow> True | Some s \<Rightarrow> valid_text s n)"

section \<open>The table\<close>

definition merchant_checks :: "merchant_row \<Rightarrow> bool" where
  "merchant_checks r \<longleftrightarrow> 0 < mb_version r \<and> mb_provider r \<noteq> WalletProvider \<and> valid_text (mb_merchant r) 200 \<and>
     opt_text (mb_app r) 200 \<and> opt_text (mb_credential r) 500 \<and>
     (mb_provider r = WechatProvider \<longrightarrow> mb_app r \<noteq> None \<and> mb_credential r \<noteq> None)"

definition same_slot :: "merchant_row \<Rightarrow> merchant_row \<Rightarrow> bool" where
  "same_slot r q \<longleftrightarrow> mb_tenant q = mb_tenant r \<and> mb_provider q = mb_provider r"

text \<open>One active version per provider, and no version twice.\<close>

definition insert_merchant :: "merchant_row \<Rightarrow> unit tx" where
  "insert_merchant r =
     tseq (tguard (merchant_checks r) (SqlErr CheckViolation))
     (tseq (tcheck (\<lambda>d. \<not> list_ex (\<lambda>q. mb_id q = mb_id r \<or> (same_slot r q \<and> (mb_version q = mb_version r \<or>
          (mb_active q \<and> mb_active r)))) (merchants d)) (SqlErr UniqueViolation))
     (tmodify (\<lambda>d. d\<lparr>merchants := merchants d @ [r]\<rparr>)))"

definition retire :: "(merchant_row \<Rightarrow> bool) \<Rightarrow> merchant_row \<Rightarrow> merchant_row" where
  "retire P r = (if P r then r\<lparr>mb_active := False\<rparr> else r)"

definition retire_merchants :: "(merchant_row \<Rightarrow> bool) \<Rightarrow> unit tx" where
  "retire_merchants P = tmodify (\<lambda>d. d\<lparr>merchants := map (retire P) (merchants d)\<rparr>)"

definition insert_auth_audit :: "auth_audit_row \<Rightarrow> unit tx" where
  "insert_auth_audit r = tmodify (\<lambda>d. d\<lparr>auth_audits := auth_audits d @ [r]\<rparr>)"

text \<open>ORDER BY version DESC LIMIT 1.\<close>

definition highest_version :: "(merchant_row \<Rightarrow> bool) \<Rightarrow> db \<Rightarrow> merchant_row option" where
  "highest_version P d =
     (case sort_key (\<lambda>r. - mb_version r) (filter P (merchants d)) of [] \<Rightarrow> None | r # _ \<Rightarrow> Some r)"

section \<open>Operators\<close>

definition platform :: "string \<Rightarrow> unit tx" where
  "platform subject =
     tbind (tread (\<lambda>d. list_ex (\<lambda>r. op_subject r = subject \<and> op_active r) (operators d))) (\<lambda>ok.
     tguard ok (AccessErr TenantAccessDenied))"

definition merchant_tenant :: "string \<Rightarrow> bool \<Rightarrow> unit tx" where
  "merchant_tenant t require_active =
     tseq (tguard (valid_text t 200) (MerchantErr InvalidMerchantBinding))
     (tbind (tread (\<lambda>d. find (\<lambda>r. tn_id r = t) (tenants d))) (\<lambda>row.
      tbind (tsome row (AccessErr ResourceNotFound)) (\<lambda>r.
      tguard (\<not> (require_active \<and> \<not> tn_active r)) (AccessErr ResourceUnavailable))))"

definition platform_transaction :: "string \<Rightarrow> 'a tx \<Rightarrow> 'a op" where
  "platform_transaction subject work = run_tx (tseq (platform subject) work)"

definition merchant_audit :: "string \<Rightarrow> merchant_row \<Rightarrow> string \<Rightarrow> unit tx" where
  "merchant_audit subject r action =
     tbind tuuid (\<lambda>i. insert_auth_audit \<lparr>aa_id = i, aa_subject = subject, aa_tenant = mb_tenant r, aa_action = action,
       aa_resource = mb_id r, aa_details = [(''provider'', JStr (provider_text (mb_provider r))),
         (''version'', JNum (mb_version r)), (''active'', JBool (mb_active r))]\<rparr>)"

definition binding_order :: "env \<Rightarrow> merchant_row \<Rightarrow> merchant_row \<Rightarrow> bool" where
  "binding_order E p q \<longleftrightarrow>
     (if mb_provider p = mb_provider q then mb_version p \<ge> mb_version q
      else e_collate_le E (provider_text (mb_provider p)) (provider_text (mb_provider q)))"

definition list_merchant_bindings :: "string \<Rightarrow> string \<Rightarrow> merchant_row list op" where
  "list_merchant_bindings subject t =
     platform_transaction subject
       (tseq (merchant_tenant t False)
       (tbind (tenv binding_order) (\<lambda>le. tread (\<lambda>d. sort_by le (filter (\<lambda>r. mb_tenant r = t) (merchants d))))))"

record binding_input =
  bi_tenant :: string
  bi_provider :: provider
  bi_merchant :: string
  bi_app :: "string option"
  bi_credential :: "string option"
  bi_expected :: int

definition check_binding_input :: "binding_input \<Rightarrow> err + unit" where
  "check_binding_input x =
     bindE (guardE (bi_provider x \<noteq> WalletProvider) (MerchantErr InvalidMerchantBinding)) (\<lambda>_.
     guardE (\<not> (\<not> valid_text (bi_merchant x) 200 \<or> \<not> is_safe (bi_expected x) \<or> bi_expected x < 0 \<or>
        bi_expected x \<ge> 2147483647 \<or> \<not> opt_text (bi_app x) 200 \<or> \<not> opt_text (bi_credential x) 500 \<or>
        (bi_provider x = WechatProvider \<and> (bi_app x = None \<or> bi_credential x = None))))
       (MerchantErr InvalidMerchantBinding))"

definition new_binding :: "string \<Rightarrow> binding_input \<Rightarrow> string \<Rightarrow> int \<Rightarrow> merchant_row" where
  "new_binding subject x i version =
     \<lparr>mb_id = i, mb_tenant = bi_tenant x, mb_version = version, mb_provider = bi_provider x, mb_merchant = bi_merchant x,
      mb_app = bi_app x, mb_credential = bi_credential x, mb_active = True, mb_created_by = Some subject\<rparr>"

definition save_merchant_binding :: "string \<Rightarrow> binding_input \<Rightarrow> merchant_row op" where
  "save_merchant_binding subject x =
     checked (check_binding_input x) (\<lambda>_. platform_transaction subject
       (tseq (merchant_tenant (bi_tenant x) False)
       (tbind (tread (highest_version (\<lambda>r. mb_tenant r = bi_tenant x \<and> mb_provider r = bi_provider x))) (\<lambda>row.
        let latest = (case row of None \<Rightarrow> 0 | Some r \<Rightarrow> mb_version r) in
        tseq (tguard (latest = bi_expected x) (MerchantErr StaleMerchantBinding))
        (tseq (retire_merchants (\<lambda>r. mb_tenant r = bi_tenant x \<and> mb_provider r = bi_provider x \<and> mb_active r))
        (tbind tuuid (\<lambda>i. let r = new_binding subject x i (latest + 1) in
         tseq (insert_merchant r)
         (tseq (merchant_audit subject r ''platform.merchant.create_version'')
         (tret r))))))))) "

definition find_merchant :: "string \<Rightarrow> string \<Rightarrow> db \<Rightarrow> merchant_row option" where
  "find_merchant t i d = find (\<lambda>r. mb_tenant r = t \<and> mb_id r = i) (merchants d)"

definition get_merchant_binding :: "string \<Rightarrow> string \<Rightarrow> merchant_row tx" where
  "get_merchant_binding t i = tbind (tread (find_merchant t i)) (\<lambda>row. tsome row (AccessErr ResourceNotFound))"

definition disable_merchant_binding :: "string \<Rightarrow> string \<Rightarrow> string \<Rightarrow> int \<Rightarrow> merchant_row op" where
  "disable_merchant_binding subject t i expected =
     checked (guardE (\<not> (\<not> valid_text i 200 \<or> \<not> is_safe expected \<or> expected < 1)) (MerchantErr InvalidMerchantBinding)) (\<lambda>_.
     platform_transaction subject
       (tseq (merchant_tenant t False)
       (tbind (get_merchant_binding t i) (\<lambda>existing.
        tseq (tguard (mb_version existing = expected) (MerchantErr StaleMerchantBinding))
        (if \<not> mb_active existing then tret existing
         else
           tseq (retire_merchants (\<lambda>r. mb_tenant r = t \<and> mb_id r = i))
           (let r = existing\<lparr>mb_active := False\<rparr> in
            tseq (merchant_audit subject r ''platform.merchant.disable'') (tret r)))))))"

section \<open>The binding of a payment\<close>

text \<open>ORDER BY active DESC, version DESC LIMIT 1.\<close>

definition preferred_binding :: "string \<Rightarrow> provider \<Rightarrow> db \<Rightarrow> merchant_row option" where
  "preferred_binding t p d =
     (case highest_version (\<lambda>r. mb_tenant r = t \<and> mb_provider r = p \<and> mb_active r) d of
        Some r \<Rightarrow> Some r
      | None \<Rightarrow> highest_version (\<lambda>r. mb_tenant r = t \<and> mb_provider r = p) d)"

definition local_binding :: "string \<Rightarrow> string \<Rightarrow> merchant_row" where
  "local_binding t i =
     \<lparr>mb_id = i, mb_tenant = t, mb_version = 1, mb_provider = MockProvider, mb_merchant = ''mock:'' @ t,
      mb_app = None, mb_credential = None, mb_active = True, mb_created_by = None\<rparr>"

definition get_active_merchant_binding :: "string \<Rightarrow> provider \<Rightarrow> bool \<Rightarrow> merchant_row tx" where
  "get_active_merchant_binding t p allow_local =
     tseq (tguard (p \<noteq> WalletProvider) (MerchantErr InvalidMerchantBinding))
     (tseq (merchant_tenant t True)
     (tbind (tread (preferred_binding t p)) (\<lambda>latest.
      tbind (tenv e_production) (\<lambda>production.
      case latest of
        Some r \<Rightarrow> if mb_active r then tret r else tfail (MerchantErr MerchantNotConfigured)
      | None \<Rightarrow>
          tseq (tguard (\<not> (p \<noteq> MockProvider \<or> \<not> allow_local \<or> production)) (MerchantErr MerchantNotConfigured))
          (tbind tuuid (\<lambda>i. tseq (insert_merchant (local_binding t i)) (tret (local_binding t i))))))))"

lemma reads_merchants [reads_intros]:
  "reads_only (platform s)" "reads_only (merchant_tenant t b)" "reads_only (get_merchant_binding t i)"
  unfolding platform_def merchant_tenant_def get_merchant_binding_def by (intro reads_intros)+

section \<open>Invariants\<close>

locale merchant_writes = db_invariant +
  assumes inv_insert_merchant: "T (mb_tenant r) \<Longrightarrow> keeps I (insert_merchant r)"
    and inv_retire: "(\<And>r. P r \<Longrightarrow> T (mb_tenant r)) \<Longrightarrow> keeps I (retire_merchants P)"
    and inv_auth_audit: "T (aa_tenant v) \<Longrightarrow> keeps I (insert_auth_audit v)"
begin

lemma op_keeps_platform: "keeps I work \<Longrightarrow> op_keeps I (platform_transaction subject work)"
  unfolding platform_transaction_def by (intro op_keeps_tx keeps_intros keeps_reading [OF reads_merchants(1)])

lemma keeps_merchant_audit: "T (mb_tenant r) \<Longrightarrow> keeps I (merchant_audit s r action)"
  unfolding merchant_audit_def by (intro keeps_intros keeps_counters inv_auth_audit) simp

lemma list_merchants_inv: "op_keeps I (list_merchant_bindings s t)"
  unfolding list_merchant_bindings_def by (intro op_keeps_platform keeps_intros keeps_reading [OF reads_merchants(2)])

lemma save_merchant_inv: "T (bi_tenant x) \<Longrightarrow> op_keeps I (save_merchant_binding s x)"
  unfolding save_merchant_binding_def Let_def
  by (intro keeps_intros op_keeps_platform keeps_counters keeps_reading [OF reads_merchants(2)] inv_retire
      inv_insert_merchant keeps_merchant_audit) (simp_all add: new_binding_def)

lemma disable_merchant_inv: "T t \<Longrightarrow> op_keeps I (disable_merchant_binding s t i expected)"
proof -
  assume T: "T t"
  let ?work = "\<lambda>q. tseq (tguard (mb_version q = expected) (MerchantErr StaleMerchantBinding))
      (if \<not> mb_active q then tret q
       else tseq (retire_merchants (\<lambda>r. mb_tenant r = t \<and> mb_id r = i))
         (let r = q\<lparr>mb_active := False\<rparr> in tseq (merchant_audit s r ''platform.merchant.disable'') (tret r)))"
  have rest: "keeps I (?work q)" if "mb_tenant q = t" for q
    unfolding Let_def by (intro keeps_intros inv_retire keeps_merchant_audit) (simp_all add: T that)
  have disabling: "keeps I (tbind (get_merchant_binding t i) ?work)"
  proof (rule keepsI)
    fix E d x d' assume I: "I d" and "tbind (get_merchant_binding t i) ?work E d = Inr (x, d')"
    then obtain q where "find_merchant t i d = Some q" and run: "?work q E d = Inr (x, d')"
      unfolding get_merchant_binding_def tbind_Inr tread_Inr tsome_Inr prod.inject by blast
    then have "mb_tenant q = t" by (auto simp: find_merchant_def find_Some_iff)
    from keepsD [OF rest [OF this] I run] show "I d'" .
  qed
  show ?thesis
    unfolding disable_merchant_binding_def
    by (intro keeps_intros disabling op_keeps_platform keeps_reading [OF reads_merchants(2)])
qed

lemma keeps_active_merchant: "T t \<Longrightarrow> keeps I (get_active_merchant_binding t p b)"
  unfolding get_active_merchant_binding_def
  by (intro keeps_intros keeps_counters keeps_reading [OF reads_merchants(2)] inv_insert_merchant)
    (simp_all add: local_binding_def)

end

text \<open>
  The bindings of a tenant with a provider: no version twice, at most one active, and the active
  one is what a payment takes.
\<close>

definition merchants_ok :: "db \<Rightarrow> bool" where
  "merchants_ok d \<longleftrightarrow> distinct (map mb_id (merchants d)) \<and>
     sorted_wrt (\<lambda>q r. same_slot r q \<longrightarrow> mb_version q \<noteq> mb_version r \<and> \<not> (mb_active q \<and> mb_active r)) (merchants d)"

lemma retire_same [simp]: "same_slot (retire P r) (retire P q) = same_slot r q" "mb_version (retire P r) = mb_version r"
    "mb_id (retire P r) = mb_id r"
  by (simp_all add: same_slot_def retire_def)

lemma retire_active: "mb_active (retire P r) \<Longrightarrow> mb_active r"
  by (auto simp: retire_def split: if_splits)

lemma insert_merchant_Inr:
  "insert_merchant r E d = Inr res \<longleftrightarrow> merchant_checks r \<and>
     (\<forall>q\<in>set (merchants d). mb_id q \<noteq> mb_id r \<and> (same_slot r q \<longrightarrow> mb_version q \<noteq> mb_version r \<and> \<not> (mb_active q \<and> mb_active r))) \<and>
     res = ((), d\<lparr>merchants := merchants d @ [r]\<rparr>)"
  by (auto simp: insert_merchant_def ok_iff list_ex_iff)

interpretation merchants: merchant_writes merchants_ok "\<lambda>_. True"
proof
  show "keeps merchants_ok (insert_merchant r)" for r
    by (rule keepsI) (auto simp: insert_merchant_Inr merchants_ok_def sorted_wrt_append)
  show "keeps merchants_ok (retire_merchants P)" for P
    unfolding retire_merchants_def
  proof (rule keeps_tmodify)
    fix d assume I: "merchants_ok d"
    have "sorted_wrt (\<lambda>q r. same_slot r q \<longrightarrow> mb_version q \<noteq> mb_version r \<and> \<not> (mb_active q \<and> mb_active r)) (map (retire P) (merchants d))"
      unfolding sorted_wrt_map
      by (rule sorted_wrt_mono_rel [rotated, OF conjunct2 [OF I [unfolded merchants_ok_def]]]) (auto dest: retire_active)
    moreover have "map mb_id (map (retire P) (merchants d)) = map mb_id (merchants d)" by simp
    ultimately show "merchants_ok (d\<lparr>merchants := map (retire P) (merchants d)\<rparr>)"
      using I by (simp add: merchants_ok_def comp_def)
  qed
  show "keeps merchants_ok (record_tenant_audit a s r ds)" for a s r ds
    by (auto simp: keeps_def record_tenant_audit_def ok_iff merchants_ok_def)
qed (auto simp: merchants_ok_def keeps_def insert_auth_audit_def ok_iff)

end
