(* ===== verification/Channels.thy ===== *)
theory Channels
  imports Merchants Receipts
begin

text \<open>
  The payment channel's side of a payment: the events of payment-port.ts and how a provider
  certifies them, the durable requests that channel-intents.ts puts in the queue for a payment or
  a refund, and the claims of channel-transactions.ts and channel-refunds.ts, which let a channel
  transaction fund one source and a provider's refund pay out one refund. The brand of an
  authenticated event is the fact that it was certified; the providers themselves, and what a
  provider knows of itself, are arguments.
\<close>

section \<open>Events\<close>

definition port_error :: err where
  "port_error = WalletErr InvalidPaymentEvent"

definition require_refund_original :: "refund_request \<Rightarrow> err + cents" where
  "require_refund_original r =
     (case rq_original r of
        None \<Rightarrow> Inl port_error
      | Some whole \<Rightarrow>
          if \<not> is_safe (rq_amount r) \<or> rq_amount r \<le> 0 \<or> \<not> is_safe whole \<or> whole \<le> 0 \<or> whole < rq_amount r
          then Inl port_error else Inr whole)"

definition valid_id :: "string \<Rightarrow> bool" where
  "valid_id s \<longleftrightarrow> 0 < length (js_trim s) \<and> length s \<le> 200"

definition opt_id :: "string option \<Rightarrow> bool" where
  "opt_id x \<longleftrightarrow> (case x of None \<Rightarrow> True | Some s \<Rightarrow> valid_id s)"

definition given :: "string option \<Rightarrow> bool" where
  "given x \<longleftrightarrow> (case x of None \<Rightarrow> False | Some s \<Rightarrow> valid_id s)"

definition validate_common ::
  "provider \<Rightarrow> string \<Rightarrow> string \<Rightarrow> string option \<Rightarrow> bool \<Rightarrow> cents \<Rightarrow> int \<Rightarrow> err + unit" where
  "validate_common p merchant event transaction succeeded amount issued =
     guardE (\<not> (p = WalletProvider \<or> \<not> valid_id merchant \<or> \<not> valid_id event \<or> \<not> is_safe amount \<or> amount \<le> 0 \<or>
        \<not> is_safe issued \<or> issued \<le> 0 \<or> \<not> opt_id transaction \<or> (succeeded \<and> \<not> given transaction))) port_error"

definition status_json :: "bool \<Rightarrow> json" where
  "status_json succeeded = JStr (if succeeded then ''SUCCEEDED'' else ''FAILED'')"

definition given_json :: "string \<Rightarrow> string option \<Rightarrow> (string \<times> json) list" where
  "given_json k x = (case x of None \<Rightarrow> [] | Some s \<Rightarrow> [(k, JStr s)])"

definition payment_facts :: "payment_event \<Rightarrow> json" where
  "payment_facts v = JObj ([(''provider'', JStr (provider_text (ev_provider v))), (''merchantId'', JStr (ev_merchant v)),
     (''paymentId'', JStr (ev_payment v)), (''eventId'', JStr (ev_event v)), (''status'', status_json (ev_succeeded v)),
     (''amountCents'', JNum (ev_amount v)), (''currency'', JStr ''CNY'')] @ given_json ''transactionId'' (ev_transaction v))"

definition refund_facts :: "refund_event \<Rightarrow> json" where
  "refund_facts v = JObj ([(''eventType'', JStr ''REFUND''), (''provider'', JStr (provider_text (rv_provider v))),
     (''merchantId'', JStr (rv_merchant v)), (''refundId'', JStr (rv_refund v)), (''eventId'', JStr (rv_event v)),
     (''status'', status_json (rv_succeeded v)), (''amountCents'', JNum (rv_amount v)), (''currency'', JStr ''CNY'')] @
     given_json ''transactionId'' (rv_transaction v) @ given_json ''providerRefundId'' (rv_provider_refund v))"

definition payment_event_hash :: "env \<Rightarrow> payment_event \<Rightarrow> string" where
  "payment_event_hash E v = e_digest E (payment_facts v)"

definition refund_event_hash :: "env \<Rightarrow> refund_event \<Rightarrow> string" where
  "refund_event_hash E v = e_digest E (refund_facts v)"

definition certify_payment_event :: "provider \<Rightarrow> payment_event \<Rightarrow> err + payment_event" where
  "certify_payment_event p v =
     bindE (validate_common (ev_provider v) (ev_merchant v) (ev_event v) (ev_transaction v) (ev_succeeded v) (ev_amount v) (ev_issued v)) (\<lambda>_.
     bindE (guardE (\<not> (ev_provider v \<noteq> p \<or> \<not> valid_id (ev_payment v))) port_error) (\<lambda>_. Inr v))"

definition certify_refund_event :: "provider \<Rightarrow> refund_event \<Rightarrow> err + refund_event" where
  "certify_refund_event p v =
     bindE (validate_common (rv_provider v) (rv_merchant v) (rv_event v) (rv_transaction v) (rv_succeeded v) (rv_amount v) (rv_issued v)) (\<lambda>_.
     bindE (guardE (\<not> (rv_provider v \<noteq> p \<or> \<not> valid_id (rv_refund v) \<or> \<not> opt_id (rv_provider_refund v) \<or>
        (rv_succeeded v \<and> \<not> given (rv_provider_refund v)))) port_error) (\<lambda>_. Inr v))"

section \<open>Requests\<close>

record gateway =
  gw_provider :: provider
  gw_simulation :: bool

definition binding_json :: "merchant_binding \<Rightarrow> json" where
  "binding_json b = JObj [(''id'', JStr (mb_id b)), (''tenantId'', JStr (mb_tenant b)), (''version'', JNum (mb_version b)),
     (''provider'', JStr (provider_text (mb_provider b))), (''merchantId'', JStr (mb_merchant b)),
     (''appId'', j_opt JStr (mb_app b)), (''credentialRef'', j_opt JStr (mb_credential b))]"

definition source_text :: "channel_source \<Rightarrow> string" where
  "source_text s = (case s of OrderSource \<Rightarrow> ''ORDER'' | TopupSource \<Rightarrow> ''TOPUP'')"

definition payment_request_json :: "payment_request \<Rightarrow> json" where
  "payment_request_json r = JObj [(''binding'', binding_json (pq_binding r)), (''operationId'', JStr (pq_operation r)),
     (''merchantOrderNo'', JStr (pq_order_no r)), (''sourceKind'', JStr (source_text (pq_kind r))),
     (''sourceId'', JStr (pq_source r)), (''amountCents'', JNum (pq_amount r)), (''currency'', JStr ''CNY''),
     (''expiresAt'', JStr (to_iso_string (pq_expires r)))]"

definition refund_request_json :: "refund_request \<Rightarrow> json" where
  "refund_request_json r = JObj ([(''binding'', binding_json (rq_binding r)), (''operationId'', JStr (rq_operation r)),
     (''merchantOrderNo'', JStr (rq_order_no r)), (''sourceId'', JStr (rq_source r)),
     (''transactionId'', JStr (rq_transaction r)), (''merchantRefundNo'', JStr (rq_refund_no r)),
     (''refundId'', JStr (rq_refund r)), (''amountCents'', JNum (rq_amount r))] @
     (case rq_original r of None \<Rightarrow> [] | Some n \<Rightarrow> [(''originalPaymentCents'', JNum n)]) @ [(''currency'', JStr ''CNY'')])"

definition request_json :: "channel_request \<Rightarrow> json" where
  "request_json r = (case r of PaymentRequest p \<Rightarrow> payment_request_json p | RefundRequest q \<Rightarrow> refund_request_json q)"

definition merchant_snapshot :: "merchant_row \<Rightarrow> merchant_binding" where
  "merchant_snapshot r = merchant_binding.truncate r"

definition resolve_payment_merchant :: "string \<Rightarrow> gateway \<Rightarrow> merchant_binding tx" where
  "resolve_payment_merchant t g =
     tbind (get_active_merchant_binding t (gw_provider g) (gw_simulation g \<and> gw_provider g = MockProvider)) (\<lambda>r.
     tret (merchant_snapshot r))"

definition no_dashes :: "string \<Rightarrow> string" where
  "no_dashes s = filter (\<lambda>c. c \<noteq> CHR ''-'') s"

section \<open>The queue\<close>

definition operation_key :: "string \<Rightarrow> operation_kind \<Rightarrow> string \<Rightarrow> channel_operation_row \<Rightarrow> bool" where
  "operation_key t k s r \<longleftrightarrow> co_tenant r = t \<and> co_kind r = k \<and> co_source r = s"

definition insert_operation :: "channel_operation_row \<Rightarrow> unit tx" where
  "insert_operation r =
     tseq (tguard (0 < co_generation r \<and> co_provider r \<noteq> WalletProvider) (SqlErr CheckViolation))
     (tseq (tcheck (\<lambda>d. \<not> list_ex (\<lambda>q. co_id q = co_id r \<or>
          (operation_key (co_tenant r) (co_kind r) (co_source r) q \<and> co_generation q = co_generation r)) (channel_operations d))
        (SqlErr UniqueViolation))
     (tseq (tcheck (\<lambda>d. find_merchant (co_tenant r) (co_binding r) d \<noteq> None) (SqlErr ForeignKeyViolation))
     (tmodify (\<lambda>d. d\<lparr>channel_operations := channel_operations d @ [r]\<rparr>))))"

text \<open>ON CONFLICT (tenant_id, source_kind, source_id, generation) DO NOTHING.\<close>

definition insert_operation_once :: "channel_operation_row \<Rightarrow> unit tx" where
  "insert_operation_once r =
     tbind (tread (\<lambda>d. list_ex (\<lambda>q. operation_key (co_tenant r) (co_kind r) (co_source r) q \<and> co_generation q = co_generation r)
         (channel_operations d))) (\<lambda>there.
     if there then tret () else insert_operation r)"

definition fail_operation :: "string \<Rightarrow> channel_operation_row \<Rightarrow> channel_operation_row" where
  "fail_operation i r = (if co_id r = i then r\<lparr>co_state := OpFailed\<rparr> else r)"

definition set_operation_failed :: "string \<Rightarrow> unit tx" where
  "set_operation_failed i = tmodify (\<lambda>d. d\<lparr>channel_operations := map (fail_operation i) (channel_operations d)\<rparr>)"

definition request_binding :: "channel_request \<Rightarrow> merchant_binding" where
  "request_binding r = (case r of PaymentRequest p \<Rightarrow> pq_binding p | RefundRequest q \<Rightarrow> rq_binding q)"

definition new_operation ::
  "env \<Rightarrow> instant \<Rightarrow> string \<Rightarrow> string \<Rightarrow> operation_kind \<Rightarrow> string \<Rightarrow> int \<Rightarrow> channel_request \<Rightarrow> channel_operation_row" where
  "new_operation E now i t k s generation request =
     \<lparr>co_id = i, co_tenant = t, co_kind = k, co_source = s, co_generation = generation,
      co_binding = mb_id (request_binding request), co_provider = mb_provider (request_binding request),
      co_request = request, co_hash = request_hash E (request_json request), co_state = OpReady, co_lease_token = None,
      co_lease_until = None, co_attempts = 0, co_checkout = None, co_last_checked = None, co_next_check = now,
      co_error = None\<rparr>"

definition source_op :: "channel_source \<Rightarrow> operation_kind" where
  "source_op s = (case s of OrderSource \<Rightarrow> OrderOp | TopupSource \<Rightarrow> TopupOp)"

definition enqueue_payment_channel ::
  "string \<Rightarrow> channel_source \<Rightarrow> string \<Rightarrow> merchant_binding \<Rightarrow> cents \<Rightarrow> instant \<Rightarrow> unit tx" where
  "enqueue_payment_channel t k s b amount expires =
     tbind tuuid (\<lambda>i.
     let request = \<lparr>pq_binding = b, pq_operation = i, pq_order_no = no_dashes s, pq_kind = k, pq_source = s,
        pq_amount = amount, pq_expires = expires\<rparr>
     in tbind tclock (\<lambda>now. tbind (tenv (\<lambda>E. new_operation E now i t (source_op k) s 1 (PaymentRequest request))) insert_operation))"

definition original_binding :: "string \<Rightarrow> provider \<Rightarrow> string \<Rightarrow> merchant_binding tx" where
  "original_binding t p merchant =
     tbind (tread (highest_version (\<lambda>r. mb_tenant r = t \<and> mb_provider r = p \<and> mb_merchant r = merchant))) (\<lambda>existing.
     case existing of
       Some r \<Rightarrow> tret (merchant_snapshot r)
     | None \<Rightarrow>
         tbind (tenv e_production) (\<lambda>production.
         tseq (tguard (\<not> (p \<noteq> MockProvider \<or> production)) (ChannelErr ChannelNotReady))
         (tbind tuuid (\<lambda>i.
          tbind (tread (highest_version (\<lambda>r. mb_tenant r = t \<and> mb_provider r = MockProvider))) (\<lambda>top.
          let r = \<lparr>mb_id = i, mb_tenant = t, mb_version = (case top of None \<Rightarrow> 0 | Some q \<Rightarrow> mb_version q) + 1,
              mb_provider = MockProvider, mb_merchant = merchant, mb_app = None, mb_credential = None,
              mb_active = False, mb_created_by = None\<rparr>
          in tseq (insert_merchant r) (tret (merchant_snapshot r)))))))"

section \<open>Refunds\<close>

record refund_funding =
  fu_refund :: string
  fu_kind :: channel_source
  fu_source :: string
  fu_provider :: provider
  fu_merchant :: string
  fu_transaction :: string
  fu_amount :: cents
  fu_original :: cents

definition operations_of :: "string \<Rightarrow> operation_kind \<Rightarrow> string \<Rightarrow> db \<Rightarrow> channel_operation_row list" where
  "operations_of t k s d = filter (operation_key t k s) (channel_operations d)"

definition latest_operation :: "string \<Rightarrow> operation_kind \<Rightarrow> string \<Rightarrow> db \<Rightarrow> channel_operation_row option" where
  "latest_operation t k s d =
     (case sort_key (\<lambda>r. - co_generation r) (operations_of t k s d) of [] \<Rightarrow> None | r # _ \<Rightarrow> Some r)"

definition capture_row ::
  "provider \<Rightarrow> string \<Rightarrow> string \<Rightarrow> string \<Rightarrow> channel_source \<Rightarrow> string \<Rightarrow> db \<Rightarrow> channel_transaction_row option" where
  "capture_row p merchant transaction t k s d =
     find (\<lambda>c. cx_provider c = p \<and> cx_merchant c = merchant \<and> cx_transaction c = transaction \<and> cx_tenant c = t \<and>
       cx_source_type c = k \<and> cx_source c = s) (channel_transactions d)"

definition find_refund :: "string \<Rightarrow> string \<Rightarrow> db \<Rightarrow> refund_row option" where
  "find_refund t i d = find (\<lambda>r. rf_tenant r = t \<and> rf_id r = i) (refunds d)"

definition find_exception_refund :: "string \<Rightarrow> string \<Rightarrow> db \<Rightarrow> exception_refund_row option" where
  "find_exception_refund t i d = find (\<lambda>r. xr_tenant r = t \<and> xr_id r = i) (exception_refunds d)"

text \<open>The payment's row, as the joins read it.\<close>

definition payment_row_of :: "string \<Rightarrow> string \<Rightarrow> db \<Rightarrow> payment_row option" where
  "payment_row_of t i d = find (\<lambda>r. py_tenant r = t \<and> py_id r = i) (payments d)"

text \<open>The joined row: the funding and the amount that the original payment must have.\<close>

definition order_funding :: "string \<Rightarrow> string \<Rightarrow> db \<Rightarrow> (refund_funding \<times> cents) option" where
  "order_funding t i d =
     Option.bind (find_refund t i d) (\<lambda>r.
     Option.bind (payment_row_of t (rf_payment r) d) (\<lambda>p.
     Option.bind (py_transaction p) (\<lambda>x.
     map_option (\<lambda>c. (\<lparr>fu_refund = i, fu_kind = OrderSource, fu_source = py_id p, fu_provider = py_provider p,
         fu_merchant = py_merchant p, fu_transaction = x, fu_amount = rf_external r, fu_original = cx_amount c\<rparr>, py_external p))
       (capture_row (py_provider p) (py_merchant p) x t OrderSource (py_id p) d))))"

definition exception_funding :: "string \<Rightarrow> string \<Rightarrow> db \<Rightarrow> (refund_funding \<times> cents) option" where
  "exception_funding t i d =
     Option.bind (find_exception_refund t i d) (\<lambda>r.
     map_option (\<lambda>c. (\<lparr>fu_refund = i, fu_kind = xr_kind r, fu_source = xr_source r, fu_provider = xr_provider r,
         fu_merchant = xr_merchant r, fu_transaction = xr_transaction r, fu_amount = xr_amount r, fu_original = cx_amount c\<rparr>, xr_amount r))
       (capture_row (xr_provider r) (xr_merchant r) (xr_transaction r) t (xr_kind r) (xr_source r) d))"

definition funding_ok :: "refund_funding \<Rightarrow> cents \<Rightarrow> bool" where
  "funding_ok f expected \<longleftrightarrow> \<not> (fu_provider f = WalletProvider \<or> fu_transaction f = '''' \<or>
     \<not> is_safe (fu_amount f) \<or> fu_amount f \<le> 0 \<or> \<not> is_safe (fu_original f) \<or> fu_original f < fu_amount f \<or>
     fu_original f \<noteq> expected)"

definition refund_funding_of :: "string \<Rightarrow> bool \<Rightarrow> string \<Rightarrow> refund_funding tx" where
  "refund_funding_of t ordinary i =
     tbind (tread (if ordinary then order_funding t i else exception_funding t i)) (\<lambda>row.
     tbind (tsome row (ChannelErr ChannelNotReady)) (\<lambda>fe.
     tseq (tguard (funding_ok (fst fe) (snd fe)) (ChannelErr ChannelRequestConflict)) (tret (fst fe))))"

definition check_refund_binding :: "merchant_binding \<Rightarrow> string \<Rightarrow> refund_funding \<Rightarrow> unit tx" where
  "check_refund_binding b t f =
     tguard (\<not> (mb_tenant b \<noteq> t \<or> mb_provider b \<noteq> fu_provider f \<or> mb_merchant b \<noteq> fu_merchant f))
       (ChannelErr ChannelRequestConflict)"

definition retry_refund_total :: "refund_request \<Rightarrow> string \<Rightarrow> refund_funding \<Rightarrow> cents tx" where
  "retry_refund_total q t f =
     tseq (check_refund_binding (rq_binding q) t f)
     (tseq (tguard (\<not> (rq_refund q \<noteq> fu_refund f \<or> rq_source q \<noteq> fu_source f \<or> rq_transaction q \<noteq> fu_transaction f \<or>
         rq_amount q \<noteq> fu_amount f \<or> (rq_original q \<noteq> None \<and> rq_original q \<noteq> Some (fu_original f))))
        (ChannelErr ChannelRequestConflict))
     (tret (fu_original f)))"

definition payment_request_of :: "channel_operation_row option \<Rightarrow> payment_request option" where
  "payment_request_of r = (case r of Some q \<Rightarrow> (case co_request q of PaymentRequest p \<Rightarrow> Some p | _ \<Rightarrow> None) | None \<Rightarrow> None)"

definition new_refund_request :: "payment_request option \<Rightarrow> merchant_binding \<Rightarrow> string \<Rightarrow> string \<Rightarrow> refund_funding \<Rightarrow> refund_request" where
  "new_refund_request original b i refund f =
     \<lparr>rq_binding = b, rq_operation = i,
      rq_order_no = (case original of Some p \<Rightarrow> pq_order_no p | None \<Rightarrow> no_dashes (fu_source f)),
      rq_source = fu_source f, rq_transaction = fu_transaction f, rq_refund_no = no_dashes refund, rq_refund = refund,
      rq_amount = fu_amount f, rq_original = Some (fu_original f)\<rparr>"

text \<open>\<open>enqueueRefundChannel\<close> and \<open>enqueueExceptionRefundChannel\<close> differ in the kinds they look under.\<close>

definition enqueue_refund :: "bool \<Rightarrow> string \<Rightarrow> string \<Rightarrow> unit tx" where
  "enqueue_refund ordinary t i =
     (let kind = (if ordinary then RefundOp else ExceptionRefundOp) in
     tbind (tread (\<lambda>d. operations_of t kind i d \<noteq> [])) (\<lambda>there.
     if there then tret ()
     else
       tbind (refund_funding_of t ordinary i) (\<lambda>f.
       tbind (tread (\<lambda>d. payment_request_of (if ordinary then (case operations_of t OrderOp (fu_source f) d of [] \<Rightarrow> None | r # _ \<Rightarrow> Some r)
           else latest_operation t (source_op (fu_kind f)) (fu_source f) d))) (\<lambda>original.
       tbind (case original of Some p \<Rightarrow> tret (pq_binding p) | None \<Rightarrow> original_binding t (fu_provider f) (fu_merchant f)) (\<lambda>b.
       tseq (check_refund_binding b t f)
       (tbind tuuid (\<lambda>j. tbind tclock (\<lambda>now.
        tbind (tenv (\<lambda>E. new_operation E now j t kind i 1 (RefundRequest (new_refund_request original b j i f))))
          insert_operation_once)))))))) "

definition enqueue_refund_channel :: "string \<Rightarrow> string \<Rightarrow> unit tx" where
  "enqueue_refund_channel t i = enqueue_refund True t i"

definition enqueue_exception_refund_channel :: "string \<Rightarrow> string \<Rightarrow> unit tx" where
  "enqueue_exception_refund_channel t i = enqueue_refund False t i"

definition retry_request :: "refund_request \<Rightarrow> cents \<Rightarrow> string \<Rightarrow> refund_request" where
  "retry_request q whole i = q\<lparr>rq_original := Some whole, rq_operation := i, rq_refund_no := no_dashes i\<rparr>"

text \<open>The closed request's successor: a new operation and a new refund number for the same facts.\<close>

definition retry_operation :: "bool \<Rightarrow> string \<Rightarrow> string \<Rightarrow> channel_operation_row \<Rightarrow> unit tx" where
  "retry_operation ordinary t i r =
     tbind tuuid (\<lambda>j.
     tbind (refund_funding_of t ordinary i) (\<lambda>f.
     case co_request r of
       PaymentRequest _ \<Rightarrow> tfail TypeErr
     | RefundRequest q \<Rightarrow>
         tbind (retry_refund_total q t f) (\<lambda>whole. tbind tclock (\<lambda>now.
         tbind (tenv (\<lambda>E. new_operation E now j t (co_kind r) i (co_generation r + 1) (RefundRequest (retry_request q whole j))))
           insert_operation))))"

definition retry_refund_channel :: "string \<Rightarrow> string \<Rightarrow> unit tx" where
  "retry_refund_channel t i =
     tseq (enqueue_refund_channel t i)
     (tbind (tread (latest_operation t RefundOp i)) (\<lambda>row.
      tbind (tsome row TypeErr) (\<lambda>r.
      tbind (tread (\<lambda>d. co_state r = OpReady \<and> list_ex (\<lambda>v. re_tenant v = t \<and> re_refund v = i \<and> re_failed v) (refund_events d))) (\<lambda>legacy.
      tseq (tguard (\<not> (co_state r \<noteq> OpFailed \<and> \<not> legacy)) (ChannelErr ChannelResultUnknown))
      (tseq (twhen legacy (set_operation_failed (co_id r)))
      (retry_operation True t i r))))))"

definition retry_exception_refund_channel :: "string \<Rightarrow> string \<Rightarrow> unit tx" where
  "retry_exception_refund_channel t i =
     tbind (tread (latest_operation t ExceptionRefundOp i)) (\<lambda>row.
     case row of None \<Rightarrow> tfail (ChannelErr ChannelResultUnknown)
     | Some r \<Rightarrow>
         tseq (tguard (co_state r = OpFailed) (ChannelErr ChannelResultUnknown)) (retry_operation False t i r))"

section \<open>Claims\<close>

definition insert_channel_transaction :: "channel_transaction_row \<Rightarrow> unit tx" where
  "insert_channel_transaction r =
     tseq (tguard (0 < cx_amount r) (SqlErr CheckViolation))
     (tmodify (\<lambda>d. if list_ex (\<lambda>q. cx_provider q = cx_provider r \<and> cx_merchant q = cx_merchant r \<and> cx_transaction q = cx_transaction r)
         (channel_transactions d) then d else d\<lparr>channel_transactions := channel_transactions d @ [r]\<rparr>))"

definition claim_channel_transaction :: "channel_transaction_row \<Rightarrow> unit tx" where
  "claim_channel_transaction r =
     tseq (insert_channel_transaction r)
     (tbind (tread (\<lambda>d. find (\<lambda>q. cx_provider q = cx_provider r \<and> cx_merchant q = cx_merchant r \<and> cx_transaction q = cx_transaction r)
         (channel_transactions d))) (\<lambda>row.
      tbind (tsome row TypeErr) (\<lambda>q.
      tguard (\<not> (cx_tenant q \<noteq> cx_tenant r \<or> cx_source_type q \<noteq> cx_source_type r \<or> cx_source q \<noteq> cx_source r \<or>
          cx_amount q \<noteq> cx_amount r)) (WalletErr PaymentTransactionReused))))"

definition insert_cash_refund :: "cash_refund_row \<Rightarrow> unit tx" where
  "insert_cash_refund r =
     tseq (tguard (0 < cf_amount r \<and> cf_amount r \<le> max_safe) (SqlErr CheckViolation))
     (tmodify (\<lambda>d. if list_ex (\<lambda>q. cf_provider q = cf_provider r \<and> cf_merchant q = cf_merchant r \<and>
           cf_provider_refund q = cf_provider_refund r) (cash_refunds d)
         then d else d\<lparr>cash_refunds := cash_refunds d @ [r]\<rparr>))"

definition claim_cash_refund_transaction :: "cash_refund_row \<Rightarrow> unit tx" where
  "claim_cash_refund_transaction r =
     tseq (tguard (\<not> (\<not> is_safe (cf_amount r) \<or> cf_amount r \<le> 0 \<or> cf_provider_refund r = '''' \<or> cf_transaction r = '''')) CashRefundErr)
     (tseq (insert_cash_refund r)
     (tbind (tread (\<lambda>d. find (\<lambda>q. cf_provider q = cf_provider r \<and> cf_merchant q = cf_merchant r \<and>
         cf_provider_refund q = cf_provider_refund r) (cash_refunds d))) (\<lambda>row.
      tbind (tsome row CashRefundErr) (\<lambda>q.
      tguard (\<not> (cf_tenant q \<noteq> cf_tenant r \<or> cf_for_order q \<noteq> cf_for_order r \<or> cf_source q \<noteq> cf_source r \<or>
          cf_amount q \<noteq> cf_amount r \<or> cf_transaction q \<noteq> cf_transaction r)) CashRefundErr))))"


section \<open>Invariants\<close>

lemma new_operation_tenant [simp]: "co_tenant (new_operation E now i t k s n r) = t"
  by (simp add: new_operation_def)

locale channel_writes = merchant_writes +
  assumes inv_operation: "T (co_tenant c) \<Longrightarrow> keeps I (insert_operation c)"
    and inv_operation_failed: "keeps I (set_operation_failed i)"
    and inv_channel_transaction: "T (cx_tenant x) \<Longrightarrow> keeps I (insert_channel_transaction x)"
    and inv_cash_refund: "T (cf_tenant y) \<Longrightarrow> keeps I (insert_cash_refund y)"
begin

lemma keeps_resolve_merchant: "T t \<Longrightarrow> keeps I (resolve_payment_merchant t g)"
  unfolding resolve_payment_merchant_def by (intro keeps_intros keeps_active_merchant)

lemma keeps_original_binding: "T t \<Longrightarrow> keeps I (original_binding t p merchant)"
  unfolding original_binding_def Let_def by (intro keeps_intros keeps_counters inv_insert_merchant) simp

lemma keeps_queue:
  assumes "\<And>E. T (co_tenant (f E))"
  shows "keeps I (tbind (tenv f) insert_operation)" "keeps I (tbind (tenv f) insert_operation_once)"
  using keepsD [OF inv_operation [OF assms]]
  by (auto simp: keeps_def tbind_Inr tenv_Inr insert_operation_once_def tread_Inr tret_Inr split: if_splits)

lemma keeps_enqueue_payment: "T t \<Longrightarrow> keeps I (enqueue_payment_channel t k s b amount expires)"
  unfolding enqueue_payment_channel_def Let_def by (intro keeps_intros keeps_counters keeps_queue) simp

lemma keeps_enqueue_refund: "T t \<Longrightarrow> keeps I (enqueue_refund ordinary t i)"
  unfolding enqueue_refund_def Let_def refund_funding_of_def check_refund_binding_def
  by (intro keeps_intros keeps_counters keeps_original_binding keeps_queue) simp_all

lemma keeps_retry_operation:
  assumes T: "T t"
  shows "keeps I (retry_operation ordinary t i r)"
proof (cases "co_request r")
  case (PaymentRequest p)
  show ?thesis
    unfolding retry_operation_def PaymentRequest channel_request.case refund_funding_of_def
    by (intro keeps_intros keeps_counters)
next
  case (RefundRequest q)
  show ?thesis
    unfolding retry_operation_def RefundRequest channel_request.case refund_funding_of_def retry_refund_total_def check_refund_binding_def
    by (intro keeps_intros keeps_counters keeps_queue) (simp add: T)
qed

lemma keeps_refund_channels:
  "T t \<Longrightarrow> keeps I (enqueue_refund_channel t i)" "T t \<Longrightarrow> keeps I (enqueue_exception_refund_channel t i)"
  "T t \<Longrightarrow> keeps I (retry_refund_channel t i)" "T t \<Longrightarrow> keeps I (retry_exception_refund_channel t i)"
  unfolding retry_refund_channel_def retry_exception_refund_channel_def enqueue_refund_channel_def
    enqueue_exception_refund_channel_def
  by (intro keeps_intros keeps_enqueue_refund keeps_retry_operation inv_operation_failed; assumption)+

lemma keeps_claims:
  "T (cx_tenant x) \<Longrightarrow> keeps I (claim_channel_transaction x)" "T (cf_tenant y) \<Longrightarrow> keeps I (claim_cash_refund_transaction y)"
  unfolding claim_channel_transaction_def claim_cash_refund_transaction_def
  by (intro keeps_intros inv_channel_transaction inv_cash_refund; assumption)+

end

text \<open>An invariant that the requests and the claims keep as wholes.\<close>

locale channel_invariant = db_invariant +
  assumes inv_resolve: "T t \<Longrightarrow> keeps I (resolve_payment_merchant t g)"
    and inv_enqueue_payment: "T t \<Longrightarrow> keeps I (enqueue_payment_channel t k s b amount expires)"
    and inv_enqueue_refund: "T t \<Longrightarrow> keeps I (enqueue_refund_channel t i)"
    and inv_enqueue_exception: "T t \<Longrightarrow> keeps I (enqueue_exception_refund_channel t i)"
    and inv_retry_refund: "T t \<Longrightarrow> keeps I (retry_refund_channel t i)"
    and inv_retry_exception: "T t \<Longrightarrow> keeps I (retry_exception_refund_channel t i)"
    and inv_claim: "T (cx_tenant x) \<Longrightarrow> keeps I (claim_channel_transaction x)"
    and inv_claim_refund: "T (cf_tenant y) \<Longrightarrow> keeps I (claim_cash_refund_transaction y)"
begin

lemmas keeps_channel = inv_resolve inv_enqueue_payment inv_enqueue_refund inv_enqueue_exception inv_retry_refund
  inv_retry_exception inv_claim inv_claim_refund

end

sublocale channel_writes \<subseteq> channel_invariant
  by unfold_locales (rule keeps_resolve_merchant keeps_enqueue_payment keeps_refund_channels keeps_claims; assumption)+

text \<open>
  The queue: no operation and no generation of a source twice, and every refund asks for no more
  than its payment's original amount, so that a provider accepts it.
\<close>

definition refund_accepted :: "channel_request \<Rightarrow> bool" where
  "refund_accepted r = (case r of PaymentRequest _ \<Rightarrow> True | RefundRequest q \<Rightarrow> okE (require_refund_original q))"

definition same_operation :: "channel_operation_row \<Rightarrow> channel_operation_row \<Rightarrow> bool" where
  "same_operation q r \<longleftrightarrow> co_id q = co_id r \<or>
     (operation_key (co_tenant r) (co_kind r) (co_source r) q \<and> co_generation q = co_generation r)"

definition queue_ok :: "db \<Rightarrow> bool" where
  "queue_ok d \<longleftrightarrow> sorted_wrt (\<lambda>q r. \<not> same_operation q r) (channel_operations d) \<and>
     (\<forall>r\<in>set (channel_operations d). refund_accepted (co_request r))"

lemma insert_operation_Inr:
  "insert_operation r E d = Inr res \<longleftrightarrow> 0 < co_generation r \<and> co_provider r \<noteq> WalletProvider \<and>
     (\<forall>q\<in>set (channel_operations d). \<not> same_operation q r) \<and> find_merchant (co_tenant r) (co_binding r) d \<noteq> None \<and>
     res = ((), d\<lparr>channel_operations := channel_operations d @ [r]\<rparr>)"
  by (auto simp: insert_operation_def ok_iff list_ex_iff same_operation_def)

lemma insert_operation_queue: "refund_accepted (co_request r) \<Longrightarrow> keeps queue_ok (insert_operation r)"
  by (rule keepsI) (auto simp: insert_operation_Inr queue_ok_def sorted_wrt_append)

lemma insert_once_queue: "refund_accepted (co_request r) \<Longrightarrow> keeps queue_ok (insert_operation_once r)"
  unfolding insert_operation_once_def by (intro keeps_intros insert_operation_queue)

lemma keeps_tbind_env: "(\<And>E. keeps I (g (f E))) \<Longrightarrow> keeps I (tbind (tenv f) g)"
  by (rule keepsI) (auto simp: tbind_Inr tenv_Inr dest: keepsD)

lemma queue_of_requests:
  assumes "\<And>E. refund_accepted (co_request (f E))"
  shows "keeps queue_ok (tbind (tenv f) insert_operation)" "keeps queue_ok (tbind (tenv f) insert_operation_once)"
  by (rule keeps_tbind_env, rule insert_operation_queue insert_once_queue, rule assms)+

lemma new_operation_request [simp]: "co_request (new_operation E now i t k s n r) = r"
  by (simp add: new_operation_def)

lemma queue_other_writes:
  "keeps queue_ok tclock" "keeps queue_ok tuuid" "keeps queue_ok (insert_merchant m)" "keeps queue_ok (set_operation_failed i)"
proof -
  have "sorted_wrt (\<lambda>q r. \<not> same_operation q r) (map (fail_operation i) cs) = sorted_wrt (\<lambda>q r. \<not> same_operation q r) cs" for cs
    unfolding sorted_wrt_map by (rule arg_cong [where f = "\<lambda>P. sorted_wrt P cs"]) (auto simp: fun_eq_iff same_operation_def operation_key_def fail_operation_def)
  then show "keeps queue_ok (set_operation_failed i)"
    by (auto simp: keeps_def set_operation_failed_def ok_iff queue_ok_def fail_operation_def)
qed (auto simp: keeps_def ok_iff queue_ok_def insert_merchant_Inr)

lemma refund_funding_ok: "refund_funding_of t b i E d = Inr (f, d') \<Longrightarrow> d' = d \<and> (\<exists>expected. funding_ok f expected)"
  unfolding refund_funding_of_def tbind_Inr tread_Inr tsome_Inr tseq_Inr tguard_Inr tret_Inr by auto

lemma new_refund_accepted:
  "funding_ok f expected \<Longrightarrow> refund_accepted (RefundRequest (new_refund_request original b j i f))"
  by (auto simp: funding_ok_def refund_accepted_def require_refund_original_def new_refund_request_def okE_iff)

lemma enqueue_refund_queue: "keeps queue_ok (enqueue_refund ordinary t i)"
proof -
  let ?kind = "if ordinary then RefundOp else ExceptionRefundOp"
  let ?rest = "\<lambda>f. tbind (tread (\<lambda>d. payment_request_of (if ordinary then (case operations_of t OrderOp (fu_source f) d of [] \<Rightarrow> None | r # _ \<Rightarrow> Some r)
           else latest_operation t (source_op (fu_kind f)) (fu_source f) d))) (\<lambda>original.
       tbind (case original of Some p \<Rightarrow> tret (pq_binding p) | None \<Rightarrow> original_binding t (fu_provider f) (fu_merchant f)) (\<lambda>b.
       tseq (check_refund_binding b t f)
       (tbind tuuid (\<lambda>j. tbind tclock (\<lambda>now.
        tbind (tenv (\<lambda>E. new_operation E now j t ?kind i 1 (RefundRequest (new_refund_request original b j i f))))
          insert_operation_once)))))"
  have original: "keeps queue_ok (original_binding t p merchant)" for p merchant
    unfolding original_binding_def Let_def by (intro keeps_intros queue_other_writes)
  have rest: "keeps queue_ok (?rest f)" if "funding_ok f expected" for f expected
    unfolding check_refund_binding_def
    by (intro keeps_intros queue_other_writes original queue_of_requests) (simp add: new_refund_accepted [OF that])
  have work: "keeps queue_ok (tbind (refund_funding_of t ordinary i) ?rest)"
  proof (rule keepsI)
    fix E d x d' assume I: "queue_ok d" and "tbind (refund_funding_of t ordinary i) ?rest E d = Inr (x, d')"
    then obtain f d1 where f: "refund_funding_of t ordinary i E d = Inr (f, d1)" and run: "?rest f E d1 = Inr (x, d')"
      unfolding tbind_Inr [of "refund_funding_of t ordinary i"] by blast
    obtain expected where "d1 = d" and ok: "funding_ok f expected" using refund_funding_ok [OF f] by blast
    then show "queue_ok d'" using keepsD [OF rest [OF ok], OF _ run] I by simp
  qed
  show ?thesis
    unfolding enqueue_refund_def Let_def by (rule keeps_tbind [OF keeps_tread], rule keeps_if, rule keeps_tret, rule work)
qed

lemma retry_operation_queue: "keeps queue_ok (retry_operation ordinary t i r)"
proof (rule keepsI)
  fix E d x d' assume I: "queue_ok d" and run: "retry_operation ordinary t i r E d = Inr (x, d')"
  define j d0 where "j = e_uuid E (uuids d)" and "d0 = d\<lparr>uuids := Suc (uuids d)\<rparr>"
  let ?op = "\<lambda>q whole now E. new_operation E now j t (co_kind r) i (co_generation r + 1) (RefundRequest (retry_request q whole j))"
  let ?case = "\<lambda>f. case co_request r of PaymentRequest _ \<Rightarrow> tfail TypeErr
     | RefundRequest q \<Rightarrow> tbind (retry_refund_total q t f) (\<lambda>whole. tbind tclock (\<lambda>now. tbind (tenv (?op q whole now)) insert_operation))"
  have "tbind (refund_funding_of t ordinary i) ?case E d0 = Inr (x, d')"
    using run unfolding j_def d0_def by (simp add: retry_operation_def tbind_def [of tuuid] tuuid_def)
  then obtain f d1 where f: "refund_funding_of t ordinary i E d0 = Inr (f, d1)" and c: "?case f E d1 = Inr (x, d')"
    unfolding tbind_Inr [of "refund_funding_of t ordinary i"] by blast
  have I1: "queue_ok d1" using I refund_funding_ok [OF f] by (simp add: d0_def queue_ok_def)
  obtain q where q: "co_request r = RefundRequest q" using c by (cases "co_request r") (simp_all add: tfail_Inr)
  then have "tbind (retry_refund_total q t f) (\<lambda>whole. tbind tclock (\<lambda>now. tbind (tenv (?op q whole now)) insert_operation)) E d1 = Inr (x, d')"
    using c by simp
  then obtain whole d2 where w: "retry_refund_total q t f E d1 = Inr (whole, d2)"
    and ins: "tbind tclock (\<lambda>now. tbind (tenv (?op q whole now)) insert_operation) E d2 = Inr (x, d')"
    unfolding tbind_Inr [of "retry_refund_total q t f"] by blast
  from w have same: "d2 = d1" "whole = fu_original f" "rq_amount q = fu_amount f"
    by (auto simp: retry_refund_total_def check_refund_binding_def ok_iff)
  obtain expected where "funding_ok f expected" using refund_funding_ok [OF f] by blast
  then have "refund_accepted (RefundRequest (retry_request q whole j))"
    by (auto simp: same funding_ok_def refund_accepted_def require_refund_original_def retry_request_def okE_iff)
  then have "keeps queue_ok (tbind tclock (\<lambda>now. tbind (tenv (\<lambda>E. new_operation E now j t (co_kind r) i (co_generation r + 1)
         (RefundRequest (retry_request q whole j)))) insert_operation))"
    by (intro keeps_tbind [OF queue_other_writes(1)] queue_of_requests) simp
  from keepsD [OF this, OF _ ins] show "queue_ok d'" using I1 same(1) by simp
qed


lemma enqueue_payment_queue: "keeps queue_ok (enqueue_payment_channel t k s b amount expires)"
  unfolding enqueue_payment_channel_def Let_def
  by (intro keeps_intros queue_other_writes queue_of_requests) (simp add: refund_accepted_def)

interpretation queue_receipts: channel_writes "\<lambda>d. receipts d = rs" "\<lambda>_. True" for rs
  by unfold_locales (auto simp: keeps_def insert_merchant_def retire_merchants_def insert_auth_audit_def insert_operation_def
      set_operation_failed_def insert_channel_transaction_def insert_cash_refund_def ok_iff)


interpretation queue_merchants: merchant_writes queue_ok "\<lambda>_. True"
  by unfold_locales (auto simp: keeps_def queue_ok_def record_tenant_audit_def insert_merchant_def retire_merchants_def
      insert_auth_audit_def ok_iff)

interpretation queue: channel_invariant queue_ok "\<lambda>_. True"
proof
  show "keeps queue_ok (resolve_payment_merchant t g)" for t g
    unfolding resolve_payment_merchant_def by (intro keeps_intros queue_merchants.keeps_active_merchant TrueI)
  show "keeps queue_ok (enqueue_refund_channel t i)" "keeps queue_ok (enqueue_exception_refund_channel t i)"
    "keeps queue_ok (retry_refund_channel t i)" "keeps queue_ok (retry_exception_refund_channel t i)" for t i
    unfolding enqueue_refund_channel_def enqueue_exception_refund_channel_def retry_refund_channel_def
      retry_exception_refund_channel_def
    by (intro keeps_intros enqueue_refund_queue retry_operation_queue queue_other_writes)+
  show "keeps queue_ok (claim_channel_transaction x)" "keeps queue_ok (claim_cash_refund_transaction y)" for x y
    by (auto simp: keeps_def queue_ok_def claim_channel_transaction_def insert_channel_transaction_def
        claim_cash_refund_transaction_def insert_cash_refund_def ok_iff)
qed (rule enqueue_payment_queue)

section \<open>Claims are exclusive\<close>

definition same_capture :: "channel_transaction_row \<Rightarrow> channel_transaction_row \<Rightarrow> bool" where
  "same_capture r q \<longleftrightarrow> cx_provider q = cx_provider r \<and> cx_merchant q = cx_merchant r \<and> cx_transaction q = cx_transaction r"

lemma claim_channel_Inr:
  "claim_channel_transaction r E d = Inr (u, d') \<longleftrightarrow> 0 < cx_amount r \<and>
     (\<exists>q. find (same_capture r) (channel_transactions d') = Some q \<and>
        cx_tenant q = cx_tenant r \<and> cx_source_type q = cx_source_type r \<and> cx_source q = cx_source r \<and> cx_amount q = cx_amount r) \<and>
     d' = (if list_ex (same_capture r) (channel_transactions d) then d
       else d\<lparr>channel_transactions := channel_transactions d @ [r]\<rparr>)"
  unfolding claim_channel_transaction_def insert_channel_transaction_def same_capture_def [abs_def]
    tseq_Inr tbind_Inr tguard_Inr tmodify_Inr tread_Inr tsome_Inr prod.inject
  by (intro iffI) (clarify, simp)+

lemma find_extend: "find P xs = Some x \<Longrightarrow> find P (xs @ ys) = Some x"
  by (induction xs) (simp_all split: if_splits)

text \<open>
  C21: One capture funds one source: when two claims of the same channel transaction succeed, the second against a database
  in which captures were only added since the first, they name the same tenant, the same kind of source, the same source
  and the same amount, and the second changes nothing.
\<close>

theorem capture_claimed_once:
  assumes "claim_channel_transaction r E d = Inr (u, d1)"
    and "channel_transactions d2 = channel_transactions d1 @ later"
    and "same_capture r q" "claim_channel_transaction q E' d2 = Inr (v, d3)"
  shows "cx_tenant q = cx_tenant r \<and> cx_source_type q = cx_source_type r \<and> cx_source q = cx_source r \<and>
    cx_amount q = cx_amount r \<and> d3 = d2"
proof -
  have same: "same_capture q = same_capture r" using assms(3) by (auto simp: same_capture_def fun_eq_iff)
  obtain x where x: "find (same_capture r) (channel_transactions d1) = Some x" "cx_tenant x = cx_tenant r"
      "cx_source_type x = cx_source_type r" "cx_source x = cx_source r" "cx_amount x = cx_amount r"
    using assms(1) unfolding claim_channel_Inr by blast
  have there: "find (same_capture r) (channel_transactions d2) = Some x"
    using find_extend [OF x(1)] by (simp add: assms(2))
  then have "list_ex (same_capture q) (channel_transactions d2)" unfolding same by (auto simp: find_Some_iff list_ex_iff)
  with assms(4) obtain y where y: "find (same_capture r) (channel_transactions d3) = Some y" "d3 = d2" "cx_tenant y = cx_tenant q"
      "cx_source_type y = cx_source_type q" "cx_source y = cx_source q" "cx_amount y = cx_amount q"
    unfolding claim_channel_Inr same by auto
  then have "y = x" using there by simp
  then show ?thesis using x y by simp
qed

definition sample_capture :: channel_transaction_row where
  "sample_capture = \<lparr>cx_provider = MockProvider, cx_merchant = ''m'', cx_transaction = ''x'', cx_tenant = ''t'',
     cx_source_type = OrderSource, cx_source = ''p'', cx_amount = 500\<rparr>"

theorem capture_claimed_once_witness:
  "cx_source sample_capture = ''p'' \<and> (\<exists>d. claim_channel_transaction sample_capture sample_env
     (empty_db\<lparr>channel_transactions := [sample_capture]\<rparr>) = Inr ((), d) \<and> d = empty_db\<lparr>channel_transactions := [sample_capture]\<rparr>)"
proof -
  have 1: "claim_channel_transaction sample_capture sample_env empty_db = Inr ((), empty_db\<lparr>channel_transactions := [sample_capture]\<rparr>)"
    "claim_channel_transaction sample_capture sample_env (empty_db\<lparr>channel_transactions := [sample_capture]\<rparr>) =
       Inr ((), empty_db\<lparr>channel_transactions := [sample_capture]\<rparr>)"
    by (simp_all add: claim_channel_Inr sample_capture_def same_capture_def empty_db_def)
  from capture_claimed_once [OF 1(1), of "empty_db\<lparr>channel_transactions := [sample_capture]\<rparr>" "[]" sample_capture sample_env "()"] 1(2)
  show ?thesis by (simp add: same_capture_def, simp add: sample_capture_def)
qed

end
