(* ===== verification/Refunds.thy ===== *)
theory Refunds
  imports Booked Channels
begin

text \<open>
  packages/db/src/tennis/refunds.ts: what may still be refunded of an order's lines, a group of
  refunds over the payments of the order, its settlement from the wallet or by the provider, and
  the payment status of the order that follows from the history of its cash.
\<close>

section \<open>The tables\<close>

definition refund_checks :: "refund_row \<Rightarrow> bool" where
  "refund_checks r \<longleftrightarrow> 0 \<le> rf_amount r \<and> rf_amount r \<le> max_safe \<and> 0 \<le> rf_wallet r \<and> 0 \<le> rf_external r \<and>
     rf_wallet r + rf_external r = rf_amount r \<and> (rf_status r = RfSucceeded) = (rf_completed r \<noteq> None)"

definition insert_refund :: "refund_row \<Rightarrow> unit tx" where
  "insert_refund r =
     tseq (tguard (refund_checks r) (SqlErr CheckViolation))
     (tseq (tcheck (\<lambda>d. \<not> list_ex (\<lambda>q. rf_id q = rf_id r) (refunds d)) (SqlErr UniqueViolation))
     (tmodify (\<lambda>d. d\<lparr>refunds := refunds d @ [r]\<rparr>)))"

definition change_refund :: "string \<Rightarrow> string \<Rightarrow> (refund_row \<Rightarrow> refund_row) \<Rightarrow> refund_row \<Rightarrow> refund_row" where
  "change_refund t i f r = (if rf_tenant r = t \<and> rf_id r = i then f r else r)"

definition update_refund :: "string \<Rightarrow> string \<Rightarrow> (instant \<Rightarrow> refund_row \<Rightarrow> refund_row) \<Rightarrow> unit tx" where
  "update_refund t i f =
     tbind tclock (\<lambda>now.
     tseq (tcheck (\<lambda>d. list_all (\<lambda>r. refund_checks (f now r)) (filter (\<lambda>r. rf_tenant r = t \<and> rf_id r = i) (refunds d)))
       (SqlErr CheckViolation))
     (tmodify (\<lambda>d. d\<lparr>refunds := map (change_refund t i (f now)) (refunds d)\<rparr>)))"

definition insert_group :: "refund_group_row \<Rightarrow> unit tx" where
  "insert_group r =
     tseq (tguard (0 \<le> rg_amount r \<and> rg_amount r \<le> max_safe) (SqlErr CheckViolation))
     (tseq (tcheck (\<lambda>d. \<not> list_ex (\<lambda>q. rg_id q = rg_id r) (refund_groups d)) (SqlErr UniqueViolation))
     (tmodify (\<lambda>d. d\<lparr>refund_groups := refund_groups d @ [r]\<rparr>)))"

definition insert_refund_line :: "refund_line_row \<Rightarrow> unit tx" where
  "insert_refund_line r =
     tseq (tguard (0 \<le> rl_amount r) (SqlErr CheckViolation))
     (tseq (tcheck (\<lambda>d. \<not> list_ex (\<lambda>q. rl_tenant q = rl_tenant r \<and> rl_refund q = rl_refund r \<and> rl_line q = rl_line r) (refund_lines d))
       (SqlErr UniqueViolation))
     (tmodify (\<lambda>d. d\<lparr>refund_lines := refund_lines d @ [r]\<rparr>)))"

definition insert_refund_allocation :: "refund_allocation_row \<Rightarrow> unit tx" where
  "insert_refund_allocation r =
     tseq (tguard (0 \<le> ra_principal r \<and> 0 \<le> ra_gift r \<and> 0 < ra_principal r + ra_gift r) (SqlErr CheckViolation))
     (tseq (tcheck (\<lambda>d. \<not> list_ex (\<lambda>q. ra_tenant q = ra_tenant r \<and> ra_refund q = ra_refund r \<and> ra_batch q = ra_batch r) (refund_allocations d))
       (SqlErr UniqueViolation))
     (tmodify (\<lambda>d. d\<lparr>refund_allocations := refund_allocations d @ [r]\<rparr>)))"

definition insert_refund_event :: "refund_event_row \<Rightarrow> unit tx" where
  "insert_refund_event r =
     tseq (tcheck (\<lambda>d. \<not> list_ex (\<lambda>q. re_provider q = re_provider r \<and> re_merchant q = re_merchant r \<and> re_event q = re_event r) (refund_events d))
       (SqlErr UniqueViolation))
     (tmodify (\<lambda>d. d\<lparr>refund_events := refund_events d @ [r]\<rparr>))"

text \<open>ON CONFLICT DO NOTHING.\<close>

definition same_refund_receipt :: "refund_receipt_row \<Rightarrow> refund_receipt_row \<Rightarrow> bool" where
  "same_refund_receipt r q \<longleftrightarrow> rr_provider q = rr_provider r \<and> rr_merchant q = rr_merchant r \<and>
     rr_provider_refund q = rr_provider_refund r"

definition insert_refund_receipt :: "refund_receipt_row \<Rightarrow> unit tx" where
  "insert_refund_receipt r =
     tseq (tguard (0 < rr_amount r) (SqlErr CheckViolation))
     (tmodify (\<lambda>d. if list_ex (same_refund_receipt r) (refund_receipts d) then d
        else d\<lparr>refund_receipts := refund_receipts d @ [r]\<rparr>))"

section \<open>Readers\<close>

definition refund_in_transaction :: "string \<Rightarrow> string \<Rightarrow> refund_row tx" where
  "refund_in_transaction t i = tbind (tread (find_refund t i)) (\<lambda>row. tsome row (AccessErr ResourceNotFound))"

definition captured :: "string \<Rightarrow> string \<Rightarrow> db \<Rightarrow> cents" where
  "captured t i d = sum_list (map (\<lambda>p. py_wallet p + py_external p)
     (filter (\<lambda>p. py_tenant p = t \<and> py_order p = i \<and> py_status p = Succeeded) (payments d)))"

definition returned :: "string \<Rightarrow> string \<Rightarrow> db \<Rightarrow> cents" where
  "returned t i d = sum_list (map rf_amount
     (filter (\<lambda>r. rf_tenant r = t \<and> rf_order r = i \<and> rf_status r = RfSucceeded) (refunds d)))"

definition some_returned :: "string \<Rightarrow> string \<Rightarrow> db \<Rightarrow> bool" where
  "some_returned t i d \<longleftrightarrow>
     list_ex (\<lambda>r. rf_tenant r = t \<and> rf_order r = i \<and> rf_status r = RfSucceeded \<and> 0 < rf_amount r) (refunds d)"

definition cash_status :: "cents \<Rightarrow> cents \<Rightarrow> bool \<Rightarrow> cents \<Rightarrow> payment_state" where
  "cash_status paid back any_back order_total =
     (if paid = 0 then (if order_total = 0 then NotRequired else Unpaid)
      else if back \<ge> paid then Refunded
      else if any_back then PartiallyRefunded else Paid)"

definition refreshed_order :: "cents \<Rightarrow> cents \<Rightarrow> bool \<Rightarrow> instant \<Rightarrow> order_row \<Rightarrow> order_row" where
  "refreshed_order paid back any_back now r =
     r\<lparr>or_payment := cash_status paid back any_back (or_total r), or_updated := now\<rparr>"

definition refresh_order_payment_status :: "string \<Rightarrow> string \<Rightarrow> unit tx" where
  "refresh_order_payment_status t i =
     tbind (tread (\<lambda>d. (captured t i d, returned t i d, some_returned t i d))) (\<lambda>(paid, back, any_back).
     update_order t i (refreshed_order paid back any_back))"

definition refund_allocation_order :: "env \<Rightarrow> refund_allocation_row \<Rightarrow> refund_allocation_row \<Rightarrow> bool" where
  "refund_allocation_order E p q \<longleftrightarrow> e_collate_le E (ra_batch p) (ra_batch q)"

definition give_back_row :: "refund_allocation_row \<Rightarrow> batch_row \<Rightarrow> batch_row" where
  "give_back_row p r = r\<lparr>wr_avail_principal := wr_avail_principal r + ra_principal p,
     wr_avail_gift := wr_avail_gift r + ra_gift p\<rparr>"

definition give_back :: "string \<Rightarrow> string \<Rightarrow> string \<Rightarrow> refund_allocation_row \<Rightarrow> unit tx" where
  "give_back t c i p =
     tseq (adjust_batch t c (ra_batch p) (give_back_row p))
     (append_wallet_entry t c ERefund i \<lparr>wp_batch = ra_batch p, wp_principal = ra_principal p, wp_gift = ra_gift p\<rparr>)"

definition completed_refund :: "string option \<Rightarrow> instant \<Rightarrow> refund_row \<Rightarrow> refund_row" where
  "completed_refund pr now r = r\<lparr>rf_status := RfSucceeded, rf_provider_refund := pr, rf_completed := Some now\<rparr>"

definition complete_refund :: "string \<Rightarrow> refund_row \<Rightarrow> string option \<Rightarrow> unit tx" where
  "complete_refund t r pr =
     (if rf_status r = RfSucceeded then tret ()
      else
        tbind (tenv refund_allocation_order) (\<lambda>le.
        tbind (tread (\<lambda>d. sort_by le (filter (\<lambda>p. ra_tenant p = t \<and> ra_refund p = rf_id r) (refund_allocations d)))) (\<lambda>ps.
        tseq (twhen (ps \<noteq> []) (lock_wallet t (rf_customer r)))
        (tseq (teach (give_back t (rf_customer r) (rf_id r)) ps)
        (tseq (update_refund t (rf_id r) (completed_refund pr))
        (refresh_order_payment_status t (rf_order r)))))))"

text \<open>What the cash of an order's lines still allows: funding, applied amendments, minus refunds.\<close>

definition applied_delta :: "string \<Rightarrow> string \<Rightarrow> db \<Rightarrow> cents" where
  "applied_delta t l d = sum_list (map al_cap_delta
     (filter (\<lambda>a. al_tenant a = t \<and> al_line a = l \<and>
        list_ex (\<lambda>m. am_tenant m = t \<and> am_id m = al_amendment a \<and> am_status m = AmApplied) (amendments d)) (amendment_lines d)))"

definition line_refunded :: "string \<Rightarrow> string \<Rightarrow> db \<Rightarrow> cents" where
  "line_refunded t l d = sum_list (map rl_amount (filter (\<lambda>r. rl_tenant r = t \<and> rl_line r = l) (refund_lines d)))"

definition refundable_lines :: "string \<Rightarrow> string \<Rightarrow> db \<Rightarrow> (string \<times> cents) list" where
  "refundable_lines t i d =
     map (\<lambda>l. (ol_id l, ol_funding l + applied_delta t (ol_id l) d - line_refunded t (ol_id l) d))
       (filter (\<lambda>l. ol_tenant l = t \<and> ol_order l = i) (order_lines d))"

definition refundable :: "(string \<times> cents) list \<Rightarrow> string \<Rightarrow> cents" where
  "refundable ms l = (case map_of ms l of None \<Rightarrow> 0 | Some n \<Rightarrow> n)"

record refund_group =
  gp_row :: refund_group_row
  gp_status :: refund_status
  gp_refunds :: "refund_row list"

definition group_status :: "refund_row list \<Rightarrow> refund_status" where
  "group_status rs =
     (if list_all (\<lambda>r. rf_status r = RfSucceeded) rs then RfSucceeded
      else if list_ex (\<lambda>r. rf_status r = RfFailed) rs then RfFailed
      else if list_ex (\<lambda>r. rf_status r = RfProcessing \<or> rf_status r = RfSucceeded) rs then RfProcessing
      else RfRequested)"

definition refund_id_order :: "env \<Rightarrow> refund_row \<Rightarrow> refund_row \<Rightarrow> bool" where
  "refund_id_order E p q \<longleftrightarrow> e_collate_le E (rf_id p) (rf_id q)"

definition find_group :: "string \<Rightarrow> string \<Rightarrow> db \<Rightarrow> refund_group_row option" where
  "find_group t i d = find (\<lambda>g. rg_tenant g = t \<and> rg_id g = i) (refund_groups d)"

definition refund_group_in_transaction :: "string \<Rightarrow> string \<Rightarrow> refund_group tx" where
  "refund_group_in_transaction t i =
     tbind (tread (find_group t i)) (\<lambda>row.
     tbind (tsome row (AccessErr ResourceNotFound)) (\<lambda>g.
     tbind (tenv refund_id_order) (\<lambda>le.
     tbind (tread (\<lambda>d. map rf_id (sort_by le (filter (\<lambda>r. rf_tenant r = t \<and> rf_group r = i) (refunds d))))) (\<lambda>ids.
     tbind (tmap (refund_in_transaction t) ids) (\<lambda>rs.
     tret \<lparr>gp_row = g, gp_status = group_status rs, gp_refunds = rs\<rparr>)))))"

section \<open>A group of refunds\<close>

record refund_line_input =
  fi_line :: string
  fi_cents :: cents
  fi_cancel :: bool

definition check_line_input :: "refund_line_input \<Rightarrow> err + unit" where
  "check_line_input l =
     bindE (case assert_cents (fi_cents l) of Inl e \<Rightarrow> Inl (PricingErr e) | Inr u \<Rightarrow> Inr u) (\<lambda>_.
     guardE (\<not> (\<not> fi_cancel l \<and> fi_cents l = 0)) (RefundErr InvalidRefund))"

definition validate_refund :: "string \<Rightarrow> refund_line_input list \<Rightarrow> err + unit" where
  "validate_refund reason ls =
     bindE (guardE (\<not> (blank reason \<or> length reason > 2000 \<or> length ls < 1 \<or> length ls > 100 \<or> \<not> distinct (map fi_line ls)))
       (RefundErr InvalidRefund)) (\<lambda>_. eachE check_line_input ls)"

definition check_refund_line :: "order_line_row list \<Rightarrow> (string \<times> cents) list \<Rightarrow> refund_line_input \<Rightarrow> err + unit" where
  "check_refund_line ls remaining l =
     (case find (\<lambda>x. ol_id x = fi_line l) ls of
        None \<Rightarrow> Inl (RefundErr InvalidRefund)
      | Some original \<Rightarrow>
          bindE (guardE (\<not> (fi_cancel l \<and> ol_cancelled original \<noteq> None)) (RefundErr InvalidRefund)) (\<lambda>_.
          guardE (\<not> fi_cents l > refundable remaining (fi_line l)) (RefundErr RefundExceedsPayment)))"

text \<open>What can be given back: per batch of the wallet its principal and its gift, then the channel.\<close>

record refund_source =
  so_payment :: string
  so_batch :: "string option"
  so_principal :: bool
  so_remaining :: cents

definition given_back :: "(refund_allocation_row \<Rightarrow> cents) \<Rightarrow> string \<Rightarrow> string \<Rightarrow> string \<Rightarrow> db \<Rightarrow> cents" where
  "given_back f t p b d = sum_list (map f
     (filter (\<lambda>r. ra_tenant r = t \<and> ra_batch r = b \<and>
        list_ex (\<lambda>q. rf_tenant q = t \<and> rf_id q = ra_refund r \<and> rf_payment q = p) (refunds d)) (refund_allocations d)))"

definition channel_returned :: "string \<Rightarrow> string \<Rightarrow> db \<Rightarrow> cents" where
  "channel_returned t p d = sum_list (map rf_external (filter (\<lambda>r. rf_tenant r = t \<and> rf_payment r = p) (refunds d)))"

definition batch_sources :: "string \<Rightarrow> string \<Rightarrow> db \<Rightarrow> allocation_row \<Rightarrow> refund_source list" where
  "batch_sources t p d a =
     [\<lparr>so_payment = p, so_batch = Some (wa_batch a), so_principal = True,
        so_remaining = wa_principal a - given_back ra_principal t p (wa_batch a) d\<rparr>,
      \<lparr>so_payment = p, so_batch = Some (wa_batch a), so_principal = False,
        so_remaining = wa_gift a - given_back ra_gift t p (wa_batch a) d\<rparr>]"

definition allocation_order :: "env \<Rightarrow> allocation_row \<Rightarrow> allocation_row \<Rightarrow> bool" where
  "allocation_order E p q \<longleftrightarrow> e_collate_le E (wa_batch p) (wa_batch q)"

definition payment_sources :: "env \<Rightarrow> string \<Rightarrow> db \<Rightarrow> payment_row \<Rightarrow> refund_source list" where
  "payment_sources E t d p =
     concat (map (batch_sources t (py_id p) d)
       (sort_by (allocation_order E) (filter (\<lambda>a. wa_tenant a = t \<and> wa_payment a = py_id p \<and> wa_status a = Consumed) (allocations d)))) @
     [\<lparr>so_payment = py_id p, so_batch = None, so_principal = False,
        so_remaining = py_external p - channel_returned t (py_id p) d\<rparr>]"

definition payment_time_order :: "env \<Rightarrow> payment_row \<Rightarrow> payment_row \<Rightarrow> bool" where
  "payment_time_order E p q \<longleftrightarrow> py_created p < py_created q \<or> (py_created p = py_created q \<and> e_collate_le E (py_id p) (py_id q))"

definition paid_payments :: "env \<Rightarrow> string \<Rightarrow> string \<Rightarrow> db \<Rightarrow> payment_row list" where
  "paid_payments E t i d = sort_by (payment_time_order E)
     (filter (\<lambda>p. py_tenant p = t \<and> py_order p = i \<and> py_status p = Succeeded) (payments d))"

type_synonym refund_shares = "(refund_source \<times> cents) list"

definition share_sum :: "(refund_source \<Rightarrow> bool) \<Rightarrow> refund_shares \<Rightarrow> cents" where
  "share_sum P ss = sum_list (map snd (filter (\<lambda>s. P (fst s)) ss))"

text \<open>The amount of a refund spread over the lines, in their order; what is left of each line.\<close>

fun take_lines :: "cents \<Rightarrow> cents list \<Rightarrow> cents list" where
  "take_lines left [] = []"
| "take_lines left (r # rs) = min left r # take_lines (left - min left r) rs"

definition rest_lines :: "cents \<Rightarrow> cents list \<Rightarrow> cents list" where
  "rest_lines left rs = map2 (-) rs (take_lines left rs)"

definition first_share :: "string \<Rightarrow> bool \<Rightarrow> refund_shares \<Rightarrow> cents" where
  "first_share b pp ss =
     (case find (\<lambda>s. so_batch (fst s) = Some b \<and> so_principal (fst s) = pp) ss of None \<Rightarrow> 0 | Some s \<Rightarrow> snd s)"

text \<open>The batches in the order of their first source.\<close>

fun firsts :: "'a list \<Rightarrow> 'a list" where
  "firsts [] = []"
| "firsts (x # xs) = x # filter (\<lambda>y. y \<noteq> x) (firsts xs)"

definition owned_batches :: "refund_shares \<Rightarrow> string list" where
  "owned_batches ss = firsts (concat (map (\<lambda>s. case so_batch (fst s) of None \<Rightarrow> [] | Some b \<Rightarrow> [b]) ss))"

definition allocate_back :: "string \<Rightarrow> string \<Rightarrow> string \<Rightarrow> refund_shares \<Rightarrow> string \<Rightarrow> unit tx" where
  "allocate_back t c i ss b =
     (let pp = first_share b True ss; gg = first_share b False ss in
      twhen (pp + gg \<noteq> 0)
        (insert_refund_allocation \<lparr>ra_tenant = t, ra_customer = c, ra_refund = i, ra_batch = b,
           ra_principal = pp, ra_gift = gg\<rparr>))"

definition record_line :: "string \<Rightarrow> string \<Rightarrow> bool \<Rightarrow> refund_line_input \<times> cents \<Rightarrow> unit tx" where
  "record_line t i first e =
     twhen (snd e > 0 \<or> (first \<and> fi_cents (fst e) = 0))
       (insert_refund_line \<lparr>rl_tenant = t, rl_refund = i, rl_line = fi_line (fst e), rl_amount = snd e, rl_cancel = fi_cancel (fst e)\<rparr>)"

definition new_refund :: "actor \<Rightarrow> order_row \<Rightarrow> string \<Rightarrow> string \<Rightarrow> string \<Rightarrow> string \<Rightarrow> cents \<Rightarrow> cents \<Rightarrow> refund_row" where
  "new_refund a r reason gid i payment amount external =
     \<lparr>rf_id = i, rf_tenant = ac_tenant a, rf_venue = or_venue r, rf_order = or_id r, rf_customer = or_customer r,
      rf_payment = payment, rf_group = gid, rf_amount = amount, rf_wallet = amount - external, rf_external = external,
      rf_status = RfRequested, rf_reason = js_trim reason, rf_created_by = ac_subject a, rf_provider_refund = None,
      rf_completed = None\<rparr>"

text \<open>The refund of one payment: its row, its wallet portions, its lines, and its settlement.\<close>

definition refund_payment ::
  "actor \<Rightarrow> order_row \<Rightarrow> string \<Rightarrow> string \<Rightarrow> refund_line_input list \<Rightarrow> bool \<Rightarrow> cents list \<Rightarrow> string \<Rightarrow> refund_shares \<Rightarrow> unit tx" where
  "refund_payment a r reason gid ls first remainders payment mine =
     (let t = ac_tenant a; amount = share_sum (\<lambda>_. True) mine; external = share_sum (\<lambda>s. so_batch s = None) mine in
      tbind tuuid (\<lambda>i.
      tseq (insert_refund (new_refund a r reason gid i payment amount external))
      (tseq (teach (allocate_back t (or_customer r) i mine) (owned_batches mine))
      (tseq (teach (record_line t i first) (zip ls (take_lines amount remainders)))
      (if external = 0 then tbind (refund_in_transaction t i) (\<lambda>q. complete_refund t q None)
       else enqueue_refund_channel t i)))))"

fun refund_payments ::
  "actor \<Rightarrow> order_row \<Rightarrow> string \<Rightarrow> string \<Rightarrow> refund_line_input list \<Rightarrow> bool \<Rightarrow> cents list \<Rightarrow> (string \<times> refund_shares) list \<Rightarrow> unit tx" where
  "refund_payments a r reason gid ls first remainders [] = tret ()"
| "refund_payments a r reason gid ls first remainders (p # ps) =
     tseq (refund_payment a r reason gid ls first remainders (fst p) (snd p))
       (refund_payments a r reason gid ls False (rest_lines (share_sum (\<lambda>_. True) (snd p)) remainders) ps)"

definition shares_of :: "refund_shares \<Rightarrow> string \<Rightarrow> refund_shares" where
  "shares_of ss p = filter (\<lambda>s. so_payment (fst s) = p) ss"

definition used_payments :: "cents \<Rightarrow> refund_shares \<Rightarrow> string list \<Rightarrow> string list" where
  "used_payments whole ss ps =
     filter (\<lambda>p. if whole = 0 then p = hd ps else list_ex (\<lambda>s. so_payment (fst s) = p \<and> snd s > 0) ss) ps"

definition cancel_refunded :: "string \<Rightarrow> refund_line_input \<Rightarrow> unit tx" where
  "cancel_refunded t l =
     twhen (fi_cancel l)
       (tseq (update_lines (\<lambda>x. ol_tenant x = t \<and> ol_id x = fi_line l) cancel_line)
       (release_occupancies (\<lambda>o'. oc_tenant o' = t \<and> oc_line o' = Some (fi_line l))))"

definition line_input_json :: "refund_line_input \<Rightarrow> json" where
  "line_input_json l = JObj [(''lineId'', JStr (fi_line l)), (''refundCents'', JNum (fi_cents l)), (''cancel'', JBool (fi_cancel l))]"

definition create_refund_group ::
  "actor \<Rightarrow> string \<Rightarrow> string \<Rightarrow> refund_line_input list \<Rightarrow> string option \<Rightarrow> string tx" where
  "create_refund_group a i reason ls amendment =
     (let t = ac_tenant a in
     tseq (tlift id (validate_refund reason ls))
     (tbind (order_in_transaction a i) (\<lambda>w. let r = ow_row w in
     tbind (tread (refundable_lines t (or_id r))) (\<lambda>remaining.
     tseq (tlift id (eachE (check_refund_line (ow_lines w) remaining) ls))
     (let whole = sum_list (map fi_cents ls) in
     tseq (tlift PricingErr (assert_cents whole))
     (tbind (tenv (\<lambda>E. paid_payments E t (or_id r))) (\<lambda>pf. tbind (tread pf) (\<lambda>ps.
     tseq (tguard (ps \<noteq> []) (RefundErr OrderNotRefundable))
     (tbind (tenv (\<lambda>E d. concat (map (payment_sources E t d) ps))) (\<lambda>sf. tbind (tread sf) (\<lambda>sources.
     tseq (tguard (\<not> (whole > sum_list (map so_remaining sources) \<or> list_ex (\<lambda>s. so_remaining s < 0) sources))
        (RefundErr RefundExceedsPayment))
     (tbind (tlift PricingErr (allocate_cents whole (map so_remaining sources))) (\<lambda>portions.
     tbind tuuid (\<lambda>g. let shares = zip sources portions in
     tseq (insert_group \<lparr>rg_id = g, rg_tenant = t, rg_venue = or_venue r, rg_order = or_id r, rg_customer = or_customer r,
         rg_amendment = amendment, rg_reason = js_trim reason, rg_created_by = ac_subject a, rg_amount = whole\<rparr>)
     (tseq (refund_payments a r reason g ls True (map fi_cents ls)
         (map (\<lambda>p. (p, shares_of shares p)) (used_payments whole shares (map py_id ps))))
     (tseq (teach (cancel_refunded t) ls)
     (tbind (tread (has_open_lines t (or_id r))) (\<lambda>open_lines.
      tseq (update_order t (or_id r) (closed_if_empty open_lines))
      (tseq (record_tenant_audit a ''refund.request'' g [(''orderId'', JStr (or_id r)), (''amountCents'', JNum whole),
          (''reason'', JStr (js_trim reason)), (''lines'', JArr (map line_input_json ls)), (''amendmentId'', j_opt JStr amendment)])
      (tret g))))))))))))))))))))"

section \<open>Requests of staff\<close>

definition group_result :: "string \<Rightarrow> string \<Rightarrow> json" where
  "group_result g i = JObj [(''refundGroupId'', JStr g), (''refundId'', JStr i)]"

definition refund_work :: "actor \<Rightarrow> string \<Rightarrow> int \<Rightarrow> string \<Rightarrow> refund_line_input list \<Rightarrow> bool \<Rightarrow> json tx" where
  "refund_work a i expected reason ls legacy =
     tbind (order_in_transaction a i) (\<lambda>w. let r = ow_row w; t = ac_tenant a in
     tseq (tguard (or_revision r = expected) (RefundErr RefundStaleOrder))
     (tseq (assert_no_pending_amendment t (or_id r))
     (tseq (tguard (\<not> (or_payment r \<notin> {Paid, PartiallyRefunded} \<and>
          \<not> (or_payment r = Refunded \<and> list_all (\<lambda>l. fi_cancel l \<and> fi_cents l = 0) ls))) (RefundErr OrderNotRefundable))
     (tbind (tread (\<lambda>d. length (filter (\<lambda>p. py_tenant p = t \<and> py_order p = or_id r \<and> py_status p = Succeeded) (payments d)))) (\<lambda>n.
      tseq (tguard (\<not> (legacy \<and> n > 1)) (RefundErr UseRefundGroup))
      (tbind (create_refund_group a i reason ls None) (\<lambda>g.
       tbind (refund_group_in_transaction t g) (\<lambda>gp.
       case gp_refunds gp of [] \<Rightarrow> tfail TypeErr | q # _ \<Rightarrow> tret (group_result g (rf_id q))))))))))"

definition refund_request_fields :: "string \<Rightarrow> int \<Rightarrow> string \<Rightarrow> refund_line_input list \<Rightarrow> json" where
  "refund_request_fields i expected reason ls =
     JObj [(''orderId'', JStr i), (''expectedRevision'', JNum expected), (''reason'', JStr reason),
       (''lines'', JArr (map line_input_json ls))]"

definition given_group :: "json \<Rightarrow> string option" where
  "given_group result =
     (case j_string ''refundGroupId'' result of Some g \<Rightarrow> Some g | None \<Rightarrow> j_string ''refundId'' result)"

definition request_group ::
  "actor \<Rightarrow> string \<Rightarrow> int \<Rightarrow> string \<Rightarrow> string \<Rightarrow> refund_line_input list \<Rightarrow> bool \<Rightarrow> refund_group op" where
  "request_group a i expected reason key ls legacy =
     checked (validate_refund reason ls) (\<lambda>_. with_booking_transaction a
       (tbind (locate_order a i) (\<lambda>v.
        tseq (require_booking_venue a v PRefund)
        (tbind (expire_venue_amendments (ac_tenant a) v) (\<lambda>_.
         tbind (idempotent_command a v key (if legacy then ''order.refund'' else ''order.refund_group'')
            (refund_request_fields i expected reason ls) (refund_work a i expected reason ls legacy)) (\<lambda>result.
         tbind (tsome (given_group result) (AccessErr ResourceNotFound)) (refund_group_in_transaction (ac_tenant a))))))))"

definition first_refund :: "refund_group op \<Rightarrow> refund_row op" where
  "first_refund m = op_bind m (\<lambda>g. case gp_refunds g of [] \<Rightarrow> (\<lambda>E d. (Inl TypeErr, d)) | r # _ \<Rightarrow> op_ret r)"

definition request_order_refund ::
  "actor \<Rightarrow> string \<Rightarrow> int \<Rightarrow> string \<Rightarrow> string \<Rightarrow> refund_line_input list \<Rightarrow> refund_row op" where
  "request_order_refund a i expected reason key ls = first_refund (request_group a i expected reason key ls True)"

definition request_order_refund_group ::
  "actor \<Rightarrow> string \<Rightarrow> int \<Rightarrow> string \<Rightarrow> string \<Rightarrow> refund_line_input list \<Rightarrow> refund_group op" where
  "request_order_refund_group a i expected reason key ls = request_group a i expected reason key ls False"

definition get_refund_group :: "actor \<Rightarrow> string \<Rightarrow> refund_group op" where
  "get_refund_group a i = with_booking_transaction a
     (tbind (tread (find_group (ac_tenant a) i)) (\<lambda>row.
      tbind (tsome row (AccessErr ResourceNotFound)) (\<lambda>g.
      tbind (locate_order a (rg_order g)) (\<lambda>v.
      tseq (require_booking_venue a v PRead) (refund_group_in_transaction (ac_tenant a) i)))))"

definition get_refund :: "actor \<Rightarrow> string \<Rightarrow> refund_row op" where
  "get_refund a i = with_booking_transaction a
     (tbind (tread (find_refund (ac_tenant a) i)) (\<lambda>row.
      tbind (tsome row (AccessErr ResourceNotFound)) (\<lambda>r.
      tbind (locate_order a (rf_order r)) (\<lambda>v.
      tseq (require_booking_venue a v PRead) (refund_in_transaction (ac_tenant a) i)))))"

definition refund_status_to :: "refund_status \<Rightarrow> instant \<Rightarrow> refund_row \<Rightarrow> refund_row" where
  "refund_status_to st now r = r\<lparr>rf_status := st\<rparr>"

definition retry_work :: "actor \<Rightarrow> string \<Rightarrow> json tx" where
  "retry_work a i =
     tbind (refund_in_transaction (ac_tenant a) i) (\<lambda>r.
     tseq (tguard (rf_status r = RfFailed) (RefundErr RefundNotRetryable))
     (tseq (retry_refund_channel (ac_tenant a) i)
     (tseq (update_refund (ac_tenant a) i (refund_status_to RfRequested))
     (tseq (record_tenant_audit a ''refund.retry'' i [])
     (tret (JObj [(''refundId'', JStr i)]))))))"

definition retry_failed_refund :: "actor \<Rightarrow> string \<Rightarrow> string \<Rightarrow> refund_row op" where
  "retry_failed_refund a i key = with_booking_transaction a
     (tbind (tread (find_refund (ac_tenant a) i)) (\<lambda>row.
      tbind (tsome row (AccessErr ResourceNotFound)) (\<lambda>r.
      tbind (locate_order a (rf_order r)) (\<lambda>v.
      tseq (require_booking_venue a v PRefund)
      (tbind (idempotent_command a v key ''refund.retry'' (JObj [(''refundId'', JStr i)]) (retry_work a i)) (\<lambda>_.
       refund_in_transaction (ac_tenant a) i))))))"

section \<open>The provider's answer\<close>

text \<open>The event with its envelope, as the hashes of before 'semantic hashes' took it.\<close>

definition refund_event_json :: "refund_event \<Rightarrow> json" where
  "refund_event_json v =
     (case refund_facts v of JObj kvs \<Rightarrow> JObj (kvs @ [(''issuedAt'', JNum (rv_issued v))]) | j \<Rightarrow> j)"

definition same_refund_event :: "refund_event \<Rightarrow> refund_event_row \<Rightarrow> bool" where
  "same_refund_event v r \<longleftrightarrow> re_provider r = rv_provider v \<and> re_merchant r = rv_merchant v \<and> re_event r = rv_event v"

definition refund_event_fits :: "refund_event \<Rightarrow> payment_row \<Rightarrow> refund_row \<Rightarrow> bool" where
  "refund_event_fits v p r \<longleftrightarrow> \<not> (rv_provider v \<noteq> py_provider p \<or> rv_merchant v \<noteq> py_merchant p \<or>
     (rv_transaction v \<noteq> None \<and> rv_transaction v \<noteq> py_transaction p) \<or> rv_amount v \<noteq> rf_external r)"

text \<open>An answer to an operation that a newer one has replaced.\<close>

definition superseded_by_retry :: "string \<Rightarrow> string \<Rightarrow> refund_event \<Rightarrow> db \<Rightarrow> bool" where
  "superseded_by_retry t i v d \<longleftrightarrow>
     list_ex (\<lambda>ob. ob_provider ob = rv_provider v \<and> ob_merchant ob = rv_merchant v \<and> ob_refund_kind ob \<and> ob_event ob = rv_event v \<and>
       list_ex (\<lambda>old. co_id old = ob_operation ob \<and> co_tenant old = t \<and> co_source old = i \<and>
         list_ex (\<lambda>newer. co_tenant newer = co_tenant old \<and> co_kind newer = RefundOp \<and> co_source newer = co_source old \<and>
           co_generation newer > co_generation old) (channel_operations d)) (channel_operations d)) (channel_observations d)"

definition opt_string :: "string option \<Rightarrow> string" where
  "opt_string x = (case x of None \<Rightarrow> '''' | Some s \<Rightarrow> s)"

definition refund_succeeded :: "string \<Rightarrow> refund_row \<Rightarrow> refund_event \<Rightarrow> unit tx" where
  "refund_succeeded t r v =
     (let receipt = \<lparr>rr_provider = rv_provider v, rr_merchant = rv_merchant v,
        rr_provider_refund = opt_string (rv_provider_refund v), rr_tenant = t, rr_refund = rf_id r, rr_amount = rv_amount v\<rparr> in
      tseq (claim_cash_refund_transaction \<lparr>cf_provider = rv_provider v, cf_merchant = rv_merchant v,
        cf_provider_refund = opt_string (rv_provider_refund v), cf_tenant = t, cf_for_order = True, cf_source = rf_id r,
        cf_amount = rv_amount v, cf_transaction = opt_string (rv_transaction v)\<rparr>)
      (tseq (insert_refund_receipt receipt)
      (tbind (tread (\<lambda>d. find (same_refund_receipt receipt) (refund_receipts d))) (\<lambda>row.
       tbind (tsome row TypeErr) (\<lambda>claimed.
       tseq (tguard (\<not> (rr_refund claimed \<noteq> rf_id r \<or>
          (rf_provider_refund r \<noteq> None \<and> rf_provider_refund r \<noteq> rv_provider_refund v))) (RefundErr InvalidRefundEvent))
       (complete_refund t r (rv_provider_refund v)))))))"

definition refund_failed :: "string \<Rightarrow> refund_row \<Rightarrow> refund_event \<Rightarrow> unit tx" where
  "refund_failed t r v =
     twhen (rf_status r \<noteq> RfSucceeded)
       (tbind (tread (superseded_by_retry t (rf_id r) v)) (\<lambda>old.
        twhen (\<not> old) (update_refund t (rf_id r) (refund_status_to RfFailed))))"

definition settle_refund_work :: "string \<Rightarrow> refund_event \<Rightarrow> refund_row tx" where
  "settle_refund_work t v =
     tbind (refund_in_transaction t (rv_refund v)) (\<lambda>r.
     tbind (tread (payment_row_of t (rf_payment r))) (\<lambda>prow.
     tbind (tsome prow TypeErr) (\<lambda>p.
     tseq (tguard (refund_event_fits v p r) (RefundErr InvalidRefundEvent))
     (tbind (tenv (\<lambda>E. (refund_event_hash E v, request_hash E (refund_event_json v)))) (\<lambda>(hash, old_hash).
      tbind (tread (\<lambda>d. find (same_refund_event v) (refund_events d))) (\<lambda>existing.
      case existing of
        Some e \<Rightarrow> tseq (tguard (\<not> (re_hash e \<noteq> hash \<and> re_hash e \<noteq> old_hash)) (RefundErr RefundEventReused)) (tret r)
      | None \<Rightarrow>
          tseq (if rv_succeeded v then refund_succeeded t r v else refund_failed t r v)
          (tseq (insert_refund_event \<lparr>re_provider = rv_provider v, re_merchant = rv_merchant v, re_event = rv_event v,
             re_tenant = t, re_refund = rf_id r, re_hash = hash, re_failed = (\<not> rv_succeeded v)\<rparr>)
          (tseq (record_tenant_audit (system_actor t) ''refund.event'' (rf_id r)
             [(''status'', status_json (rv_succeeded v)), (''eventId'', JStr (rv_event v))])
          (refund_in_transaction t (rf_id r)))))))))) "

text \<open>The row is located before the transaction that works on it.\<close>

definition settle_verified_refund :: "bool \<Rightarrow> refund_event \<Rightarrow> refund_row op" where
  "settle_verified_refund verified v =
     checked (guardE verified (RefundErr InvalidRefundEvent)) (\<lambda>_.
     op_bind (run_tx (tread (\<lambda>d. find (\<lambda>r. rf_id r = rv_refund v) (refunds d)))) (\<lambda>located.
     case located of
       None \<Rightarrow> (\<lambda>E d. (Inl (RefundErr InvalidRefundEvent), d))
     | Some r \<Rightarrow> run_more (settle_refund_work (rf_tenant r) v)))"

section \<open>Invariants\<close>

definition same_refund :: "(instant \<Rightarrow> refund_row \<Rightarrow> refund_row) \<Rightarrow> bool" where
  "same_refund f \<longleftrightarrow> (\<forall>now r. rf_id (f now r) = rf_id r \<and> rf_tenant (f now r) = rf_tenant r \<and>
     rf_payment (f now r) = rf_payment r \<and> rf_order (f now r) = rf_order r \<and> rf_group (f now r) = rf_group r \<and>
     rf_amount (f now r) = rf_amount r \<and> rf_wallet (f now r) = rf_wallet r \<and> rf_external (f now r) = rf_external r)"

lemma same_rows_refunds [same_rows]:
  "same_refund (completed_refund pr)" "same_refund (refund_status_to st)" "same_order (refreshed_order paid back any)"
  by (simp_all add: same_refund_def completed_refund_def refund_status_to_def same_order_def refreshed_order_def)

lemma reads_refund_readers [reads_intros]:
  "reads_only (refund_in_transaction t i)" "reads_only (refund_group_in_transaction t g)"
  unfolding refund_in_transaction_def refund_group_in_transaction_def by (intro reads_intros)+

text \<open>A row located before the transaction.\<close>

lemma op_keeps_found: "(\<And>r. op_keeps I (f r)) \<Longrightarrow> op_keeps I (case x of None \<Rightarrow> (\<lambda>E d. (Inl e, d)) | Some r \<Rightarrow> f r)"
  by (cases x) (simp_all add: op_keeps_def)

text \<open>An invariant that everything keeps that follows once a refund is on record.\<close>

locale refund_settling = channel_invariant +
  assumes inv_update_refund: "T t \<Longrightarrow> same_refund f \<Longrightarrow> keeps I (update_refund t i f)"
    and inv_refund_event: "T (re_tenant e) \<Longrightarrow> keeps I (insert_refund_event e)"
    and inv_refund_receipt: "T (rr_tenant rr) \<Longrightarrow> keeps I (insert_refund_receipt rr)"
    and inv_refund_line: "T (rl_tenant l) \<Longrightarrow> keeps I (insert_refund_line l)"
    and inv_refund_group_row: "T (rg_tenant g) \<Longrightarrow> keeps I (insert_group g)"
    and inv_give_back: "T t \<Longrightarrow> keeps I (give_back t c i p)"
    and inv_refund_wallet: "T t \<Longrightarrow> keeps I (lock_wallet t c)"
    and inv_refresh: "T t \<Longrightarrow> keeps I (refresh_order_payment_status t i)"
begin

lemma keeps_complete_refund: "T t \<Longrightarrow> keeps I (complete_refund t r pr)"
  unfolding complete_refund_def
  by (intro keeps_intros inv_give_back inv_refund_wallet inv_update_refund inv_refresh same_rows)

lemma keeps_record_line: "T t \<Longrightarrow> keeps I (record_line t i first e)"
  unfolding record_line_def by (intro keeps_intros inv_refund_line) simp

lemma keeps_retry_work: "T (ac_tenant a) \<Longrightarrow> keeps I (retry_work a i)"
  unfolding retry_work_def
  by (intro keeps_intros keeps_base keeps_channel inv_update_refund same_rows keeps_reading [OF reads_refund_readers(1)])

lemma keeps_settle_refund_work: "T t \<Longrightarrow> keeps I (settle_refund_work t v)"
  unfolding settle_refund_work_def refund_succeeded_def refund_failed_def Let_def
  by (intro keeps_intros keeps_base keeps_channel inv_refund_event inv_refund_receipt keeps_complete_refund inv_update_refund
      same_rows keeps_reading [OF reads_refund_readers(1)]) (simp_all add: system_actor_def)

end

text \<open>An invariant that the refunds' rows keep one by one.\<close>

locale refund_writes = refund_settling +
  assumes inv_insert_refund: "T (rf_tenant r) \<Longrightarrow> keeps I (insert_refund r)"
    and inv_refund_allocation: "T (ra_tenant p) \<Longrightarrow> keeps I (insert_refund_allocation p)"
begin

lemma keeps_refund_payment:
  "T (ac_tenant a) \<Longrightarrow> keeps I (refund_payment a r reason gid ls first remainders payment mine)"
  unfolding refund_payment_def Let_def allocate_back_def
  by (intro keeps_intros keeps_counters inv_insert_refund inv_refund_allocation keeps_record_line keeps_complete_refund
      keeps_channel keeps_reading [OF reads_refund_readers(1)]) (simp_all add: new_refund_def)

lemma keeps_refund_payments:
  "T (ac_tenant a) \<Longrightarrow> keeps I (refund_payments a r reason gid ls first remainders ps)"
  by (induction ps arbitrary: first remainders) (auto intro!: keeps_intros keeps_refund_payment)

end

text \<open>An invariant that the group of refunds keeps as a whole.\<close>

locale refund_grouping = refund_settling + release_invariant +
  assumes inv_refund_group: "T (ac_tenant a) \<Longrightarrow> keeps I (create_refund_group a i reason ls amendment)"
begin

lemma keeps_refund_work: "T (ac_tenant a) \<Longrightarrow> keeps I (refund_work a i expected reason ls legacy)"
  unfolding refund_work_def Let_def
  by (intro keeps_intros keeps_base keeps_order_readers inv_refund_group keeps_reading [OF reads_refund_readers(2)])
    (auto split: list.split intro: keeps_intros)

end

text \<open>With the bookings' writes, the group of refunds keeps what every row keeps.\<close>

locale refund_orders = refund_writes + order_writes
begin

lemma keeps_cancel_refunded: "T t \<Longrightarrow> keeps I (cancel_refunded t l)"
  unfolding cancel_refunded_def by (intro keeps_intros inv_update_lines keeps_release same_rows) simp_all

lemma keeps_refund_group: "T (ac_tenant a) \<Longrightarrow> keeps I (create_refund_group a i reason ls amendment)"
  unfolding create_refund_group_def Let_def
  by (intro keeps_intros keeps_base keeps_order_readers inv_refund_group_row keeps_refund_payments keeps_cancel_refunded
      inv_update_order same_rows) simp_all

end

sublocale refund_orders \<subseteq> refund_grouping
  by unfold_locales (rule keeps_refund_group)

interpretation refunds_receipts: refund_orders "\<lambda>d. receipts d = rs" "\<lambda>_. True" for rs
proof
  show "keeps (\<lambda>d. receipts d = rs) (give_back t c i p)" for t c i p
    unfolding give_back_def by (intro keeps_intros wallet_receipts.inv_adjust_batch wallet_receipts.keeps_append_entry) (simp_all add: give_back_row_def)
  show "keeps (\<lambda>d. receipts d = rs) (refresh_order_payment_status t i)" for t i
    unfolding refresh_order_payment_status_def by (intro keeps_intros orders_receipts.inv_update_order same_rows TrueI)
qed (auto simp: keeps_def update_refund_def insert_refund_event_def insert_refund_receipt_def insert_refund_line_def
      insert_group_def insert_refund_def insert_refund_allocation_def lock_wallet_def ok_iff)

lemma refund_works_receipts:
  "no_receipts (refund_work a i expected reason ls legacy)" "no_receipts (retry_work a i)"
  unfolding no_receipts_def by (blast intro: refunds_receipts.keeps_refund_work refunds_receipts.keeps_retry_work)+

text \<open>The operations.\<close>

locale refund_invariant = refund_grouping + command_invariant
begin

lemma op_keeps_first: "op_keeps I m \<Longrightarrow> op_keeps I (first_refund m)"
  unfolding first_refund_def by (intro op_keeps_bind) (auto simp: op_keeps_def op_ret_def split: list.split)

lemma request_group_inv: "T (ac_tenant a) \<Longrightarrow> op_keeps I (request_group a i expected reason key ls legacy)"
  unfolding request_group_def
  by (intro keeps_intros op_keeps_booking keeps_base keeps_order_readers keeps_expire_amendments inv_idempotent keeps_refund_work
      keeps_reading [OF reads_refund_readers(2)] refund_works_receipts)

lemma request_refund_inv:
  "T (ac_tenant a) \<Longrightarrow> op_keeps I (request_order_refund a i expected reason key ls)"
  "T (ac_tenant a) \<Longrightarrow> op_keeps I (request_order_refund_group a i expected reason key ls)"
  unfolding request_order_refund_def request_order_refund_group_def by (intro op_keeps_first request_group_inv; assumption)+

lemma get_refund_inv:
  "T (ac_tenant a) \<Longrightarrow> op_keeps I (get_refund a i)" "T (ac_tenant a) \<Longrightarrow> op_keeps I (get_refund_group a i)"
  unfolding get_refund_def get_refund_group_def
  by (intro keeps_intros op_keeps_booking keeps_order_readers keeps_reading [OF reads_refund_readers(1)]
      keeps_reading [OF reads_refund_readers(2)]; assumption)+

lemma retry_failed_refund_inv: "T (ac_tenant a) \<Longrightarrow> op_keeps I (retry_failed_refund a i key)"
  unfolding retry_failed_refund_def
  by (intro keeps_intros op_keeps_booking keeps_base keeps_order_readers inv_idempotent keeps_retry_work
      keeps_reading [OF reads_refund_readers(1)] refund_works_receipts)

lemma settle_verified_refund_inv: "(\<And>t. T t) \<Longrightarrow> op_keeps I (settle_verified_refund verified v)"
  unfolding settle_verified_refund_def
  by (intro op_keeps_checked op_keeps_bind op_keeps_tx keeps_tread)
    (auto intro!: op_keeps_found op_keeps_run_more keeps_settle_refund_work)

end

locale refund_commands = refund_orders + command_invariant

sublocale refund_commands \<subseteq> refund_invariant
  by unfold_locales

end
