(* ===== verification/Amendments.thy ===== *)
theory Amendments
  imports Refunds
begin

text \<open>
  packages/db/src/tennis/amendments.ts: changing the court and the time of lines of an order. An
  amendment is quoted, holds the court time that is new to the order while a supplement is
  awaited, and is applied: the lines move, the order is priced anew, and what is returned becomes a
  group of refunds. The expiry and the release are in Orders.
\<close>

section \<open>The tables\<close>

definition insert_amendment :: "amendment_row \<Rightarrow> unit tx" where
  "insert_amendment r =
     tseq (tguard (amendment_checks r) (SqlErr CheckViolation))
     (tseq (tcheck (\<lambda>d. amendments_unique (amendments d @ [r])) (SqlErr UniqueViolation))
     (tmodify (\<lambda>d. d\<lparr>amendments := amendments d @ [r]\<rparr>)))"

definition amendment_line_checks :: "amendment_line_row \<Rightarrow> bool" where
  "amendment_line_checks r \<longleftrightarrow> 0 \<le> al_suggested r \<and>
     (case al_approved r of None \<Rightarrow> True | Some n \<Rightarrow> 0 \<le> n \<and> n \<le> al_suggested r)"

definition insert_amendment_line :: "amendment_line_row \<Rightarrow> unit tx" where
  "insert_amendment_line r =
     tseq (tguard (amendment_line_checks r) (SqlErr CheckViolation))
     (tseq (tcheck (\<lambda>d. \<not> list_ex (\<lambda>q. al_tenant q = al_tenant r \<and> al_amendment q = al_amendment r \<and> al_line q = al_line r)
         (amendment_lines d)) (SqlErr UniqueViolation))
     (tmodify (\<lambda>d. d\<lparr>amendment_lines := amendment_lines d @ [r]\<rparr>)))"

definition approve_row :: "string \<Rightarrow> string \<Rightarrow> string \<Rightarrow> cents \<Rightarrow> amendment_line_row \<Rightarrow> amendment_line_row" where
  "approve_row t i l n r =
     (if al_tenant r = t \<and> al_amendment r = i \<and> al_line r = l then r\<lparr>al_approved := Some n\<rparr> else r)"

definition approve_line :: "string \<Rightarrow> string \<Rightarrow> string \<Rightarrow> cents \<Rightarrow> unit tx" where
  "approve_line t i l n =
     tseq (tcheck (\<lambda>d. list_all amendment_line_checks (map (approve_row t i l n) (amendment_lines d))) (SqlErr CheckViolation))
     (tmodify (\<lambda>d. d\<lparr>amendment_lines := map (approve_row t i l n) (amendment_lines d)\<rparr>))"

section \<open>Checks\<close>

definition locate_amendment :: "actor \<Rightarrow> string \<Rightarrow> permission \<Rightarrow> (string \<times> string) tx" where
  "locate_amendment a i p =
     tbind (tread (find_amendment (ac_tenant a) i)) (\<lambda>row.
     tbind (tsome row (AccessErr ResourceNotFound)) (\<lambda>r.
     tbind (locate_order a (am_order r)) (\<lambda>v.
     tseq (require_booking_venue a v p) (tret (v, am_order r)))))"

definition employee :: "actor \<Rightarrow> err + unit" where
  "employee a = guardE (\<not> is_customer_actor a) (AccessErr TenantAccessDenied)"

text \<open>A payment of the order that failed for good leaves nothing behind.\<close>

definition unresolved_payment :: "string \<Rightarrow> string \<Rightarrow> db \<Rightarrow> bool" where
  "unresolved_payment t i d \<longleftrightarrow> list_ex (\<lambda>p. py_tenant p = t \<and> py_order p = i \<and>
     (py_status p \<notin> {Failed, PExpired, PCancelled} \<or> py_transaction p \<noteq> None \<or>
      list_ex (\<lambda>r. er_tenant r = t \<and> er_payment r = py_id p) (external_receipts d) \<or>
      list_ex (\<lambda>x. fx_tenant x = t \<and> fx_payment x = py_id p) (exceptions d))) (payments d)"

definition held_after :: "order_row \<Rightarrow> instant \<Rightarrow> bool" where
  "held_after r now = (case or_hold_until r of None \<Rightarrow> False | Some h \<Rightarrow> h > now)"

definition assert_unpaid_editable :: "string \<Rightarrow> order_row \<Rightarrow> unit tx" where
  "assert_unpaid_editable t r =
     tbind tclock (\<lambda>now.
     tseq (tguard (or_status r = Held \<and> or_payment r = Unpaid \<and> held_after r now) (AmendmentErr OrderNotAmendable))
     (tbind (tread (unresolved_payment t (or_id r))) (\<lambda>unresolved.
      tguard (\<not> unresolved) (AmendmentErr UnpaidOrderPaymentUnresolved))))"

text \<open>A line of the amendment with its new time as instants.\<close>

type_synonym timed_line = "amendment_line_row \<times> parsed_interval"

definition timed_line :: "amendment_line_row \<Rightarrow> interval_error + timed_line" where
  "timed_line l = bindE (price_span (al_new l)) (\<lambda>p. Inr (l, snd p))"

type_synonym court_span = "string \<times> instant \<times> instant"

definition spans_overlap :: "court_span \<Rightarrow> court_span \<Rightarrow> bool" where
  "spans_overlap x y \<longleftrightarrow> fst x = fst y \<and> fst (snd x) < snd (snd y) \<and> snd (snd x) > fst (snd y)"

definition new_span :: "timed_line \<Rightarrow> court_span" where
  "new_span l = (cp_court (al_new (fst l)), snd l)"

definition final_spans :: "order_line_row list \<Rightarrow> timed_line list \<Rightarrow> court_span list" where
  "final_spans ls ts =
     map (\<lambda>l. (ol_court l, ol_start l, ol_end l))
       (filter (\<lambda>l. ol_cancelled l = None \<and> ol_id l \<notin> set (map (\<lambda>x. al_line (fst x)) ts)) ls) @ map new_span ts"

definition target_taken :: "string \<Rightarrow> timed_line list \<Rightarrow> string option \<Rightarrow> timed_line \<Rightarrow> db \<Rightarrow> bool" where
  "target_taken t ts own l d \<longleftrightarrow> list_ex (\<lambda>c. oc_tenant c = t \<and> oc_court c = cp_court (al_new (fst l)) \<and> oc_released c = None \<and>
     oc_start c < snd (snd l) \<and> oc_end c > fst (snd l) \<and> oc_id c \<notin> set (map (\<lambda>x. al_occupancy (fst x)) ts) \<and>
     (own = None \<or> oc_amendment c \<noteq> own)) (occupancies d)"

definition check_target :: "string \<Rightarrow> timed_line list \<Rightarrow> string option \<Rightarrow> instant \<Rightarrow> timed_line \<Rightarrow> unit tx" where
  "check_target t ts own now l =
     tseq (tguard (\<not> (al_old_start (fst l) \<le> now \<or> fst (snd l) \<le> now)) (AmendmentErr OrderNotAmendable))
     (tbind (tread (target_taken t ts own l)) (\<lambda>taken. tguard (\<not> taken) (InventoryErr InventoryConflict)))"

definition check_targets :: "string \<Rightarrow> string \<Rightarrow> timed_line list \<Rightarrow> string option \<Rightarrow> unit tx" where
  "check_targets t i ts own =
     tbind (order_in_transaction (system_actor t) i) (\<lambda>w.
     tseq (tguard (sorted_wrt (\<lambda>x y. \<not> spans_overlap x y) (final_spans (ow_lines w) ts)) (InventoryErr InventoryConflict))
     (tbind tclock (\<lambda>now. teach (check_target t ts own now) ts)))"

section \<open>The order priced anew\<close>

definition open_lines :: "string \<Rightarrow> string \<Rightarrow> db \<Rightarrow> order_line_row list" where
  "open_lines t i d = filter (\<lambda>l. ol_cancelled l = None) (lines_of t i d)"

definition repriced :: "order_line_row list \<Rightarrow> priced_selection \<Rightarrow> priced_selection" where
  "repriced ls p = p\<lparr>ps_lines := map ol_price ls, ps_total := sum_list (map ol_amount ls)\<rparr>"

definition unpaid_projection :: "order_line_row list \<Rightarrow> instant \<Rightarrow> order_row \<Rightarrow> order_row" where
  "unpaid_projection ls now r =
     (let v = sum_list (map ol_amount ls) in
      r\<lparr>or_total := (if ls = [] then or_total r else v),
        or_price := (if ls = [] then or_price r else repriced ls (or_price r)),
        or_status := (if ls = [] then Cancelled else if v = 0 then Confirmed else Held),
        or_payment := (if ls \<noteq> [] \<and> v = 0 then NotRequired else Unpaid),
        or_hold_until := (if ls = [] \<or> v = 0 then None else or_hold_until r),
        or_revision := or_revision r + 1, or_updated := now\<rparr>)"

definition refresh_unpaid_projection :: "string \<Rightarrow> string \<Rightarrow> unit tx" where
  "refresh_unpaid_projection t i =
     tbind (tread (open_lines t i)) (\<lambda>ls. update_order t i (unpaid_projection ls))"

definition drop_unpaid_line :: "instant \<Rightarrow> order_line_row \<Rightarrow> order_line_row" where
  "drop_unpaid_line now r = r\<lparr>ol_cancelled := Some now, ol_cancelled_before_payment := True, ol_funding := 0\<rparr>"

definition cancel_unpaid_lines_work :: "actor \<Rightarrow> string \<Rightarrow> int \<Rightarrow> string list \<Rightarrow> string \<Rightarrow> json tx" where
  "cancel_unpaid_lines_work a i expected ids reason =
     tbind (order_in_transaction a i) (\<lambda>w. let r = ow_row w; t = ac_tenant a in
     tseq (tguard (or_revision r = expected) (AmendmentErr AmStaleOrder))
     (tseq (assert_unpaid_editable t r)
     (tseq (assert_no_pending_amendment t (or_id r))
     (tseq (tguard (\<not> list_ex (\<lambda>k. \<not> list_ex (\<lambda>l. ol_id l = k \<and> ol_cancelled l = None) (ow_lines w)) ids) (AmendmentErr InvalidAmendment))
     (tseq (update_lines (\<lambda>l. ol_tenant l = t \<and> ol_order l = or_id r \<and> ol_id l \<in> set ids) drop_unpaid_line)
     (tseq (release_occupancies (\<lambda>c. oc_tenant c = t \<and> (\<exists>l\<in>set ids. oc_line c = Some l)))
     (tbind tclock (\<lambda>now.
      tseq (tguard (held_after r now) (AmendmentErr OrderNotAmendable))
      (tseq (refresh_unpaid_projection t (or_id r))
      (tseq (record_tenant_audit a ''order.cancel_unpaid_lines'' (or_id r) [(''reason'', JStr (js_trim reason)),
          (''lineIds'', line_ids_json ids), (''previousTotalCents'', JNum (or_total r))])
      (tret (order_result (or_id r)))))))))))))"

definition batch_ok :: "string \<Rightarrow> string list \<Rightarrow> bool" where
  "batch_ok reason ids \<longleftrightarrow> \<not> (blank reason \<or> length reason > 2000 \<or> ids = [] \<or> length ids > 100 \<or> \<not> distinct ids)"

definition cancel_unpaid_order_lines :: "actor \<Rightarrow> string \<Rightarrow> int \<Rightarrow> string list \<Rightarrow> string \<Rightarrow> string \<Rightarrow> order_record op" where
  "cancel_unpaid_order_lines a i expected ids reason key =
     checked (bindE (employee a) (\<lambda>_. guardE (batch_ok reason ids) (AmendmentErr InvalidAmendment))) (\<lambda>_.
     with_booking_transaction a
       (tbind (locate_order a i) (\<lambda>v.
        tseq (require_booking_venue a v PBook)
        (tbind (idempotent_command a v key ''order.cancel_unpaid_lines''
            (JObj [(''orderId'', JStr i), (''expectedRevision'', JNum expected),
               (''lineIds'', line_ids_json (sort_by str_le ids)), (''reason'', JStr reason)])
            (cancel_unpaid_lines_work a i expected ids reason))
          (result_order a)))))"

section \<open>Quoting an amendment\<close>

record amendment_change = selection_line +
  ac_line :: string

definition plain_selection :: "amendment_change \<Rightarrow> selection_line" where
  "plain_selection c = \<lparr>start_at = start_at c, end_at = end_at c, sl_court = sl_court c\<rparr>"

definition amendment_line ::
  "actor \<Rightarrow> order_line_row list \<Rightarrow> amendment_change \<times> court_price \<Rightarrow> amendment_line_row tx" where
  "amendment_line a ls e =
     tbind (tsome (find (\<lambda>l. ol_id l = ac_line (fst e) \<and> ol_cancelled l = None) ls) (AmendmentErr InvalidAmendment)) (\<lambda>old.
     tbind (tread (\<lambda>d. find (\<lambda>c. oc_tenant c = ac_tenant a \<and> oc_line c = Some (ol_id old) \<and> oc_released c = None) (occupancies d))) (\<lambda>row.
     tbind (tsome row (AmendmentErr OrderNotAmendable)) (\<lambda>c.
     tret \<lparr>al_tenant = ac_tenant a, al_amendment = '''', al_line = ol_id old, al_old_court = ol_court old,
       al_old_start = ol_start old, al_old_end = ol_end old, al_old_amount = ol_amount old, al_new = snd e,
       al_occupancy = oc_id c, al_cap_delta = 0, al_suggested = 0, al_approved = None\<rparr>)))"

definition line_id_order :: "env \<Rightarrow> amendment_line_row \<Rightarrow> amendment_line_row \<Rightarrow> bool" where
  "line_id_order E p q \<longleftrightarrow> e_locale_le E (al_line p) (al_line q)"

text \<open>How much each line costs more, and how much it may give back.\<close>

definition line_increase :: "bool \<Rightarrow> amendment_line_row \<Rightarrow> cents" where
  "line_increase unpaid l = (if unpaid then 0 else max 0 (cp_total (al_new l) - al_old_amount l))"

definition line_credit :: "(string \<times> cents) list \<Rightarrow> amendment_line_row \<Rightarrow> cents" where
  "line_credit remaining l = min (max 0 (al_old_amount l - cp_total (al_new l))) (refundable remaining (al_line l))"

definition funded_line :: "amendment_line_row \<times> cents \<times> cents \<times> cents \<Rightarrow> amendment_line_row" where
  "funded_line e = (case e of (l, inc, credit, transfer) \<Rightarrow> l\<lparr>al_cap_delta := inc - transfer, al_suggested := credit - transfer\<rparr>)"

definition fund_lines ::
  "bool \<Rightarrow> (string \<times> cents) list \<Rightarrow> amendment_line_row list \<Rightarrow> err + amendment_line_row list \<times> cents \<times> cents" where
  "fund_lines unpaid remaining ls =
     (let increases = map (line_increase unpaid) ls; credits = map (line_credit remaining) ls;
          inc = sum_list increases; credit = sum_list credits in
      bindE (case allocate_cents (min inc credit) credits of Inl e \<Rightarrow> Inl (PricingErr e) | Inr ts \<Rightarrow> Inr ts) (\<lambda>transfers.
      bindE (case assert_cents (max 0 (inc - credit)) of Inl e \<Rightarrow> Inl (PricingErr e) | Inr u \<Rightarrow> Inr u) (\<lambda>_.
      bindE (case assert_cents (max 0 (credit - inc)) of Inl e \<Rightarrow> Inl (PricingErr e) | Inr u \<Rightarrow> Inr u) (\<lambda>_.
      Inr (map funded_line (zip ls (zip increases (zip credits transfers))), max 0 (inc - credit), max 0 (credit - inc))))))"

definition quote_expiry :: "instant \<Rightarrow> booking_policy \<Rightarrow> bool \<Rightarrow> order_row \<Rightarrow> instant" where
  "quote_expiry now policy unpaid r =
     (let t = now + minutes (po_quote_minutes policy) in
      case (if unpaid then or_hold_until r else None) of None \<Rightarrow> t | Some h \<Rightarrow> min t h)"

definition new_amendment ::
  "actor \<Rightarrow> order_row \<Rightarrow> string \<Rightarrow> string \<Rightarrow> bool \<Rightarrow> string \<Rightarrow> booking_policy \<Rightarrow> instant \<Rightarrow> instant \<Rightarrow> cents \<Rightarrow> cents \<Rightarrow> amendment_row" where
  "new_amendment a r v i unpaid reason policy now created supplemental back_cents =
     \<lparr>am_id = i, am_tenant = ac_tenant a, am_venue = v, am_order = or_id r, am_customer = or_customer r,
      am_created_by = ac_subject a, am_base_revision = or_revision r, am_unpaid = unpaid, am_reason = js_trim reason,
      am_status = AmQuoted, am_expires = quote_expiry now policy unpaid r, am_hold_until = None,
      am_hold_minutes = po_hold_minutes policy, am_supplemental = supplemental, am_suggested = back_cents,
      am_approved = None, am_request = None, am_created = created, am_applied = None\<rparr>"

definition preview_work :: "actor \<Rightarrow> string \<Rightarrow> string \<Rightarrow> int \<Rightarrow> amendment_change list \<Rightarrow> string \<Rightarrow> amendment_record tx" where
  "preview_work a v i expected changes reason =
     (let t = ac_tenant a in
     tbind (order_in_transaction a i) (\<lambda>w. let r = ow_row w; unpaid = (or_status r = Held \<and> or_payment r = Unpaid) in
     tseq (tguard (or_revision r = expected) (AmendmentErr AmStaleOrder))
     (tseq (if unpaid then assert_unpaid_editable t r
        else tguard (\<not> (or_status r \<noteq> Confirmed \<or> or_payment r = Unpaid)) (AmendmentErr OrderNotAmendable))
     (tseq (assert_no_pending_amendment t (or_id r))
     (tbind (require_customer a (or_customer r)) (\<lambda>_.
     tbind (price_selection_in_transaction a v (map plain_selection changes) False) (\<lambda>price.
     tbind (if unpaid then tret [] else tread (refundable_lines t (or_id r))) (\<lambda>remaining.
     tbind (tmap (amendment_line a (ow_lines w)) (zip changes (ps_lines price))) (\<lambda>raw.
     tbind (tenv line_id_order) (\<lambda>le.
     tbind (tlift id (fund_lines unpaid remaining (sort_by le raw))) (\<lambda>(ls, supplemental, back_cents).
     tbind (tlift IntervalErr (mapE timed_line ls)) (\<lambda>ts.
     tseq (check_targets t (or_id r) ts None)
     (tbind tuuid (\<lambda>j.
      tbind (booking_policy_in_transaction t) (\<lambda>policy.
      tbind tclock (\<lambda>now. tbind tclock (\<lambda>created.
      tseq (insert_amendment (new_amendment a r v j unpaid reason policy now created supplemental back_cents))
      (tseq (teach (\<lambda>l. insert_amendment_line (l\<lparr>al_tenant := t, al_amendment := j\<rparr>)) ls)
      (tseq (record_tenant_audit a ''amendment.preview'' j [(''orderId'', JStr (or_id r)),
          (''supplementalCents'', JNum supplemental), (''suggestedRefundCents'', JNum back_cents)])
      (amendment_in_transaction t j))))))))))))))))))))"

definition preview_order_amendment ::
  "actor \<Rightarrow> string \<Rightarrow> int \<Rightarrow> amendment_change list \<Rightarrow> string \<Rightarrow> amendment_record op" where
  "preview_order_amendment a i expected changes reason =
     checked (bindE (employee a) (\<lambda>_. guardE (batch_ok reason (map ac_line changes)) (AmendmentErr InvalidAmendment))) (\<lambda>_.
     with_booking_transaction a
       (tbind (locate_order a i) (\<lambda>v.
        tseq (require_booking_venue a v PBook)
        (tbind (expire_venue_amendments (ac_tenant a) v) (\<lambda>_.
         preview_work a v i expected changes reason)))))"

section \<open>The new court time while a supplement is awaited\<close>

type_synonym span = "instant \<times> instant"

text \<open>What is left of a span without the time of an original line.\<close>

definition cut_span :: "instant \<Rightarrow> instant \<Rightarrow> span \<Rightarrow> span list" where
  "cut_span s e p =
     (if e \<le> fst p \<or> s \<ge> snd p then [p]
      else (if fst p < s then [(fst p, min s (snd p))] else []) @ (if e < snd p then [(max e (fst p), snd p)] else []))"

fun cut_spans :: "span list \<Rightarrow> span list \<Rightarrow> span list" where
  "cut_spans [] ps = ps"
| "cut_spans (o' # os) ps = cut_spans os (concat (map (cut_span (fst o') (snd o')) ps))"

definition coverage :: "timed_line list \<Rightarrow> timed_line \<Rightarrow> span list" where
  "coverage ts l =
     cut_spans (map (\<lambda>x. (al_old_start (fst x), al_old_end (fst x)))
       (filter (\<lambda>x. al_old_court (fst x) = cp_court (al_new (fst l))) ts)) [snd l]"

definition hold_span :: "string \<Rightarrow> string \<Rightarrow> string \<Rightarrow> span \<Rightarrow> unit tx" where
  "hold_span t i court p =
     tbind tuuid (\<lambda>j. insert_occupancy \<lparr>oc_id = j, oc_tenant = t, oc_court = court, oc_kind = Booking, oc_source = i,
       oc_start = fst p, oc_end = snd p, oc_revision = 1, oc_released = None, oc_line = None, oc_amendment = Some i\<rparr>)"

definition hold_new_coverage :: "string \<Rightarrow> string \<Rightarrow> timed_line list \<Rightarrow> unit tx" where
  "hold_new_coverage t i ts = teach (\<lambda>l. teach (hold_span t i (cp_court (al_new (fst l)))) (coverage ts l)) ts"

section \<open>Applying an amendment\<close>

definition staff_actor :: "string \<Rightarrow> string \<Rightarrow> actor" where
  "staff_actor t s = \<lparr>ac_subject = s, ac_tenant = t, ac_customer = None, ac_delegation = None, ac_gateway = None\<rparr>"

definition supplement_paid :: "string \<Rightarrow> amendment_row \<Rightarrow> db \<Rightarrow> bool" where
  "supplement_paid t m d \<longleftrightarrow>
     map (\<lambda>p. py_wallet p + py_external p)
       (filter (\<lambda>p. py_tenant p = t \<and> py_amendment p = Some (am_id m) \<and> py_status p = Succeeded) (payments d)) = [am_supplemental m]"

definition line_in_place :: "string \<Rightarrow> amendment_line_row \<Rightarrow> db \<Rightarrow> bool" where
  "line_in_place t l d \<longleftrightarrow> list_ex (\<lambda>c. oc_tenant c = t \<and> oc_id c = al_occupancy l \<and> oc_line c = Some (al_line l) \<and>
     oc_released c = None) (occupancies d)"

definition original_or_held :: "string \<Rightarrow> string \<Rightarrow> amendment_line_row list \<Rightarrow> occupancy_row \<Rightarrow> bool" where
  "original_or_held t i ls c \<longleftrightarrow> oc_tenant c = t \<and> (oc_id c \<in> set (map al_occupancy ls) \<or> oc_amendment c = Some i)"

definition move_line :: "bool \<Rightarrow> timed_line \<Rightarrow> instant \<Rightarrow> order_line_row \<Rightarrow> order_line_row" where
  "move_line unpaid l now r =
     (let p = al_new (fst l) in
      r\<lparr>ol_court := cp_court p, ol_start := fst (snd l), ol_end := snd (snd l), ol_amount := cp_total p,
        ol_price := p, ol_funding := (if unpaid then cp_total p else ol_funding r)\<rparr>)"

definition moved_occupancy :: "string \<Rightarrow> string \<Rightarrow> timed_line \<Rightarrow> string \<Rightarrow> occupancy_row" where
  "moved_occupancy t i l j =
     \<lparr>oc_id = j, oc_tenant = t, oc_court = cp_court (al_new (fst l)), oc_kind = Booking, oc_source = i,
       oc_start = fst (snd l), oc_end = snd (snd l), oc_revision = 1, oc_released = None, oc_line = Some (al_line (fst l)),
       oc_amendment = None\<rparr>"

definition apply_line :: "string \<Rightarrow> string \<Rightarrow> bool \<Rightarrow> timed_line \<Rightarrow> unit tx" where
  "apply_line t i unpaid l =
     tseq (update_lines (\<lambda>r. ol_tenant r = t \<and> ol_id r = al_line (fst l)) (move_line unpaid l))
     (tbind tuuid (\<lambda>j. insert_occupancy (moved_occupancy t i l j)))"

definition charged_lines :: "string \<Rightarrow> string \<Rightarrow> db \<Rightarrow> order_line_row list" where
  "charged_lines t i d = filter (\<lambda>l. \<not> ol_cancelled_before_payment l) (lines_of t i d)"

definition paid_projection :: "order_line_row list \<Rightarrow> instant \<Rightarrow> order_row \<Rightarrow> order_row" where
  "paid_projection ls now r =
     (let v = sum_list (map ol_amount ls) in
      r\<lparr>or_payment := (if or_payment r = NotRequired \<and> v > 0 then Paid else or_payment r), or_total := v,
        or_price := repriced ls (or_price r), or_revision := or_revision r + 1, or_updated := now\<rparr>)"

definition refresh_projection :: "string \<Rightarrow> string \<Rightarrow> bool \<Rightarrow> unit tx" where
  "refresh_projection t i unpaid =
     (if unpaid then refresh_unpaid_projection t i
      else tbind (tread (charged_lines t i)) (\<lambda>ls. update_order t i (paid_projection ls)))"

definition applied_amendment :: "instant \<Rightarrow> amendment_row \<Rightarrow> amendment_row" where
  "applied_amendment now r = r\<lparr>am_status := AmApplied, am_hold_until := None, am_applied := Some now\<rparr>"

definition approved_refunds :: "amendment_line_row list \<Rightarrow> refund_line_input list" where
  "approved_refunds ls =
     concat (map (\<lambda>l. case al_approved l of None \<Rightarrow> []
       | Some n \<Rightarrow> if n > 0 then [\<lparr>fi_line = al_line l, fi_cents = n, fi_cancel = False\<rparr>] else []) ls)"

definition in_time :: "amendment_row \<Rightarrow> order_row \<Rightarrow> timed_line list \<Rightarrow> instant \<Rightarrow> bool" where
  "in_time m r ts now \<longleftrightarrow>
     \<not> ((case (if am_status m = AmQuoted then Some (am_expires m) else am_hold_until m) of None \<Rightarrow> False | Some h \<Rightarrow> h \<le> now) \<or>
        (am_unpaid m \<and> (case or_hold_until r of None \<Rightarrow> False | Some h \<Rightarrow> h \<le> now)) \<or>
        list_ex (\<lambda>l. al_old_start (fst l) \<le> now \<or> fst (snd l) \<le> now) ts)"

definition apply_checks :: "string \<Rightarrow> actor \<Rightarrow> amendment_row \<Rightarrow> order_row \<Rightarrow> timed_line list \<Rightarrow> unit tx" where
  "apply_checks t a m r ts =
     tseq (tguard (or_revision r = am_base_revision m) (AmendmentErr AmStaleOrder))
     (tseq (if am_unpaid m then assert_unpaid_editable t r
        else tguard (or_status r = Confirmed) (AmendmentErr OrderNotAmendable))
     (tseq (twhen (am_supplemental m > 0)
        (tbind (tread (supplement_paid t m)) (\<lambda>paid. tguard paid (AmendmentErr AmendmentNotPayable))))
     (tbind tclock (\<lambda>now.
      tseq (tguard (\<not> (case am_hold_until m of None \<Rightarrow> False | Some h \<Rightarrow> h \<le> now)) (AmendmentErr AmendmentExpired))
      (tbind (price_selection_in_transaction a (am_venue m) (map (\<lambda>l. quoted_line (al_new (fst l))) ts) True) (\<lambda>_.
       tseq (check_targets t (or_id r) ts (Some (am_id m)))
       (teach (\<lambda>l. tbind (tread (line_in_place t (fst l))) (\<lambda>live. tguard live (AmendmentErr AmStaleOrder))) ts)))))))"

text \<open>The lines give their court time up, with what the amendment held, and take the new one.\<close>

definition apply_move :: "string \<Rightarrow> string \<Rightarrow> string \<Rightarrow> bool \<Rightarrow> timed_line list \<Rightarrow> unit tx" where
  "apply_move t i order unpaid ts =
     tseq (release_occupancies (original_or_held t i (map fst ts))) (teach (apply_line t order unpaid) ts)"

definition carry_out :: "string \<Rightarrow> string \<Rightarrow> actor \<Rightarrow> amendment_record \<Rightarrow> order_row \<Rightarrow> timed_line list \<Rightarrow> unit tx" where
  "carry_out t i a am r ts =
     (let m = ad_row am in
     tseq (apply_move t i (or_id r) (am_unpaid m) ts)
     (tbind tclock (\<lambda>now.
      tseq (tguard (in_time m r ts now) (AmendmentErr AmendmentExpired))
      (tseq (update_amendment t i applied_amendment)
      (tseq (refresh_projection t (or_id r) (am_unpaid m))
      (tseq (twhen (approved_refunds (ad_lines am) \<noteq> [])
         (tbind (create_refund_group a (or_id r) (am_reason m) (approved_refunds (ad_lines am)) (Some i)) (\<lambda>_. tret ())))
      (tseq (twhen (\<not> am_unpaid m) (refresh_order_payment_status t (or_id r)))
      (record_tenant_audit a ''amendment.apply'' i [(''orderId'', JStr (or_id r)),
         (''supplementalCents'', JNum (am_supplemental m)), (''approvedRefundCents'', j_opt JNum (am_approved m))]))))))))"

definition apply_amendment :: "string \<Rightarrow> string \<Rightarrow> unit tx" where
  "apply_amendment t i =
     tbind (amendment_in_transaction t i) (\<lambda>am. let m = ad_row am; a = staff_actor t (am_created_by m) in
     if am_status m = AmApplied then tret ()
     else
       tseq (tguard (am_status m \<in> {AmQuoted, AmAwaiting}) (AmendmentErr AmendmentNotPayable))
       (tbind (order_in_transaction a (am_order m)) (\<lambda>w.
       tbind (tlift IntervalErr (mapE timed_line (ad_lines am))) (\<lambda>ts.
       tseq (apply_checks t a m (ow_row w) ts) (carry_out t i a am (ow_row w) ts)))))"

section \<open>Confirming an amendment\<close>

type_synonym approval = "string \<times> cents"

definition approval_order :: "env \<Rightarrow> approval \<Rightarrow> approval \<Rightarrow> bool" where
  "approval_order E p q \<longleftrightarrow> e_locale_le E (fst p) (fst q)"

definition approval_json :: "string \<Rightarrow> approval list \<Rightarrow> json" where
  "approval_json i approved = JObj [(''amendmentId'', JStr i),
     (''approvedRefundLines'', JArr (map (\<lambda>p. JObj [(''lineId'', JStr (fst p)), (''refundCents'', JNum (snd p))]) approved))]"

definition amendment_result :: "string \<Rightarrow> json" where
  "amendment_result i = JObj [(''amendmentId'', JStr i)]"

definition unapproved :: "amendment_line_row list \<Rightarrow> approval list \<Rightarrow> bool" where
  "unapproved ls approved \<longleftrightarrow> list_ex (\<lambda>l. al_suggested l > 0 \<and> \<not> list_ex (\<lambda>p. fst p = al_line l) approved) ls"

definition approvable :: "amendment_line_row list \<Rightarrow> approval \<Rightarrow> bool" where
  "approvable ls p \<longleftrightarrow> list_ex (\<lambda>l. al_line l = fst p \<and> snd p \<le> al_suggested l) ls"

definition approved_cents :: "approval list \<Rightarrow> string \<Rightarrow> cents" where
  "approved_cents approved l = (case find (\<lambda>p. fst p = l) approved of None \<Rightarrow> 0 | Some p \<Rightarrow> snd p)"

definition confirmed_amendment :: "cents \<Rightarrow> json \<Rightarrow> instant \<Rightarrow> amendment_row \<Rightarrow> amendment_row" where
  "confirmed_amendment n request now r = r\<lparr>am_approved := Some n, am_request := Some request\<rparr>"

definition awaiting_amendment :: "instant \<Rightarrow> instant \<Rightarrow> amendment_row \<Rightarrow> amendment_row" where
  "awaiting_amendment deadline now r = r\<lparr>am_status := AmAwaiting, am_hold_until := Some deadline\<rparr>"

definition line_starts :: "timed_line list \<Rightarrow> instant list" where
  "line_starts ts = concat (map (\<lambda>l. [al_old_start (fst l), fst (snd l)]) ts)"

definition await_supplement :: "string \<Rightarrow> amendment_row \<Rightarrow> timed_line list \<Rightarrow> unit tx" where
  "await_supplement t m ts =
     tseq (hold_new_coverage t (am_id m) ts)
     (tbind tclock (\<lambda>before. let deadline = foldl min (before + minutes (am_hold_minutes m)) (line_starts ts) in
     (tbind tclock (\<lambda>now. tbind tclock (\<lambda>now'.
      tseq (tguard (\<not> (deadline \<le> now \<or> am_expires m \<le> now')) (AmendmentErr AmendmentExpired))
      (update_amendment t (am_id m) (awaiting_amendment deadline)))))))"

definition confirm_checks :: "actor \<Rightarrow> string \<Rightarrow> order_record \<Rightarrow> amendment_record \<Rightarrow> approval list \<Rightarrow> timed_line list tx" where
  "confirm_checks a v w am approved =
     (let t = ac_tenant a; r = ow_row w; m = ad_row am; ls = ad_lines am in
     tbind tclock (\<lambda>now.
     tseq (tguard (\<not> (am_status m \<noteq> AmQuoted \<or> am_expires m \<le> now)) (AmendmentErr AmendmentExpired))
     (tseq (tguard (or_revision r = am_base_revision m) (AmendmentErr AmStaleOrder))
     (tseq (twhen (am_unpaid m) (assert_unpaid_editable t r))
     (tseq (assert_no_pending_amendment t (or_id r))
     (tseq (twhen (am_suggested m > 0)
        (tseq (require_booking_venue a v PRefund) (tguard (\<not> unapproved ls approved) (AmendmentErr InvalidAmendment))))
     (tseq (tguard (list_all (approvable ls) approved) (AmendmentErr InvalidAmendment))
     (tseq (tlift PricingErr (assert_cents (sum_list (map snd approved))))
     (tbind (tlift IntervalErr (mapE timed_line ls)) (\<lambda>ts.
     tbind (price_selection_in_transaction a v (map (\<lambda>l. quoted_line (al_new l)) ls) True) (\<lambda>_.
     tseq (check_targets t (or_id r) ts None) (tret ts))))))))))))"

definition confirm_amendment_work :: "actor \<Rightarrow> string \<Rightarrow> string \<Rightarrow> string \<Rightarrow> approval list \<Rightarrow> json tx" where
  "confirm_amendment_work a v order i approved =
     (let t = ac_tenant a; request = approval_json i approved; whole = sum_list (map snd approved) in
     tbind (order_in_transaction a order) (\<lambda>w.
     tbind (amendment_in_transaction t i) (\<lambda>am. let m = ad_row am in
     tseq (tguard (am_created_by m = ac_subject a) (AccessErr ResourceNotFound))
     (case am_request m of
        Some q \<Rightarrow>
          tbind (tenv (\<lambda>E. request_hash E q = request_hash E request)) (\<lambda>same.
          tseq (tguard same (AmendmentErr AmendmentAlreadyConfirmed)) (tret (amendment_result (am_id m))))
      | None \<Rightarrow>
          tbind (confirm_checks a v w am approved) (\<lambda>ts.
          tseq (teach (\<lambda>l. approve_line t (am_id m) (al_line l) (approved_cents approved (al_line l))) (ad_lines am))
          (tseq (update_amendment t (am_id m) (confirmed_amendment whole request))
          (tseq (if am_supplemental m > 0 then await_supplement t m ts else apply_amendment t (am_id m))
          (tseq (record_tenant_audit a ''amendment.confirm'' (am_id m)
             [(''orderId'', JStr (or_id (ow_row w))), (''approvedRefundCents'', JNum whole)])
          (tret (amendment_result (am_id m)))))))))))"

definition check_approvals :: "approval list \<Rightarrow> err + unit" where
  "check_approvals approved =
     bindE (guardE (distinct (map fst approved)) (AmendmentErr InvalidAmendment)) (\<lambda>_.
     eachE (\<lambda>p. case assert_cents (snd p) of Inl e \<Rightarrow> Inl (PricingErr e) | Inr u \<Rightarrow> Inr u) approved)"

definition confirm_order_amendment :: "actor \<Rightarrow> string \<Rightarrow> string \<Rightarrow> approval list \<Rightarrow> amendment_record op" where
  "confirm_order_amendment a i key approvals =
     with_env (\<lambda>E. let approved = sort_by (approval_order E) approvals in
     checked (bindE (employee a) (\<lambda>_. check_approvals approved)) (\<lambda>_.
     with_booking_transaction a
       (tbind (locate_amendment a i PBook) (\<lambda>(v, order).
        tbind (expire_venue_amendments (ac_tenant a) v) (\<lambda>_.
        tbind (idempotent_command a v key ''amendment.confirm'' (approval_json i approved)
           (confirm_amendment_work a v order i approved)) (\<lambda>result.
        tbind (tsome (j_string ''amendmentId'' result) TypeErr) (amendment_in_transaction (ac_tenant a))))))))"

section \<open>The other operations\<close>

definition due_amendment_venues :: "env \<Rightarrow> instant \<Rightarrow> db \<Rightarrow> (string \<times> string) list" where
  "due_amendment_venues E now d =
     sort_by (\<lambda>p q. if fst p = fst q then e_collate_le E (snd p) (snd q) else e_collate_le E (fst p) (fst q))
       (remdups (map (\<lambda>r. (am_tenant r, am_venue r))
         (filter (\<lambda>r. am_status r = AmAwaiting \<and> (case am_hold_until r of None \<Rightarrow> False | Some h \<Rightarrow> h \<le> now)) (amendments d))))"

definition expire_due_amendments :: "int \<Rightarrow> string list op" where
  "expire_due_amendments limit =
     checked (guardE (\<not> (\<not> is_safe limit \<or> limit < 1 \<or> limit > 1000)) (AmendmentErr InvalidAmendment)) (\<lambda>_.
     op_bind (run_tx (tbind tclock (\<lambda>now. tbind (tenv (\<lambda>E. due_amendment_venues E now)) (\<lambda>due.
         tread (\<lambda>d. take (nat limit) (due d)))))) (\<lambda>vs.
     op_concat (\<lambda>p. run_more (expire_venue_amendments (fst p) (snd p))) vs))"

definition get_order_amendment :: "actor \<Rightarrow> string \<Rightarrow> amendment_record op" where
  "get_order_amendment a i = with_booking_transaction a
     (tbind (locate_amendment a i PRead) (\<lambda>(v, _).
      tbind (expire_venue_amendments (ac_tenant a) v) (\<lambda>_. amendment_in_transaction (ac_tenant a) i)))"

definition cancel_amendment_work :: "actor \<Rightarrow> string \<Rightarrow> string \<Rightarrow> json tx" where
  "cancel_amendment_work a i reason =
     tbind (amendment_in_transaction (ac_tenant a) i) (\<lambda>am. let m = ad_row am in
     tseq (tguard (am_status m \<noteq> AmApplied) (AmendmentErr AmendmentNotCancellable))
     (tseq (release_amendment_in_transaction (ac_tenant a) (am_id m) LapseCancelled)
     (tseq (record_tenant_audit a ''amendment.cancel'' (am_id m) [(''reason'', JStr (js_trim reason))])
     (tret (amendment_result (am_id m))))))"

definition cancel_order_amendment :: "actor \<Rightarrow> string \<Rightarrow> string \<Rightarrow> string \<Rightarrow> amendment_record op" where
  "cancel_order_amendment a i key reason =
     checked (bindE (employee a) (\<lambda>_. guardE (reason_ok reason) (AmendmentErr InvalidAmendment))) (\<lambda>_.
     with_booking_transaction a
       (tbind (locate_amendment a i PBook) (\<lambda>(v, order).
        tbind (order_in_transaction a order) (\<lambda>_.
        tbind (idempotent_command a v key ''amendment.cancel'' (JObj [(''amendmentId'', JStr i), (''reason'', JStr reason)])
           (cancel_amendment_work a i reason)) (\<lambda>_.
        amendment_in_transaction (ac_tenant a) i)))))"

definition newest_amendment :: "env \<Rightarrow> amendment_row \<Rightarrow> amendment_row \<Rightarrow> bool" where
  "newest_amendment E p q \<longleftrightarrow> am_created p > am_created q \<or> (am_created p = am_created q \<and> e_collate_le E (am_id p) (am_id q))"

definition list_order_amendments :: "actor \<Rightarrow> string \<Rightarrow> amendment_record list op" where
  "list_order_amendments a i = with_booking_transaction a
     (tbind (locate_order a i) (\<lambda>v.
      tseq (require_booking_venue a v PRead)
      (tbind (expire_venue_amendments (ac_tenant a) v) (\<lambda>_.
       tbind (tenv newest_amendment) (\<lambda>le.
       tbind (tread (\<lambda>d. map am_id (take 100 (sort_by le
           (filter (\<lambda>r. am_tenant r = ac_tenant a \<and> am_order r = i) (amendments d)))))) (\<lambda>ids.
       tmap (amendment_in_transaction (ac_tenant a)) ids))))))"

section \<open>Invariants\<close>

lemma same_rows_amendments [same_rows]:
  "same_order (unpaid_projection ls)" "same_order (paid_projection ls)" "same_line drop_unpaid_line" "same_line (move_line unpaid l)"
  "same_amendment applied_amendment" "same_amendment (confirmed_amendment n q)" "same_amendment (awaiting_amendment h)"
  by (simp_all add: same_order_def unpaid_projection_def paid_projection_def same_line_def drop_unpaid_line_def move_line_def
      same_amendment_def applied_amendment_def confirmed_amendment_def awaiting_amendment_def Let_def)

lemma reads_amendment_checks [reads_intros]:
  "reads_only (locate_amendment a i p)" "reads_only (assert_unpaid_editable t r)" "reads_only (check_targets t i ts own)"
  unfolding locate_amendment_def assert_unpaid_editable_def check_targets_def check_target_def by (intro reads_intros)+

lemma reads_amendment_line [reads_intros]: "reads_only (amendment_line a ls e)"
  unfolding amendment_line_def by (intro reads_intros)

lemma reads_apply_checks [reads_intros]: "reads_only (apply_checks t a m r ts)"
  unfolding apply_checks_def by (intro reads_intros)

lemma reads_confirm_checks [reads_intros]: "reads_only (confirm_checks a v w am approved)"
  unfolding confirm_checks_def Let_def by (intro reads_intros)

lemma staff_actor_tenant [simp]: "ac_tenant (staff_actor t s) = t"
  by (simp add: staff_actor_def)

locale amendment_rows = db_invariant +
  assumes inv_insert_amendment: "T (am_tenant m) \<Longrightarrow> keeps I (insert_amendment m)"
    and inv_insert_amendment_line: "T (al_tenant l) \<Longrightarrow> keeps I (insert_amendment_line l)"
    and inv_approve_line: "T t \<Longrightarrow> keeps I (approve_line t i k n)"
    and inv_set_amendment: "T t \<Longrightarrow> same_amendment f \<Longrightarrow> keeps I (update_amendment t i f)"
begin

lemmas keeps_amendment_readers = keeps_reading [OF reads_amendment_checks(1)] keeps_reading [OF reads_amendment_checks(2)]
  keeps_reading [OF reads_amendment_checks(3)] keeps_reading [OF reads_amendment_line] keeps_reading [OF reads_apply_checks]
  keeps_reading [OF reads_confirm_checks] keeps_reading [OF reads_require_customer] keeps_reading [OF reads_booking_policy]
  keeps_reading [OF reads_price_selection]

end

text \<open>An invariant that the changes of court time keep as wholes.\<close>

locale amendment_grouping = amendment_rows + refund_grouping +
  assumes inv_apply_amendment: "T t \<Longrightarrow> keeps I (apply_amendment t i)"
    and inv_hold_coverage: "T t \<Longrightarrow> keeps I (hold_new_coverage t i ts)"
    and inv_cancel_unpaid_lines: "T (ac_tenant a) \<Longrightarrow> keeps I (cancel_unpaid_lines_work a i expected ids reason)"
begin

lemma keeps_preview: "T (ac_tenant a) \<Longrightarrow> keeps I (preview_work a v i expected changes reason)"
  unfolding preview_work_def Let_def
  by (intro keeps_intros keeps_base keeps_order_readers keeps_amendment_readers inv_insert_amendment inv_insert_amendment_line)
    (simp_all add: new_amendment_def)

lemma keeps_confirm_amendment: "T (ac_tenant a) \<Longrightarrow> keeps I (confirm_amendment_work a v order i approved)"
  unfolding confirm_amendment_work_def await_supplement_def Let_def
  by (intro keeps_intros keeps_base keeps_order_readers keeps_amendment_readers inv_approve_line inv_set_amendment
      inv_hold_coverage inv_apply_amendment same_rows)

lemma keeps_cancel_amendment: "T (ac_tenant a) \<Longrightarrow> keeps I (cancel_amendment_work a i reason)"
  unfolding cancel_amendment_work_def Let_def
  by (intro keeps_intros keeps_base keeps_order_readers inv_release_amendment)

end

text \<open>An invariant that the rows keep one by one.\<close>

locale amendment_writes = amendment_rows + order_writes + refund_grouping
begin

lemma keeps_refresh_unpaid: "T t \<Longrightarrow> keeps I (refresh_unpaid_projection t i)"
  unfolding refresh_unpaid_projection_def by (intro keeps_intros inv_update_order same_rows)

lemma keeps_refresh_projection: "T t \<Longrightarrow> keeps I (refresh_projection t i unpaid)"
  unfolding refresh_projection_def by (intro keeps_intros keeps_refresh_unpaid inv_update_order same_rows)

lemma keeps_apply_move: "T t \<Longrightarrow> keeps I (apply_move t i order unpaid ts)"
  unfolding apply_move_def apply_line_def
  by (intro keeps_intros keeps_counters keeps_release inv_update_lines inv_insert_occupancy same_rows)
    (simp_all add: original_or_held_def moved_occupancy_def)

lemma keeps_apply_amendment: "T t \<Longrightarrow> keeps I (apply_amendment t i)"
  unfolding apply_amendment_def carry_out_def Let_def
  by (intro keeps_intros keeps_base keeps_order_readers keeps_amendment_readers keeps_apply_move inv_set_amendment
      keeps_refresh_projection inv_refund_group inv_refresh same_rows) simp_all

lemma keeps_hold_coverage: "T t \<Longrightarrow> keeps I (hold_new_coverage t i ts)"
  unfolding hold_new_coverage_def hold_span_def by (intro keeps_intros keeps_counters inv_insert_occupancy) simp_all

lemma keeps_cancel_unpaid_lines: "T (ac_tenant a) \<Longrightarrow> keeps I (cancel_unpaid_lines_work a i expected ids reason)"
  unfolding cancel_unpaid_lines_work_def Let_def
  by (intro keeps_intros keeps_base keeps_order_readers keeps_amendment_readers keeps_release inv_update_lines keeps_refresh_unpaid
      same_rows) simp_all

end

sublocale amendment_writes \<subseteq> amendment_grouping
  by unfold_locales (rule keeps_apply_amendment keeps_hold_coverage keeps_cancel_unpaid_lines; assumption)+

interpretation amendments_receipts: amendment_writes "\<lambda>d. receipts d = rs" "\<lambda>_. True" for rs
  by unfold_locales
    (auto simp: keeps_def insert_amendment_def insert_amendment_line_def approve_line_def update_amendment_def ok_iff)

lemma amendment_works_receipts:
  "no_receipts (cancel_unpaid_lines_work a i expected ids reason)" "no_receipts (confirm_amendment_work a v order i approved)"
  "no_receipts (cancel_amendment_work a i reason)"
  unfolding no_receipts_def
  by (blast intro: amendments_receipts.keeps_cancel_unpaid_lines amendments_receipts.keeps_confirm_amendment
      amendments_receipts.keeps_cancel_amendment)+

text \<open>The operations.\<close>

locale amendment_invariant = amendment_grouping + command_invariant
begin

lemma cancel_unpaid_lines_inv: "T (ac_tenant a) \<Longrightarrow> op_keeps I (cancel_unpaid_order_lines a i expected ids reason key)"
  unfolding cancel_unpaid_order_lines_def
  by (intro keeps_intros op_keeps_booking keeps_order_readers inv_idempotent inv_cancel_unpaid_lines
      keeps_reading [OF reads_result_order] amendment_works_receipts)

lemma preview_amendment_inv: "T (ac_tenant a) \<Longrightarrow> op_keeps I (preview_order_amendment a i expected changes reason)"
  unfolding preview_order_amendment_def
  by (intro keeps_intros op_keeps_booking keeps_order_readers keeps_expire_amendments keeps_preview)

lemma confirm_amendment_inv: "T (ac_tenant a) \<Longrightarrow> op_keeps I (confirm_order_amendment a i key approvals)"
  unfolding confirm_order_amendment_def Let_def
  by (intro keeps_intros op_keeps_booking keeps_order_readers keeps_amendment_readers keeps_expire_amendments inv_idempotent
      keeps_confirm_amendment amendment_works_receipts)

lemma get_amendment_inv: "T (ac_tenant a) \<Longrightarrow> op_keeps I (get_order_amendment a i)"
  unfolding get_order_amendment_def
  by (intro keeps_intros op_keeps_booking keeps_order_readers keeps_amendment_readers keeps_expire_amendments)

lemma list_amendments_inv: "T (ac_tenant a) \<Longrightarrow> op_keeps I (list_order_amendments a i)"
  unfolding list_order_amendments_def
  by (intro keeps_intros op_keeps_booking keeps_order_readers keeps_expire_amendments)

lemma cancel_amendment_inv: "T (ac_tenant a) \<Longrightarrow> op_keeps I (cancel_order_amendment a i key reason)"
  unfolding cancel_order_amendment_def
  by (intro keeps_intros op_keeps_booking keeps_order_readers keeps_amendment_readers inv_idempotent keeps_cancel_amendment
      amendment_works_receipts)

lemma expire_due_amendments_inv: "(\<And>t. T t) \<Longrightarrow> op_keeps I (expire_due_amendments n)"
  unfolding expire_due_amendments_def by (intro keeps_intros op_keeps_tx keeps_counters keeps_expire_amendments)

end

locale amendment_commands = amendment_writes + command_invariant

sublocale amendment_commands \<subseteq> amendment_invariant
  by unfold_locales

end
