(* ===== verification/Payments.thy ===== *)
theory Payments
  imports Amendments
begin

text \<open>
  packages/db/src/tennis/payments.ts: the payment of an order and of an amendment's supplement, by
  the wallet and a channel, and the settlement of the provider's answer: the booking is confirmed,
  the amendment applied, or the money kept for a refund and the booking let go.
\<close>

section \<open>Beginning a payment\<close>

definition opt_provider :: "merchant_binding option \<Rightarrow> provider" where
  "opt_provider b = (case b of None \<Rightarrow> WalletProvider | Some m \<Rightarrow> mb_provider m)"

definition opt_merchant :: "string \<Rightarrow> merchant_binding option \<Rightarrow> string" where
  "opt_merchant t b = (case b of None \<Rightarrow> ''wallet:'' @ t | Some m \<Rightarrow> mb_merchant m)"

definition new_payment ::
  "actor \<Rightarrow> string \<Rightarrow> string \<Rightarrow> string \<Rightarrow> string \<Rightarrow> string option \<Rightarrow> merchant_binding option \<Rightarrow> cents \<Rightarrow> cents \<Rightarrow> instant \<Rightarrow> payment_row" where
  "new_payment a v c i order amendment b external wallet now =
     \<lparr>py_id = i, py_tenant = ac_tenant a, py_venue = v, py_customer = c, py_order = order, py_amendment = amendment,
      py_provider = opt_provider b, py_merchant = opt_merchant (ac_tenant a) b, py_external = external, py_wallet = wallet,
      py_status = Pending, py_transaction = None, py_created_by = ac_subject a, py_created = now, py_settled = None\<rparr>"

definition has_pending_payment :: "string \<Rightarrow> string \<Rightarrow> db \<Rightarrow> bool" where
  "has_pending_payment t i d \<longleftrightarrow> list_ex (\<lambda>p. py_tenant p = t \<and> py_order p = i \<and> py_status p = Pending) (payments d)"

definition paid_payment :: "string option \<Rightarrow> instant \<Rightarrow> payment_row \<Rightarrow> payment_row" where
  "paid_payment x now r = r\<lparr>py_status := Succeeded, py_transaction := (case x of None \<Rightarrow> py_transaction r | Some s \<Rightarrow> Some s), py_settled := Some now\<rparr>"

definition paid_order :: "instant \<Rightarrow> order_row \<Rightarrow> order_row" where
  "paid_order now r = r\<lparr>or_status := Confirmed, or_payment := Paid, or_hold_until := None,
     or_revision := or_revision r + 1, or_updated := now\<rparr>"

text \<open>The wallet's part and the channel's part: the request to the channel is queued in the same transaction.\<close>

definition take_payment ::
  "actor \<Rightarrow> gateway \<Rightarrow> string \<Rightarrow> string \<Rightarrow> string \<Rightarrow> string option \<Rightarrow> cents \<Rightarrow> cents \<Rightarrow> (string \<Rightarrow> unit tx) \<Rightarrow>
     instant option \<Rightarrow> (string \<Rightarrow> unit tx) \<Rightarrow> (string \<times> merchant_binding option) tx" where
  "take_payment a gw v c order amendment external wallet still_open until free =
     (let t = ac_tenant a in
     tbind tuuid (\<lambda>i.
     tbind (if external > 0 then tbind (resolve_payment_merchant t gw) (\<lambda>b. tret (Some b)) else tret None) (\<lambda>b.
     tbind tclock (\<lambda>now.
     tseq (insert_payment (new_payment a v c i order amendment b external wallet now))
     (tseq (reserve_wallet t c i wallet)
     (tseq (still_open i)
     (tseq (case b of None \<Rightarrow> tret ()
        | Some m \<Rightarrow> tbind (tsome until TypeErr) (\<lambda>h. enqueue_payment_channel t OrderSource i m external h))
     (tseq (twhen (external = 0)
        (tseq (settle_wallet_reservation t c i True)
        (tseq (update_payment t i (paid_payment None)) (free i))))
     (tret (i, b))))))))))"

definition order_still_held :: "string \<Rightarrow> string \<Rightarrow> unit tx" where
  "order_still_held t i =
     tbind tclock (\<lambda>now.
     tbind (tread (\<lambda>d. list_ex (\<lambda>r. order_key t i r \<and> held_after r now) (orders d))) (\<lambda>live.
     tguard live (WalletErr OrderNotPayable)))"

definition payment_result :: "string \<Rightarrow> json" where
  "payment_result i = JObj [(''paymentId'', JStr i)]"

definition provider_json :: "merchant_binding option \<Rightarrow> json" where
  "provider_json b = JStr (provider_text (opt_provider b))"

definition order_payment_work :: "actor \<Rightarrow> gateway \<Rightarrow> string \<Rightarrow> string \<Rightarrow> cents \<Rightarrow> string option \<Rightarrow> json tx" where
  "order_payment_work a gw v i wallet reason =
     (let t = ac_tenant a in
     tbind (order_in_transaction a i) (\<lambda>w. let r = ow_row w; external = or_total r - wallet in
     tbind (require_customer a (or_customer r)) (\<lambda>_.
     tseq (tguard (\<not> (or_status r \<noteq> Held \<or> or_payment r \<noteq> Unpaid)) (WalletErr OrderNotPayable))
     (tseq (tguard (\<not> wallet > or_total r) (WalletErr InvalidWalletAmount))
     (tbind (tread (has_pending_payment t (or_id r))) (\<lambda>pending.
     tseq (tguard (\<not> pending) (WalletErr PaymentAlreadyPending))
     (tbind (take_payment a gw v (or_customer r) (or_id r) None external wallet (\<lambda>_. order_still_held t (or_id r)) (or_hold_until r)
        (\<lambda>_. update_order t (or_id r) paid_order)) (\<lambda>(p, b).
      tseq (record_tenant_audit a ''payment.begin'' p [(''orderId'', JStr (or_id r)), (''walletCents'', JNum wallet),
          (''externalCents'', JNum external), (''provider'', provider_json b), (''staffReason'', j_opt JStr reason)])
      (tret (payment_result p))))))))))"

definition staff_wallet :: "actor \<Rightarrow> string \<Rightarrow> cents \<Rightarrow> string option \<Rightarrow> err \<Rightarrow> unit tx" where
  "staff_wallet a v wallet reason e =
     twhen (\<not> is_customer_actor a \<and> wallet > 0)
       (tseq (require_booking_venue a v PManageMembers)
       (tguard (case reason of None \<Rightarrow> False | Some s \<Rightarrow> \<not> (blank s \<or> length s > 2000)) e))"

definition payment_request_fields :: "string \<Rightarrow> string \<Rightarrow> cents \<Rightarrow> string option \<Rightarrow> json" where
  "payment_request_fields k i wallet reason =
     JObj ([(k, JStr i), (''walletCents'', JNum wallet)] @ given_json ''staffReason'' reason)"

definition result_payment :: "string \<Rightarrow> json \<Rightarrow> payment_row tx" where
  "result_payment t result = tbind (tsome (j_string ''paymentId'' result) TypeErr) (payment_in_transaction t)"

definition check_cents :: "cents \<Rightarrow> err + unit" where
  "check_cents n = (case assert_cents n of Inl e \<Rightarrow> Inl (PricingErr e) | Inr u \<Rightarrow> Inr u)"

definition begin_order_payment :: "actor \<Rightarrow> gateway \<Rightarrow> string \<Rightarrow> cents \<Rightarrow> string \<Rightarrow> string option \<Rightarrow> payment_row op" where
  "begin_order_payment a gw i wallet key reason =
     checked (check_cents wallet) (\<lambda>_. with_booking_transaction a
       (tbind (locate_order a i) (\<lambda>v.
        tseq (require_booking_venue a v PBook)
        (tseq (staff_wallet a v wallet reason (WalletErr InvalidWalletAmount))
        (tbind (expire_venue_holds (ac_tenant a) v) (\<lambda>_.
         tbind (idempotent_command a v key ''order.payment'' (payment_request_fields ''orderId'' i wallet reason)
           (order_payment_work a gw v i wallet reason))
         (result_payment (ac_tenant a))))))))"

text \<open>amendments.ts, \<open>beginAmendmentPayment\<close>.\<close>

definition amendment_still_held :: "amendment_row \<Rightarrow> unit tx" where
  "amendment_still_held m =
     tbind tclock (\<lambda>now.
     tguard (\<not> (case am_hold_until m of None \<Rightarrow> False | Some h \<Rightarrow> h \<le> now)) (AmendmentErr AmendmentExpired))"

definition amendment_payment_work :: "actor \<Rightarrow> gateway \<Rightarrow> string \<Rightarrow> string \<Rightarrow> string \<Rightarrow> cents \<Rightarrow> string option \<Rightarrow> json tx" where
  "amendment_payment_work a gw v order i wallet reason =
     (let t = ac_tenant a in
     tbind (order_in_transaction a order) (\<lambda>w.
     tbind (amendment_in_transaction t i) (\<lambda>am. let m = ad_row am; external = am_supplemental m - wallet in
     tbind (require_customer a (am_customer m)) (\<lambda>_.
     tseq (tguard (\<not> (am_status m \<noteq> AmAwaiting \<or> or_revision (ow_row w) \<noteq> am_base_revision m \<or> wallet > am_supplemental m))
        (AmendmentErr AmendmentNotPayable))
     (tbind (tread (has_pending_payment t order)) (\<lambda>pending.
     tseq (tguard (\<not> pending) (AmendmentErr OrderAmendmentPending))
     (tbind (take_payment a gw v (am_customer m) order (Some (am_id m)) external wallet (\<lambda>_. amendment_still_held m) (am_hold_until m)
        (\<lambda>_. apply_amendment t (am_id m))) (\<lambda>(p, b).
      tseq (record_tenant_audit a ''amendment.payment'' p [(''amendmentId'', JStr (am_id m)), (''walletCents'', JNum wallet),
          (''externalCents'', JNum external), (''staffReason'', j_opt JStr reason)])
      (tret (payment_result p))))))))))"

definition begin_amendment_payment :: "actor \<Rightarrow> gateway \<Rightarrow> string \<Rightarrow> cents \<Rightarrow> string \<Rightarrow> string option \<Rightarrow> payment_row op" where
  "begin_amendment_payment a gw i wallet key reason =
     checked (check_cents wallet) (\<lambda>_. with_booking_transaction a
       (tbind (locate_amendment a i PBook) (\<lambda>(v, order).
        tseq (staff_wallet a v wallet reason (AmendmentErr InvalidAmendment))
        (tbind (expire_venue_amendments (ac_tenant a) v) (\<lambda>_.
         tbind (idempotent_command a v key ''amendment.payment'' (payment_request_fields ''amendmentId'' i wallet reason)
           (amendment_payment_work a gw v order i wallet reason))
         (result_payment (ac_tenant a)))))))"

definition get_order_payment :: "actor \<Rightarrow> string \<Rightarrow> payment_row op" where
  "get_order_payment a i = with_booking_transaction a
     (tbind (tread (find_payment (ac_tenant a) i)) (\<lambda>row.
      tbind (tsome row (AccessErr ResourceNotFound)) (\<lambda>p.
      tbind (locate_order a (py_order p)) (\<lambda>v.
      tseq (require_booking_venue a v PRead)
      (tbind (expire_venue_holds (ac_tenant a) v) (\<lambda>_. payment_in_transaction (ac_tenant a) i))))))"

section \<open>The provider's answer\<close>

text \<open>What settles a payment may do more in its transaction; the rest of the program passes nothing or a check.\<close>

record settlement_hook =
  ho_before :: "string \<Rightarrow> unit tx"
  ho_commit :: "string \<Rightarrow> unit tx"

definition no_hook :: settlement_hook where
  "no_hook = \<lparr>ho_before = (\<lambda>_. tret ()), ho_commit = (\<lambda>_. tret ())\<rparr>"

definition same_exception :: "exception_row \<Rightarrow> exception_row \<Rightarrow> bool" where
  "same_exception x y \<longleftrightarrow> fx_tenant y = fx_tenant x \<and> fx_payment y = fx_payment x \<and> fx_kind y = fx_kind x \<and>
     fx_transaction y = fx_transaction x"

definition insert_exception :: "exception_row \<Rightarrow> unit tx" where
  "insert_exception x = tmodify (\<lambda>d. if list_ex (same_exception x) (exceptions d) then d else d\<lparr>exceptions := exceptions d @ [x]\<rparr>)"

definition financial_exception :: "string \<Rightarrow> payment_row \<Rightarrow> payment_event \<Rightarrow> exception_kind \<Rightarrow> unit tx" where
  "financial_exception t p v k =
     tbind tuuid (\<lambda>i. insert_exception \<lparr>fx_id = i, fx_tenant = t, fx_payment = py_id p, fx_kind = k,
       fx_transaction = opt_string (ev_transaction v), fx_open = True, fx_external = ev_amount v\<rparr>)"

definition payment_event_json :: "payment_event \<Rightarrow> json" where
  "payment_event_json v =
     (case payment_facts v of JObj kvs \<Rightarrow> JObj (kvs @ [(''issuedAt'', JNum (ev_issued v))]) | j \<Rightarrow> j)"

definition same_payment_event :: "payment_event \<Rightarrow> payment_event_row \<Rightarrow> bool" where
  "same_payment_event v r \<longleftrightarrow> pe_provider r = ev_provider v \<and> pe_merchant r = ev_merchant v \<and> pe_event r = ev_event v"

definition insert_payment_event :: "payment_event_row \<Rightarrow> unit tx" where
  "insert_payment_event r =
     tseq (tcheck (\<lambda>d. \<not> list_ex (\<lambda>q. pe_provider q = pe_provider r \<and> pe_merchant q = pe_merchant r \<and> pe_event q = pe_event r)
        (payment_events d)) (SqlErr UniqueViolation))
     (tmodify (\<lambda>d. d\<lparr>payment_events := payment_events d @ [r]\<rparr>))"

definition same_external_receipt :: "external_receipt_row \<Rightarrow> external_receipt_row \<Rightarrow> bool" where
  "same_external_receipt r q \<longleftrightarrow> er_provider q = er_provider r \<and> er_merchant q = er_merchant r \<and> er_transaction q = er_transaction r"

definition insert_external_receipt :: "external_receipt_row \<Rightarrow> unit tx" where
  "insert_external_receipt r =
     tseq (tguard (0 < er_amount r) (SqlErr CheckViolation))
     (tmodify (\<lambda>d. if list_ex (same_external_receipt r) (external_receipts d) then d
        else d\<lparr>external_receipts := external_receipts d @ [r]\<rparr>))"

definition payment_event_fits :: "payment_event \<Rightarrow> payment_row \<Rightarrow> bool" where
  "payment_event_fits v p \<longleftrightarrow> \<not> (py_provider p \<noteq> ev_provider v \<or> py_merchant p \<noteq> ev_merchant v \<or> py_external p \<noteq> ev_amount v)"

text \<open>The transaction belongs to this payment.\<close>

definition claim_payment :: "string \<Rightarrow> payment_row \<Rightarrow> payment_event \<Rightarrow> unit tx" where
  "claim_payment t p v =
     (let receipt = \<lparr>er_provider = ev_provider v, er_merchant = ev_merchant v, er_transaction = opt_string (ev_transaction v),
        er_tenant = t, er_payment = py_id p, er_amount = ev_amount v\<rparr> in
      tseq (claim_channel_transaction \<lparr>cx_provider = ev_provider v, cx_merchant = ev_merchant v,
        cx_transaction = opt_string (ev_transaction v), cx_tenant = t, cx_source_type = OrderSource, cx_source = py_id p,
        cx_amount = ev_amount v\<rparr>)
      (tseq (insert_external_receipt receipt)
      (tbind (tread (\<lambda>d. find (same_external_receipt receipt) (external_receipts d))) (\<lambda>row.
       tbind (tsome row TypeErr) (\<lambda>claimed. tguard (er_payment claimed = py_id p) (WalletErr PaymentTransactionReused))))))"

definition refund_required :: "string option \<Rightarrow> instant \<Rightarrow> payment_row \<Rightarrow> payment_row" where
  "refund_required x now r = r\<lparr>py_status := RefundRequired, py_transaction := (case x of None \<Rightarrow> py_transaction r | Some s \<Rightarrow> Some s), py_settled := Some now\<rparr>"

definition failed_payment :: "instant \<Rightarrow> payment_row \<Rightarrow> payment_row" where
  "failed_payment now r = r\<lparr>py_status := Failed, py_settled := Some now\<rparr>"

definition keep_for_refund :: "string \<Rightarrow> payment_row \<Rightarrow> payment_event \<Rightarrow> string tx" where
  "keep_for_refund t p v =
     tseq (settle_wallet_reservation t (py_customer p) (py_id p) False)
     (tseq (update_payment t (py_id p) (refund_required (ev_transaction v)))
     (tseq (financial_exception t p v LatePayment) (tret ''REFUND_REQUIRED'')))"

text \<open>
  SAVEPOINT, and ROLLBACK TO it when a known business rule refuses; other errors pass. The clock
  readings and the identifiers of what was rolled back are used anew.
\<close>

fun business_error :: "err \<Rightarrow> bool" where
  "business_error (AmendmentErr _) = True"
| "business_error (CatalogErr _) = True"
| "business_error (PricingErr _) = True"
| "business_error (AccessErr _) = True"
| "business_error (InventoryErr _) = True"
| "business_error _ = False"

definition attempt :: "unit tx \<Rightarrow> bool tx" where
  "attempt m = (\<lambda>E d. case m E d of Inr (_, d') \<Rightarrow> Inr (True, d')
     | Inl e \<Rightarrow> if business_error e then Inr (False, d) else Inl e)"

definition settle_amendment :: "string \<Rightarrow> order_row \<Rightarrow> payment_row \<Rightarrow> string \<Rightarrow> payment_event \<Rightarrow> string tx" where
  "settle_amendment t r p i v =
     tbind (amendment_in_transaction t i) (\<lambda>am. let m = ad_row am in
     tbind (if py_status p = Pending \<and> am_status m = AmAwaiting \<and> or_status r = Confirmed \<and> or_revision r = am_base_revision m
        then attempt
          (tseq (settle_wallet_reservation t (py_customer p) (py_id p) True)
          (tseq (update_payment t (py_id p) (paid_payment (ev_transaction v))) (apply_amendment t i)))
        else tret False) (\<lambda>applied.
     if applied then tret ''SUCCEEDED''
     else tseq (release_amendment_in_transaction t i LapseCancelled) (keep_for_refund t p v)))"

definition payment_succeeded :: "string \<Rightarrow> order_row \<Rightarrow> payment_row \<Rightarrow> payment_event \<Rightarrow> string tx" where
  "payment_succeeded t r p v =
     tseq (claim_payment t p v)
     (case py_transaction p of
        Some x \<Rightarrow>
          if Some x = ev_transaction v then tret ''DUPLICATE_EVENT''
          else tseq (financial_exception t p v DuplicatePayment) (tret ''REFUND_REQUIRED'')
      | None \<Rightarrow>
          (case py_amendment p of
             Some i \<Rightarrow> settle_amendment t r p i v
           | None \<Rightarrow>
               if py_status p = Pending \<and> or_status r = Held \<and> or_payment r = Unpaid then
                 tseq (settle_wallet_reservation t (py_customer p) (py_id p) True)
                 (tseq (update_payment t (py_id p) (paid_payment (ev_transaction v)))
                 (tseq (update_order t (or_id r) paid_order) (tret ''SUCCEEDED'')))
               else keep_for_refund t p v))"

definition payment_failed :: "string \<Rightarrow> order_row \<Rightarrow> payment_row \<Rightarrow> string tx" where
  "payment_failed t r p =
     tseq (settle_wallet_reservation t (py_customer p) (py_id p) False)
     (tseq (update_payment t (py_id p) failed_payment)
     (tseq (case py_amendment p of
        Some i \<Rightarrow> release_amendment_in_transaction t i LapseCancelled
      | None \<Rightarrow>
          tseq (release_order_inventory t (or_id r))
          (tseq (update_lines (open_line_of t (or_id r)) cancel_line) (update_order t (or_id r) cancelled_order)))
     (tret ''FAILED'')))"

definition payment_outcome :: "string \<Rightarrow> order_row \<Rightarrow> payment_row \<Rightarrow> payment_event \<Rightarrow> string tx" where
  "payment_outcome t r p v =
     (if ev_succeeded v then payment_succeeded t r p v
      else if py_status p = Pending then payment_failed t r p
      else tret ''IGNORED'')"

definition settle_payment_work :: "settlement_hook \<Rightarrow> string \<Rightarrow> string \<Rightarrow> string \<Rightarrow> payment_event \<Rightarrow> payment_row tx" where
  "settle_payment_work h t venue i v =
     (let a = system_actor t in
     tseq (ho_before h t)
     (tbind (expire_venue_holds t venue) (\<lambda>_.
     tbind (expire_venue_amendments t venue) (\<lambda>_.
     tbind (order_in_transaction a i) (\<lambda>w.
     tbind (payment_in_transaction t (ev_payment v)) (\<lambda>p.
     tseq (tguard (payment_event_fits v p) (WalletErr InvalidPaymentEvent))
     (tbind (tenv (\<lambda>E. (payment_event_hash E v, request_hash E (payment_event_json v)))) (\<lambda>(hash, old_hash).
     tbind (tread (\<lambda>d. find (same_payment_event v) (payment_events d))) (\<lambda>existing.
     case existing of
       Some e \<Rightarrow>
         tseq (tguard (\<not> ((pe_hash e \<noteq> hash \<and> pe_hash e \<noteq> old_hash) \<or> pe_payment e \<noteq> py_id p)) (WalletErr PaymentEventReused))
         (tseq (ho_commit h t) (tret p))
     | None \<Rightarrow>
         tseq (twhen (or_status (ow_row w) = Held) (tbind (expire_venue_holds t venue) (\<lambda>_. tret ())))
         (tbind (order_in_transaction a i) (\<lambda>w'.
         tbind (payment_in_transaction t (ev_payment v)) (\<lambda>p'.
         tbind (payment_outcome t (ow_row w') p' v) (\<lambda>outcome.
         tseq (insert_payment_event \<lparr>pe_provider = ev_provider v, pe_merchant = ev_merchant v, pe_event = ev_event v,
            pe_tenant = t, pe_payment = py_id p', pe_hash = hash, pe_outcome = outcome\<rparr>)
         (tseq (record_tenant_audit a ''payment.event'' (py_id p')
            [(''eventId'', JStr (ev_event v)), (''outcome'', JStr outcome)])
         (tbind (payment_in_transaction t (py_id p')) (\<lambda>result.
          tseq (ho_commit h t) (tret result)))))))))))))))))"

definition rethrow_unique :: "err \<Rightarrow> err" where
  "rethrow_unique e = (case e of SqlErr UniqueViolation \<Rightarrow> WalletErr PaymentTransactionReused | _ \<Rightarrow> e)"

definition settle_verified_payment :: "bool \<Rightarrow> payment_event \<Rightarrow> settlement_hook \<Rightarrow> payment_row op" where
  "settle_verified_payment verified v h =
     checked (guardE verified (WalletErr InvalidPaymentEvent)) (\<lambda>_.
     op_bind (run_tx (tread (\<lambda>d. find (\<lambda>r. py_id r = ev_payment v) (payments d)))) (\<lambda>located.
     case located of
       None \<Rightarrow> (\<lambda>E d. (Inl (WalletErr InvalidPaymentEvent), d))
     | Some p \<Rightarrow> map_error rethrow_unique (run_more (settle_payment_work h (py_tenant p) (py_venue p) (py_order p) v))))"

section \<open>Invariants\<close>

lemma same_rows_payments [same_rows]:
  "same_payment (paid_payment x)" "same_payment (refund_required x)" "same_payment failed_payment" "same_order paid_order"
  "same_order cancelled_order"
  by (simp_all add: same_payment_def paid_payment_def refund_required_def failed_payment_def same_order_def paid_order_def cancelled_order_def)

lemma reads_payment_checks [reads_intros]:
  "reads_only (order_still_held t i)" "reads_only (amendment_still_held m)" "reads_only (result_payment t result)"
  "reads_only (staff_wallet a v wallet reason e)"
  unfolding order_still_held_def amendment_still_held_def result_payment_def staff_wallet_def by (intro reads_intros)+

lemma keeps_attempt: "keeps I m \<Longrightarrow> keeps I (attempt m)"
  by (auto simp: keeps_def attempt_def split: sum.splits if_splits)

lemma payment_fields [simp]:
  "py_tenant (new_payment a v c i order am b x w now) = ac_tenant a" "py_id (new_payment a v c i order am b x w now) = i"
  by (simp_all add: new_payment_def)

text \<open>A hook that keeps an invariant.\<close>

definition hook_keeps :: "(db \<Rightarrow> bool) \<Rightarrow> settlement_hook \<Rightarrow> bool" where
  "hook_keeps I h \<longleftrightarrow> (\<forall>t. keeps I (ho_before h t) \<and> keeps I (ho_commit h t))"

lemma no_hook_keeps: "hook_keeps I no_hook"
  by (simp add: hook_keeps_def no_hook_def keeps_tret)

locale payment_rows = db_invariant +
  assumes inv_insert_exception: "T (fx_tenant x) \<Longrightarrow> keeps I (insert_exception x)"
    and inv_payment_event: "T (pe_tenant e) \<Longrightarrow> keeps I (insert_payment_event e)"
    and inv_external_receipt: "T (er_tenant r) \<Longrightarrow> keeps I (insert_external_receipt r)"
    and inv_new_payment: "T (py_tenant p) \<Longrightarrow> keeps I (insert_payment p)"
    and inv_set_payment: "T t \<Longrightarrow> same_payment h \<Longrightarrow> keeps I (update_payment t i h)"
begin

lemmas keeps_payment_readers = keeps_reading [OF reads_payment_checks(1)] keeps_reading [OF reads_payment_checks(2)]
  keeps_reading [OF reads_payment_checks(3)] keeps_reading [OF reads_payment_checks(4)] keeps_reading [OF reads_require_customer]

lemma keeps_exception: "T t \<Longrightarrow> keeps I (financial_exception t p v k)"
  unfolding financial_exception_def by (intro keeps_intros keeps_counters inv_insert_exception) simp

end

text \<open>Money that arrives for something that is over, and the claims: all but the orders.\<close>

locale payment_money = payment_rows + wallet_invariant + channel_invariant
begin

lemma keeps_take_payment:
  assumes T: "T (ac_tenant a)" and still: "\<And>i. keeps I (still i)" and free: "\<And>i. keeps I (free i)"
  shows "keeps I (take_payment a gw v c order amendment external wallet still until free)"
  unfolding take_payment_def Let_def
  by (intro keeps_intros keeps_counters keeps_channel inv_new_payment inv_set_payment inv_reserve inv_settle still free same_rows)
    (simp_all add: T)

lemma keeps_claim_payment: "T t \<Longrightarrow> keeps I (claim_payment t p v)"
  unfolding claim_payment_def Let_def
  by (intro keeps_intros keeps_channel inv_external_receipt) simp_all

lemma keeps_for_refund: "T t \<Longrightarrow> keeps I (keep_for_refund t p v)"
  unfolding keep_for_refund_def by (intro keeps_intros inv_settle inv_set_payment keeps_exception same_rows)

end

text \<open>An invariant that the changes of orders keep as wholes; the order is the one on record.\<close>

locale payment_grouping = payment_money + amendment_grouping +
  assumes inv_order_payment: "T (ac_tenant a) \<Longrightarrow> keeps I (order_payment_work a gw v i wallet reason)"
    and inv_payment_outcome: "T t \<Longrightarrow> ensures (\<lambda>d. I d \<and> find_order t i d = Some r) (payment_outcome t r p e) (\<lambda>_. I)"
begin

lemma keeps_amendment_payment: "T (ac_tenant a) \<Longrightarrow> keeps I (amendment_payment_work a gw v order i wallet reason)"
  unfolding amendment_payment_work_def Let_def
  by (intro keeps_intros keeps_base keeps_order_readers keeps_payment_readers keeps_take_payment inv_apply_amendment)

lemma keeps_settle_amendment: "T t \<Longrightarrow> keeps I (settle_amendment t r p i v)"
  unfolding settle_amendment_def Let_def
  by (intro keeps_intros keeps_attempt keeps_order_readers inv_settle inv_set_payment inv_apply_amendment inv_release_amendment
      keeps_for_refund same_rows)

lemma keeps_settled_order:
  assumes T: "T t" and rest: "\<And>w p x. keeps I (f w p x)"
  shows "keeps I (tbind (order_in_transaction (system_actor t) i) (\<lambda>w. tbind (payment_in_transaction t k) (\<lambda>p.
     tbind (payment_outcome t (ow_row w) p e) (f w p))))"
proof (rule keepsI)
  fix E d x d' assume I: "I d" and "tbind (order_in_transaction (system_actor t) i) (\<lambda>w. tbind (payment_in_transaction t k) (\<lambda>p.
     tbind (payment_outcome t (ow_row w) p e) (f w p))) E d = Inr (x, d')"
  then obtain w d1 p d2 y d3 where 1: "order_in_transaction (system_actor t) i E d = Inr (w, d1)"
    and 2: "payment_in_transaction t k E d1 = Inr (p, d2)" and 3: "payment_outcome t (ow_row w) p e E d2 = Inr (y, d3)"
    and 4: "f w p y E d3 = Inr (x, d')"
    unfolding tbind_Inr by blast
  have "d2 = d" "find_order t i d = Some (ow_row w)"
    using order_in_transaction_Inr [OF 1] 2 by (auto simp: payment_in_transaction_def tbind_Inr tread_Inr tsome_Inr)
  then have "I d3" using ensuresD [OF inv_payment_outcome [OF T] _ 3] I by simp
  then show "I d'" using keepsD [OF rest _ 4] by simp
qed

lemma keeps_settle_payment: "T t \<Longrightarrow> hook_keeps I h \<Longrightarrow> keeps I (settle_payment_work h t v i e)"
  unfolding settle_payment_work_def Let_def hook_keeps_def
  by (intro keeps_intros keeps_settled_order keeps_base keeps_order_readers keeps_expire_holds keeps_expire_amendments inv_payment_event)
    (simp_all add: system_actor_def)

end

text \<open>An invariant that the rows keep one by one.\<close>

locale payment_writes = payment_rows + amendment_writes

sublocale payment_writes \<subseteq> payment_money
  by unfold_locales

context payment_writes
begin

lemma keeps_order_payment: "T (ac_tenant a) \<Longrightarrow> keeps I (order_payment_work a gw v i wallet reason)"
  unfolding order_payment_work_def Let_def
  by (intro keeps_intros keeps_base keeps_order_readers keeps_payment_readers keeps_take_payment inv_update_order same_rows)

lemma keeps_payment_succeeded: "T t \<Longrightarrow> keeps I (payment_succeeded t r p e)"
  unfolding payment_succeeded_def settle_amendment_def Let_def
  by (intro keeps_intros keeps_attempt keeps_order_readers keeps_claim_payment keeps_exception keeps_for_refund inv_settle
      inv_set_payment inv_apply_amendment inv_release_amendment inv_update_order same_rows)

lemma keeps_payment_failed: "T t \<Longrightarrow> keeps I (payment_failed t r p)"
  unfolding payment_failed_def
  by (intro keeps_intros inv_settle inv_set_payment inv_release_amendment keeps_release_order_inventory inv_update_lines
      inv_update_order same_rows) (simp_all add: open_line_of_def)

lemma ensures_payment_outcome: "T t \<Longrightarrow> ensures (\<lambda>d. I d \<and> find_order t i d = Some r) (payment_outcome t r p e) (\<lambda>_. I)"
proof -
  assume T: "T t"
  have "keeps I (payment_outcome t r p e)"
    unfolding payment_outcome_def by (intro keeps_intros keeps_payment_succeeded keeps_payment_failed T)
  then show "ensures (\<lambda>d. I d \<and> find_order t i d = Some r) (payment_outcome t r p e) (\<lambda>_. I)"
    unfolding keeps_ensures by (rule ensures_pre) simp
qed

end

sublocale payment_writes \<subseteq> payment_grouping
  by unfold_locales (rule keeps_order_payment ensures_payment_outcome; assumption)+

interpretation payments_receipts: payment_writes "\<lambda>d. receipts d = rs" "\<lambda>_. True" for rs
  by unfold_locales
    (auto simp: keeps_def insert_exception_def insert_payment_event_def insert_external_receipt_def insert_payment_def
      update_payment_def ok_iff)

lemma payment_works_receipts:
  "no_receipts (order_payment_work a gw v i wallet reason)" "no_receipts (amendment_payment_work a gw v order i wallet reason)"
  unfolding no_receipts_def
  by (blast intro: payments_receipts.keeps_order_payment payments_receipts.keeps_amendment_payment)+

text \<open>The operations.\<close>

locale payment_invariant = payment_grouping + command_invariant
begin

lemma begin_order_payment_inv: "T (ac_tenant a) \<Longrightarrow> op_keeps I (begin_order_payment a gw i wallet key reason)"
  unfolding begin_order_payment_def
  by (intro keeps_intros op_keeps_booking keeps_order_readers keeps_payment_readers keeps_expire_holds inv_idempotent
      inv_order_payment payment_works_receipts)

lemma begin_amendment_payment_inv: "T (ac_tenant a) \<Longrightarrow> op_keeps I (begin_amendment_payment a gw i wallet key reason)"
  unfolding begin_amendment_payment_def
  by (intro keeps_intros op_keeps_booking keeps_order_readers keeps_amendment_readers keeps_payment_readers
      keeps_expire_amendments inv_idempotent keeps_amendment_payment payment_works_receipts)

lemma get_payment_inv: "T (ac_tenant a) \<Longrightarrow> op_keeps I (get_order_payment a i)"
  unfolding get_order_payment_def
  by (intro keeps_intros op_keeps_booking keeps_order_readers keeps_expire_holds)

lemma settle_verified_payment_inv:
  "(\<And>t. T t) \<Longrightarrow> hook_keeps I h \<Longrightarrow> op_keeps I (settle_verified_payment verified v h)"
  unfolding settle_verified_payment_def
  by (intro op_keeps_checked op_keeps_bind op_keeps_tx keeps_tread)
    (auto intro!: op_keeps_found op_keeps_map_error op_keeps_run_more keeps_settle_payment)

end

locale payment_commands = payment_writes + command_invariant

sublocale payment_commands \<subseteq> payment_invariant
  by unfold_locales

end
