(* ===== verification/Refunded.thy ===== *)
theory Refunded
  imports Refunds
begin

text \<open>
  What the refunds promise: a channel never gives back more than it captured and a batch of the
  wallet never gets back more than the payment took from it, whatever is requested, retried or
  answered; and the refunds keep what the bookings, the ledger and the queue of the channel promise.
\<close>

section \<open>The ledger\<close>

lemma give_back_ledger: "keeps wallet_ledger (give_back t c i p)"
proof (rule keepsI)
  fix E d x d' assume L: "wallet_ledger d" and run: "give_back t c i p E d = Inr (x, d')"
  let ?p = "\<lparr>wp_batch = ra_batch p, wp_principal = ra_principal p, wp_gift = ra_gift p\<rparr>"
  obtain u d1 where 1: "adjust_batch t c (ra_batch p) (give_back_row p) E d = Inr (u, d1)"
    and 2: "append_wallet_entry t c ERefund i ?p E d1 = Inr (x, d')"
    using run unfolding give_back_def tseq_Inr by blast
  note d1 = adjust_batch_Inr [OF 1]
  obtain e n where e: "d' = d1\<lparr>entries := entries d1 @ [e], ticks := n, uuids := Suc (uuids d1)\<rparr>" "entry_portion e = ?p"
    "we_tenant e = t" "we_customer e = c" "we_batch e = wp_batch ?p" "we_kind e = ERefund"
    "list_ex (batch_key t c (wp_batch ?p)) (batches d1)"
    by (rule append_entry_Inr [OF 2])
  have keep: "wr_id (give_back_row p q) = wr_id q \<and> wr_tenant (give_back_row p q) = wr_tenant q \<and>
      wr_customer (give_back_row p q) = wr_customer q" for q
    by (simp add: give_back_row_def)
  have "list_ex (batch_key t c (ra_batch p)) (batches d)"
    using d1 e(7) adjust_row_simps(2) [OF keep] by (simp add: list_ex_iff)
  then obtain r where r: "r \<in> set (batches d)" "batch_key t c (ra_batch p) r" by (auto dest: find_batch)
  have books: "\<And>m. in_books (entries d) (allocations d) m r" using L r by (simp add: wallet_ledger_def)
  show "wallet_ledger d'"
  proof (rule ledger_step [OF L keep _ _ _ _ _ r])
    show "batches d' = map (adjust_row t c (ra_batch p) (give_back_row p)) (batches d)" using d1 e(1) by simp
    show "entries d' = entries d @ [e]" using d1 e(1) by simp
    show "we_batch e = ra_batch p" "we_tenant e = t" "we_customer e = c" using e by simp_all
    show "distinct (map allocation_key (allocations d'))" using L d1 e(1) by (simp add: wallet_ledger_def)
    show "batch_checks (give_back_row p r)" using d1 r by simp
    show "\<exists>r\<in>set (batches d). batch_key (wa_tenant y) (wa_customer y) (wa_batch y) r" if "y \<in> set (allocations d')" for y
      using that L d1 e(1) by (auto simp: wallet_ledger_def)
    show "allocated m st i (allocations d') = allocated m st i (allocations d)" for m st i
      using d1 e(1) by simp
    show "in_books (entries d') (allocations d') m (give_back_row p r)" for m
      using books [of m] r d1 e by (cases m) (simp_all add: in_books_def batch_key_def give_back_row_def)
  qed
qed

lemmas refund_table_defs = update_refund_def insert_refund_event_def insert_refund_receipt_def insert_refund_line_def
  insert_group_def insert_refund_def insert_refund_allocation_def

lemmas channel_table_defs = insert_merchant_def retire_merchants_def insert_auth_audit_def insert_operation_def
  set_operation_failed_def insert_channel_transaction_def insert_cash_refund_def

interpretation ledger_channels: channel_writes wallet_ledger "\<lambda>_. True"
  by unfold_locales (auto simp: keeps_def channel_table_defs ok_iff wallet_ledger_def)

interpretation ledger_refunds: refund_commands wallet_ledger "\<lambda>_. True"
proof
  show "keeps wallet_ledger (refresh_order_payment_status t i)" for t i
    unfolding refresh_order_payment_status_def by (intro keeps_intros ledger_orders.inv_update_order same_rows TrueI)
  show "keeps wallet_ledger (give_back t c i p)" for t c i p by (rule give_back_ledger)
qed (auto simp: keeps_def refund_table_defs lock_wallet_def ok_iff wallet_ledger_def)

section \<open>The court times\<close>

interpretation no_double_channels: channel_writes no_double_booking "\<lambda>_. True"
  by unfold_locales (auto simp: keeps_def channel_table_defs ok_iff no_double_booking_def)

interpretation no_double_refunds: refund_commands no_double_booking "\<lambda>_. True"
proof
  show "keeps no_double_booking (refresh_order_payment_status t i)" for t i
    unfolding refresh_order_payment_status_def by (intro keeps_intros no_double_orders.inv_update_order same_rows TrueI)
  show "keeps no_double_booking (give_back t c i p)" for t c i p
    unfolding give_back_def
    by (intro keeps_intros no_double_wallet.inv_adjust_batch no_double_wallet.keeps_append_entry) (simp_all add: give_back_row_def)
qed (auto simp: keeps_def refund_table_defs lock_wallet_def ok_iff no_double_booking_def)

section \<open>The queue\<close>

interpretation queue_commands: receiptless_invariant queue_ok "\<lambda>_. True"
  by unfold_locales (auto simp: keeps_def insert_receipt_def complete_receipt_def insert_link_def ok_iff queue_ok_def)

interpretation queue_wallet: wallet_writes queue_ok "\<lambda>_. True"
  by unfold_locales (auto simp: keeps_def insert_batch_def adjust_batch_def insert_allocation_def set_allocation_status_def
      insert_entry_def lock_wallet_def ok_iff queue_ok_def)

interpretation queue_orders: order_writes queue_ok "\<lambda>_. True"
  by unfold_locales (auto simp: keeps_def insert_quote_def insert_order_def update_order_def insert_line_def update_lines_def
      insert_payment_def update_payment_def update_amendment_def insert_occupancy_def move_occupancy_def ok_iff queue_ok_def)

interpretation queue_refunds: refund_commands queue_ok "\<lambda>_. True"
proof
  show "keeps queue_ok (refresh_order_payment_status t i)" for t i
    unfolding refresh_order_payment_status_def by (intro keeps_intros queue_orders.inv_update_order same_rows TrueI)
  show "keeps queue_ok (give_back t c i p)" for t c i p
    unfolding give_back_def
    by (intro keeps_intros queue_wallet.inv_adjust_batch queue_wallet.keeps_append_entry) (simp_all add: give_back_row_def)
qed (auto simp: keeps_def refund_table_defs lock_wallet_def ok_iff queue_ok_def)

section \<open>The bookings\<close>

lemma books_same_status:
  assumes B: "books os ls cs"
    and f: "\<And>r. or_id (f r) = or_id r \<and> or_tenant (f r) = or_tenant r \<and> or_status (f r) = or_status r"
  shows "books (map (change_order t i f) os) ls cs"
proof -
  have "live (map (change_order t i f) os) l = live os l" for l
    using f by (intro live_map) (simp add: change_order_def)
  moreover have "owned (map (change_order t i f) os) l = owned os l" for l
    using f by (intro owned_map) (simp add: change_order_def)
  moreover have "map or_id (map (change_order t i f) os) = map or_id os"
    using f by (simp add: change_order_def)
  ultimately show ?thesis using B unfolding books_def by (simp del: map_map)
qed

lemma refresh_booked: "keeps bookings_ok (refresh_order_payment_status t i)"
proof -
  have "keeps bookings_ok (update_order t i (refreshed_order x y z))" for x y z
  proof (rule keepsI)
    fix E d u d' assume I: "bookings_ok d" and run: "update_order t i (refreshed_order x y z) E d = Inr (u, d')"
    obtain now where d': "bookings d' = (map (change_order t i (refreshed_order x y z now)) (orders d), order_lines d, occupancies d)"
      using update_order_effect [OF run] by blast
    show "bookings_ok d'"
      unfolding booked_bookings [OF d']
      by (rule books_same_status [OF I [unfolded bookings_ok_def]]) (simp add: refreshed_order_def)
  qed
  then show ?thesis unfolding refresh_order_payment_status_def by (intro keeps_intros)
qed

interpretation bookings_channels: channel_writes "\<lambda>d. bookings d = b" "\<lambda>_. True" for b
  by unfold_locales (auto simp: keeps_def channel_table_defs ok_iff bookings_def)

lemma bookings_refund_rows:
  "keeps (\<lambda>d. bookings d = b) (update_refund t i f)" "keeps (\<lambda>d. bookings d = b) (insert_refund_event e)"
  "keeps (\<lambda>d. bookings d = b) (insert_refund_receipt rr)" "keeps (\<lambda>d. bookings d = b) (insert_refund_line l)"
  "keeps (\<lambda>d. bookings d = b) (insert_group g)" "keeps (\<lambda>d. bookings d = b) (insert_refund r)"
  "keeps (\<lambda>d. bookings d = b) (insert_refund_allocation p)"
  by (auto simp: keeps_def refund_table_defs ok_iff bookings_def)

lemma bookings_give_back: "keeps (\<lambda>d. bookings d = b) (give_back t c i p)"
  unfolding give_back_def
  by (intro keeps_intros bookings_wallet.inv_adjust_batch bookings_wallet.keeps_append_entry) (simp_all add: give_back_row_def)

text \<open>Until lines are cancelled a refund leaves the lines alone.\<close>

definition lines_kept :: "order_line_row list \<Rightarrow> db \<Rightarrow> bool" where
  "lines_kept ls d \<longleftrightarrow> bookings_ok d \<and> order_lines d = ls"

lemma keeps_lines_same: "(\<And>b. keeps (\<lambda>d. bookings d = b) m) \<Longrightarrow> keeps (lines_kept ls) m"
  by (rule keepsI) (metis lines_kept_def booked_same same_bookings bookings_def prod.inject)

lemma refresh_lines_kept: "keeps (lines_kept ls) (refresh_order_payment_status t i)"
proof (rule keepsI)
  fix E d u d' assume I: "lines_kept ls d" and run: "refresh_order_payment_status t i E d = Inr (u, d')"
  obtain x y z where "update_order t i (refreshed_order x y z) E d = Inr (u, d')"
    using run unfolding refresh_order_payment_status_def tbind_Inr tread_Inr by (auto split: prod.splits)
  then have "order_lines d' = order_lines d" using update_order_effect by (fastforce simp: bookings_def)
  then show "lines_kept ls d'" using I keepsD [OF refresh_booked _ run] by (simp add: lines_kept_def)
qed

interpretation bookings_refund_channel: channel_invariant "lines_kept ls" "\<lambda>_. True" for ls
proof
  show "lines_kept ls (d\<lparr>ticks := n\<rparr>)" "lines_kept ls (d\<lparr>uuids := n\<rparr>)" if "lines_kept ls d" for d n
    using that by (auto simp: lines_kept_def bookings_ok_def)
qed (intro keeps_lines_same bookings_channels.keeps_channel bookings_wallet.inv_audit TrueI)+

interpretation bookings_refund_rows: refund_writes "lines_kept ls" "\<lambda>_. True" for ls
  by unfold_locales
    (intro refresh_lines_kept keeps_lines_same bookings_refund_rows bookings_give_back bookings_wallet.inv_wallet_account TrueI)+

lemma lines_kept_refund_payments: "keeps (lines_kept ls) (refund_payments a r reason gid is first remainders ps)"
  by (rule bookings_refund_rows.keeps_refund_payments) simp

text \<open>The cancelled lines give their court time back, one after the other.\<close>

definition refund_lines_of :: "string \<Rightarrow> string \<Rightarrow> string list \<Rightarrow> db \<Rightarrow> bool" where
  "refund_lines_of t i ids d \<longleftrightarrow> bookings_ok d \<and> cancels_lines t i ids (order_lines d)"

lemma cancels_lines_map:
  "(\<And>l. ol_id (g l) = ol_id l \<and> ol_tenant (g l) = ol_tenant l \<and> ol_order (g l) = ol_order l) \<Longrightarrow>
     cancels_lines t i ids (map g ls) = cancels_lines t i ids ls"
  by (simp add: cancels_lines_def)

lemma change_nothing [simp]: "map (change_order t i (\<lambda>r. r)) os = os"
  by (simp add: change_order_def cong: map_cong)

lemma cancel_refunded_booked:
  assumes "fi_line l \<in> set ids"
  shows "keeps (refund_lines_of t i ids) (cancel_refunded t l)"
proof (rule keepsI)
  fix E d x d' assume I: "refund_lines_of t i ids d" and run: "cancel_refunded t l E d = Inr (x, d')"
  show "refund_lines_of t i ids d'"
  proof (cases "fi_cancel l")
    case False
    then show ?thesis using I run by (simp add: cancel_refunded_def twhen_Inr)
  next
    case True
    let ?P = "\<lambda>x. ol_tenant x = t \<and> ol_id x = fi_line l"
    obtain y d1 where 1: "update_lines ?P cancel_line E d = Inr (y, d1)"
      and 2: "release_occupancies (\<lambda>o'. oc_tenant o' = t \<and> oc_line o' = Some (fi_line l)) E d1 = Inr (x, d')"
      using run True unfolding cancel_refunded_def twhen_Inr tseq_Inr by auto
    obtain now where d1: "bookings d1 = (orders d, map (change_line ?P (cancel_line now)) (order_lines d), occupancies d)"
      using update_lines_effect [OF 1] by blast
    obtain now' where "bookings d' = (orders d1, order_lines d1, release_rows now' (takes_line t {fi_line l}) (occupancies d1))"
      using release_occupancies_effect [OF 2] by (auto simp: takes_line_def [abs_def])
    with d1 have d': "bookings d' = (map (change_order t i (\<lambda>r. r)) (orders d), map (change_line ?P (cancel_line now)) (order_lines d),
        release_rows now' (takes_line t (set [fi_line l])) (occupancies d))"
      by (simp add: bookings_def)
    have B: "books (orders d) (order_lines d) (occupancies d)" and ids: "cancels_lines t i ids (order_lines d)"
      using I by (simp_all add: refund_lines_of_def bookings_ok_def)
    have line: "ol_order x = i" if "x \<in> set (order_lines d)" "?P x" for x
    proof -
      obtain y where y: "y \<in> set (order_lines d)" "ol_id y = fi_line l" "ol_order y = i"
        using ids assms unfolding cancels_lines_def by blast
      then have "x = y" using same_id [OF booksD(2) [OF B] that(1) y(1)] that(2) by simp
      then show ?thesis using y(3) by simp
    qed
    let ?g = "\<lambda>x. if ol_order x = i then change_line ?P (cancel_line now) x else x"
    have same: "map (change_line ?P (cancel_line now)) (order_lines d) = map ?g (order_lines d)"
      using line by (auto simp: change_line_def)
    have "bookings_ok d'"
      unfolding booked_bookings [OF d'] same
    proof (rule books_cancel_lines [OF B])
      show "cancels_lines t i [fi_line l] (order_lines d)" using ids assms by (simp add: cancels_lines_def)
    qed (auto simp: change_line_def cancel_line_def)
    moreover have "cancels_lines t i ids (order_lines d')"
    proof -
      have "order_lines d' = map (change_line ?P (cancel_line now)) (order_lines d)" using d' by (simp add: bookings_def)
      then show ?thesis using ids by (simp add: cancels_lines_map change_line_def cancel_line_def)
    qed
    ultimately show ?thesis by (simp add: refund_lines_of_def)
  qed
qed

lemma cancel_all_booked: "keeps (refund_lines_of t i (map fi_line ls)) (teach (cancel_refunded t) ls)"
proof -
  have "set (map fi_line ks) \<subseteq> set ids \<Longrightarrow> keeps (refund_lines_of t i ids) (teach (cancel_refunded t) ks)" for ks ids
    by (induction ks) (simp_all add: keeps_tret keeps_tseq cancel_refunded_booked)
  then show ?thesis by simp
qed

lemma close_if_empty_booked:
  assumes I: "bookings_ok d" and run: "update_order t i (closed_if_empty (has_open_lines t i d)) E d = Inr (x, d')"
  shows "bookings_ok d'"
proof -
  define b where "b = has_open_lines t i d"
  obtain now where "bookings d' = (map (change_order t i (closed_if_empty b now)) (orders d), order_lines d, occupancies d)"
    using update_order_effect [OF run] by (auto simp: b_def)
  moreover have "release_rows n (takes_line t {}) cs = cs" for n cs by (simp add: release_rows_def takes_line_def)
  ultimately have d': "bookings d' = (map (change_order t i (closed_if_empty b now)) (orders d), map (\<lambda>l. l) (order_lines d),
      release_rows 0 (takes_line t (set [])) (occupancies d))"
    by simp
  show ?thesis
    unfolding booked_bookings [OF d']
  proof (rule books_cancel_lines [OF I [unfolded bookings_ok_def]])
    fix r l assume "l \<in> set (order_lines d)" "ol_tenant l = t" "ol_order l = i" "ol_cancelled l = None"
    then have b unfolding b_def has_open_lines_def by (auto simp: list_ex_iff open_line_of_def)
    then show "or_status (closed_if_empty b now r) \<in> {Held, Confirmed} \<longleftrightarrow> or_status r \<in> {Held, Confirmed}"
      by (simp add: closed_if_empty_def)
  qed (auto simp: cancels_lines_def closed_if_empty_def)
qed

lemma ensures_after:
  "keeps P m \<Longrightarrow> (\<And>x. ensures P (f x) Q) \<Longrightarrow> ensures P (tbind m f) Q"
  "keeps P m \<Longrightarrow> ensures P n Q \<Longrightarrow> ensures P (tseq m n) Q"
  unfolding keeps_ensures by (rule ensures_tbind ensures_tseq, assumption, assumption)+

lemma ensures_given: "(\<And>d. P d \<Longrightarrow> C) \<Longrightarrow> (C \<Longrightarrow> ensures P m Q) \<Longrightarrow> ensures P m Q"
  by (auto simp: ensures_def)

lemma ensures_lifted: "(c = Inr () \<Longrightarrow> ensures P n Q) \<Longrightarrow> ensures P (tseq (tlift f c) n) Q"
  by (cases c) (auto simp: ensures_def tseq_Inr tlift_Inr)

lemma refund_tail_booked:
  assumes "cancels_lines t i (map fi_line is) ls"
  shows "ensures (lines_kept ls) (tseq (refund_payments a r reason gid is first remainders ps)
     (tseq (teach (cancel_refunded t) is)
     (tbind (tread (has_open_lines t i)) (\<lambda>open_lines.
      tseq (update_order t i (closed_if_empty open_lines)) (tseq (record_tenant_audit a s g ds) (tret res)))))) (\<lambda>_. bookings_ok)"
    (is "ensures _ (tseq ?pay (tseq ?cancel ?close)) _")
proof (rule ensures_after(2) [OF lines_kept_refund_payments])
  have close: "keeps bookings_ok ?close"
  proof (rule keepsI)
    fix E d x d' assume I: "bookings_ok d" and run: "?close E d = Inr (x, d')"
    then obtain u d1 v d2 where 1: "update_order t i (closed_if_empty (has_open_lines t i d)) E d = Inr (u, d1)"
      and 2: "record_tenant_audit a s g ds E d1 = Inr (v, d2)" and 3: "d' = d2"
      unfolding tbind_Inr tread_Inr tseq_Inr tret_Inr prod.inject by blast
    have "bookings_ok d1" by (rule close_if_empty_booked [OF I 1])
    then show "bookings_ok d'" unfolding 3 booked_same [OF audit_bookings [OF 2]] .
  qed
  have "ensures (refund_lines_of t i (map fi_line is)) (tseq ?cancel ?close) (\<lambda>_. bookings_ok)"
    by (rule ensures_after(2) [OF cancel_all_booked], rule ensures_pre [OF close [unfolded keeps_ensures]])
      (simp add: refund_lines_of_def)
  then show "ensures (lines_kept ls) (tseq ?cancel ?close) (\<lambda>_. bookings_ok)"
    by (rule ensures_pre) (use assms in \<open>auto simp: refund_lines_of_def lines_kept_def\<close>)
qed

lemma refund_lines_checked:
  assumes "eachE (check_refund_line xs remaining) is = Inr ()" "set xs \<subseteq> {l \<in> set ls. ol_tenant l = t \<and> ol_order l = i}"
  shows "cancels_lines t i (map fi_line is) ls"
proof -
  have "\<exists>x\<in>set xs. ol_id x = fi_line l" if l: "l \<in> set is" for l
  proof -
    have "check_refund_line xs remaining l = Inr ()" using assms(1) l by (simp add: eachE_Inr_iff)
    then obtain x where "find (\<lambda>x. ol_id x = fi_line l) xs = Some x"
      by (cases "find (\<lambda>x. ol_id x = fi_line l) xs") (simp_all add: check_refund_line_def)
    then show ?thesis by (auto simp: find_Some_iff)
  qed
  then show ?thesis using assms(2) unfolding cancels_lines_def by fastforce
qed

lemma refund_order_read:
  "ensures (lines_kept ls) (order_in_transaction a i)
     (\<lambda>w d. lines_kept ls d \<and> set (ow_lines w) \<subseteq> {l \<in> set ls. ol_tenant l = ac_tenant a \<and> ol_order l = or_id (ow_row w)})"
proof (rule ensuresI)
  fix E d w d' assume I: "lines_kept ls d" and run: "order_in_transaction a i E d = Inr (w, d')"
  show "lines_kept ls d' \<and> set (ow_lines w) \<subseteq> {l \<in> set ls. ol_tenant l = ac_tenant a \<and> ol_order l = or_id (ow_row w)}"
    using I order_in_transaction_Inr [OF run] by (auto simp: lines_kept_def lines_of_def)
qed

lemma ensures_conj: "(C \<Longrightarrow> ensures P m Q) \<Longrightarrow> ensures (\<lambda>d. P d \<and> C) m Q"
  by (auto simp: ensures_def)

lemma refund_group_ensures: "ensures (lines_kept ls) (create_refund_group a i reason is amendment) (\<lambda>_. bookings_ok)"
  unfolding create_refund_group_def Let_def
  by (rule ensures_after(2) [OF keeps_tlift], rule ensures_tbind [OF refund_order_read], rule ensures_conj,
      rule ensures_after(1) [OF keeps_tread], rule ensures_lifted, drule (1) refund_lines_checked,
      (rule refund_tail_booked ensures_after keeps_tread keeps_tenv keeps_tlift keeps_tguard
        bookings_refund_channel.keeps_counters bookings_refund_rows.inv_refund_group_row TrueI | assumption)+)

interpretation bookings_refunds: refund_invariant bookings_ok "\<lambda>_. True"
proof
  show "keeps bookings_ok (create_refund_group a i reason is amendment)" for a i reason "is" amendment
    by (rule keepsI, rule ensuresD [OF refund_group_ensures]) (auto simp: lines_kept_def)
qed (intro refresh_booked keeps_booked_same bookings_refund_rows bookings_give_back bookings_wallet.inv_wallet_account
    bookings_channels.keeps_channel TrueI)+

end
