(* ===== verification/Repaid.thy ===== *)
theory Repaid
  imports Refunded
begin

text \<open>
  What a refund may give back. Per payment the channel never returns more than it captured, and
  per batch of the wallet no more principal and no more gift than the payment took. The argument
  is made on the facts of the rows that decide it and lifted to every operation.
\<close>

section \<open>The facts\<close>

type_synonym payment_fact = "string \<times> string \<times> cents"
type_synonym taken_fact = "string \<times> string \<times> string \<times> cents \<times> cents"
type_synonym refund_fact = "string \<times> string \<times> string \<times> cents"

definition payment_fact :: "payment_row \<Rightarrow> payment_fact" where
  "payment_fact p = (py_tenant p, py_id p, py_external p)"

definition taken_fact :: "allocation_row \<Rightarrow> taken_fact" where
  "taken_fact a = (wa_tenant a, wa_payment a, wa_batch a, wa_principal a, wa_gift a)"

definition refund_fact :: "refund_row \<Rightarrow> refund_fact" where
  "refund_fact r = (rf_id r, rf_tenant r, rf_payment r, rf_external r)"

definition money_facts :: "db \<Rightarrow> payment_fact list \<times> taken_fact list \<times> refund_fact list \<times> refund_allocation_row list" where
  "money_facts d = (map payment_fact (payments d), map taken_fact (allocations d), map refund_fact (refunds d), refund_allocations d)"

definition channel_back :: "string \<Rightarrow> string \<Rightarrow> refund_fact list \<Rightarrow> cents" where
  "channel_back t p rs = sum_list (map (\<lambda>r. snd (snd (snd r))) (filter (\<lambda>r. fst (snd r) = t \<and> fst (snd (snd r)) = p) rs))"

definition of_payment :: "string \<Rightarrow> string \<Rightarrow> refund_fact list \<Rightarrow> string \<Rightarrow> bool" where
  "of_payment t p rs i \<longleftrightarrow> (\<exists>x. (i, t, p, x) \<in> set rs)"

definition wallet_back ::
  "(refund_allocation_row \<Rightarrow> cents) \<Rightarrow> string \<Rightarrow> string \<Rightarrow> string \<Rightarrow> refund_fact list \<Rightarrow> refund_allocation_row list \<Rightarrow> cents" where
  "wallet_back f t p b rs bs =
     sum_list (map f (filter (\<lambda>a. ra_tenant a = t \<and> ra_batch a = b \<and> of_payment t p rs (ra_refund a)) bs))"

definition repaid :: "payment_fact list \<Rightarrow> taken_fact list \<Rightarrow> refund_fact list \<Rightarrow> refund_allocation_row list \<Rightarrow> bool" where
  "repaid ps as rs bs \<longleftrightarrow>
     distinct (map (\<lambda>p. fst (snd p)) ps) \<and> distinct (map (\<lambda>a. (fst a, fst (snd a), fst (snd (snd a)))) as) \<and> distinct (map fst rs) \<and>
     (\<forall>(t, p, x)\<in>set ps. channel_back t p rs \<le> x) \<and>
     (\<forall>(t, p, b, x, y)\<in>set as. wallet_back ra_principal t p b rs bs \<le> x \<and> wallet_back ra_gift t p b rs bs \<le> y) \<and>
     (\<forall>(i, t, p, x)\<in>set rs. \<exists>z. (t, p, z) \<in> set ps) \<and>
     (\<forall>a\<in>set bs. \<exists>p. of_payment (ra_tenant a) p rs (ra_refund a) \<and> (\<exists>y z. (ra_tenant a, p, ra_batch a, y, z) \<in> set as))"

text \<open>They are what the code sums.\<close>

lemma channel_returned_facts: "channel_returned t p d = channel_back t p (map refund_fact (refunds d))"
  by (simp add: channel_returned_def channel_back_def filter_map comp_def refund_fact_def)

lemma given_back_facts: "given_back f t p b d = wallet_back f t p b (map refund_fact (refunds d)) (refund_allocations d)"
proof -
  have "list_ex (\<lambda>q. rf_tenant q = t \<and> rf_id q = i \<and> rf_payment q = p) rs = of_payment t p (map refund_fact rs) i" for i rs
    by (auto simp: list_ex_iff of_payment_def refund_fact_def)
  then show ?thesis by (simp add: given_back_def wallet_back_def)
qed

section \<open>One more refund\<close>

lemma repaidD:
  assumes "repaid ps as rs bs"
  shows "distinct (map (\<lambda>p. fst (snd p)) ps)" "distinct (map (\<lambda>a. (fst a, fst (snd a), fst (snd (snd a)))) as)" "distinct (map fst rs)"
    and "(t, p, x) \<in> set ps \<Longrightarrow> channel_back t p rs \<le> x"
    and "(t, p, b, x, y) \<in> set as \<Longrightarrow> wallet_back ra_principal t p b rs bs \<le> x \<and> wallet_back ra_gift t p b rs bs \<le> y"
    and "(i, t, p, x) \<in> set rs \<Longrightarrow> \<exists>z. (t, p, z) \<in> set ps"
    and "a \<in> set bs \<Longrightarrow> \<exists>p. of_payment (ra_tenant a) p rs (ra_refund a) \<and> (\<exists>y z. (ra_tenant a, p, ra_batch a, y, z) \<in> set as)"
  using assms unfolding repaid_def by blast+

lemma repaidI:
  assumes "distinct (map (\<lambda>p. fst (snd p)) ps)" "distinct (map (\<lambda>a. (fst a, fst (snd a), fst (snd (snd a)))) as)" "distinct (map fst rs)"
    and "\<And>t p x. (t, p, x) \<in> set ps \<Longrightarrow> channel_back t p rs \<le> x"
    and "\<And>t p b x y. (t, p, b, x, y) \<in> set as \<Longrightarrow> wallet_back ra_principal t p b rs bs \<le> x \<and> wallet_back ra_gift t p b rs bs \<le> y"
    and "\<And>i t p x. (i, t, p, x) \<in> set rs \<Longrightarrow> \<exists>z. (t, p, z) \<in> set ps"
    and "\<And>a. a \<in> set bs \<Longrightarrow> \<exists>p. of_payment (ra_tenant a) p rs (ra_refund a) \<and> (\<exists>y z. (ra_tenant a, p, ra_batch a, y, z) \<in> set as)"
  shows "repaid ps as rs bs"
  unfolding repaid_def by (intro conjI assms(1-3) ballI; clarify?; (rule assms(4,5,6,7) conjunct1 [OF assms(5)] conjunct2 [OF assms(5)]; assumption))

lemma channel_back_snoc:
  "channel_back t p (rs @ [(i, t', p', x)]) = channel_back t p rs + (if t' = t \<and> p' = p then x else 0)"
  by (simp add: channel_back_def)

lemma of_payment_snoc: "of_payment t p (rs @ [(i, t', p', x)]) j \<longleftrightarrow> of_payment t p rs j \<or> (j = i \<and> t = t' \<and> p = p')"
  by (auto simp: of_payment_def)

lemma of_payment_id: "of_payment t p rs i \<Longrightarrow> i \<in> fst ` set rs"
  by (force simp: of_payment_def)

text \<open>A refund's rows: at most one per batch.\<close>

lemma wallet_back_more:
  assumes fresh: "i \<notin> fst ` set rs" and old: "\<And>a. a \<in> set bs \<Longrightarrow> \<exists>p. of_payment (ra_tenant a) p rs (ra_refund a)"
    and ns: "\<And>n. n \<in> set ns \<Longrightarrow> ra_refund n = i \<and> ra_tenant n = t"
  shows "wallet_back f t' p' b (rs @ [(i, t, p, x)]) (bs @ ns) = wallet_back f t' p' b rs bs +
    (if t' = t \<and> p' = p then sum_list (map f (filter (\<lambda>n. ra_batch n = b) ns)) else 0)"
proof -
  have no: "\<not> of_payment t' p' rs i" using fresh of_payment_id by blast
  have "ra_refund a \<noteq> i" if "a \<in> set bs" for a using old [OF that] fresh of_payment_id by metis
  then have 1: "filter (\<lambda>a. ra_tenant a = t' \<and> ra_batch a = b \<and> of_payment t' p' (rs @ [(i, t, p, x)]) (ra_refund a)) bs =
      filter (\<lambda>a. ra_tenant a = t' \<and> ra_batch a = b \<and> of_payment t' p' rs (ra_refund a)) bs"
    by (intro filter_cong) (auto simp: of_payment_snoc)
  have 2: "filter (\<lambda>a. ra_tenant a = t' \<and> ra_batch a = b \<and> of_payment t' p' (rs @ [(i, t, p, x)]) (ra_refund a)) ns =
      (if t' = t \<and> p' = p then filter (\<lambda>n. ra_batch n = b) ns else [])"
  proof -
    have "(ra_tenant a = t' \<and> ra_batch a = b \<and> of_payment t' p' (rs @ [(i, t, p, x)]) (ra_refund a)) \<longleftrightarrow>
        (t' = t \<and> p' = p) \<and> ra_batch a = b" if "a \<in> set ns" for a
      using ns [OF that] no by (auto simp: of_payment_snoc)
    then show ?thesis by (auto simp: cong: filter_cong)
  qed
  show ?thesis by (simp add: wallet_back_def 1 2)
qed

lemma sum_unique_batch:
  assumes "distinct (map ra_batch ns)"
  shows "sum_list (map f (filter (\<lambda>n. ra_batch n = b) ns)) =
    (case find (\<lambda>n. ra_batch n = b) ns of None \<Rightarrow> 0 | Some n \<Rightarrow> (f n :: int))"
  using assms
proof (induction ns)
  case (Cons n ns)
  have "filter (\<lambda>m. ra_batch m = ra_batch n) ns = []" using Cons.prems by (auto simp: filter_empty_conv, metis imageI)
  then show ?case using Cons by auto
qed simp

lemma repaid_more:
  assumes R: "repaid ps as rs bs" and fresh: "i \<notin> fst ` set rs"
    and ns: "\<And>n. n \<in> set ns \<Longrightarrow> ra_refund n = i \<and> ra_tenant n = t \<and> (\<exists>y z. (t, p, ra_batch n, y, z) \<in> set as)"
    and distinct: "distinct (map ra_batch ns)"
    and pay: "\<exists>z. (t, p, z) \<in> set ps" "\<And>z. (t, p, z) \<in> set ps \<Longrightarrow> channel_back t p rs + x \<le> z"
    and within: "\<And>n y z. n \<in> set ns \<Longrightarrow> (t, p, ra_batch n, y, z) \<in> set as \<Longrightarrow>
      wallet_back ra_principal t p (ra_batch n) rs bs + ra_principal n \<le> y \<and>
      wallet_back ra_gift t p (ra_batch n) rs bs + ra_gift n \<le> z"
  shows "repaid ps as (rs @ [(i, t, p, x)]) (bs @ ns)"
proof -
  have old: "\<And>a. a \<in> set bs \<Longrightarrow> \<exists>p. of_payment (ra_tenant a) p rs (ra_refund a)" using repaidD(7) [OF R] by blast
  have sums: "wallet_back f t' p' b (rs @ [(i, t, p, x)]) (bs @ ns) = wallet_back f t' p' b rs bs +
    (if t' = t \<and> p' = p then (case find (\<lambda>n. ra_batch n = b) ns of None \<Rightarrow> 0 | Some n \<Rightarrow> f n) else 0)" for f t' p' b
    using ns by (simp add: wallet_back_more [OF fresh old] sum_unique_batch [OF distinct])
  show ?thesis
  proof (rule repaidI)
    show "wallet_back ra_principal t' p' b (rs @ [(i, t, p, x)]) (bs @ ns) \<le> y \<and>
        wallet_back ra_gift t' p' b (rs @ [(i, t, p, x)]) (bs @ ns) \<le> z" if a: "(t', p', b, y, z) \<in> set as" for t' p' b y z
    proof (cases "t' = t \<and> p' = p \<and> find (\<lambda>n. ra_batch n = b) ns \<noteq> None")
      case True
      then obtain n where n: "find (\<lambda>n. ra_batch n = b) ns = Some n" by auto
      then have "n \<in> set ns" "ra_batch n = b" by (auto simp: find_Some_iff)
      then show ?thesis using within [of n y z] a True n by (simp add: sums)
    next
      case False
      then show ?thesis using repaidD(5) [OF R a] by (auto simp: sums)
    qed
    show "channel_back t' p' (rs @ [(i, t, p, x)]) \<le> z" if "(t', p', z) \<in> set ps" for t' p' z
      using repaidD(4) [OF R that] pay(2) that by (auto simp: channel_back_snoc)
    show "\<exists>p'. of_payment (ra_tenant a) p' (rs @ [(i, t, p, x)]) (ra_refund a) \<and> (\<exists>y z. (ra_tenant a, p', ra_batch a, y, z) \<in> set as)"
      if a: "a \<in> set (bs @ ns)" for a
    proof (cases "a \<in> set bs")
      case True
      then show ?thesis using repaidD(7) [OF R True] by (simp add: of_payment_snoc) blast
    next
      case False
      then have "a \<in> set ns" using a by simp
      from ns [OF this] have "ra_refund a = i" "ra_tenant a = t" "\<exists>y z. (t, p, ra_batch a, y, z) \<in> set as" by blast+
      then show ?thesis by (intro exI [of _ p]) (simp add: of_payment_snoc)
    qed
    show "\<exists>z. (t', p', z) \<in> set ps" if "(j, t', p', y) \<in> set (rs @ [(i, t, p, x)])" for j t' p' y
      using that repaidD(6) [OF R] pay(1) by auto
  qed (use repaidD(1-3) [OF R] fresh in simp_all)
qed

section \<open>What a refund of a payment adds\<close>

text \<open>Everything but the refund and its portions leaves the facts as they are.\<close>

lemma facts_wallet: "keeps (\<lambda>d. money_facts d = b) (give_back t c i p)"
proof -
  have "keeps (\<lambda>d. money_facts d = b) (adjust_batch t' c' i' f)" for t' c' i' f
    by (auto simp: keeps_def adjust_batch_def ok_iff money_facts_def)
  moreover have "keeps (\<lambda>d. money_facts d = b) (append_wallet_entry t' c' k i' q)" for t' c' k i' q
    by (auto simp: keeps_def append_wallet_entry_def insert_entry_def ok_iff money_facts_def)
  ultimately show ?thesis unfolding give_back_def by (intro keeps_intros)
qed

lemma facts_orders:
  "keeps (\<lambda>d. money_facts d = b) (update_order t i f)" "keeps (\<lambda>d. money_facts d = b) (update_lines P h)"
  "keeps (\<lambda>d. money_facts d = b) (release_occupancies Q)"
  by (auto simp: keeps_def update_order_def update_lines_def release_occupancies_def ok_iff money_facts_def)

lemma facts_update_refund: "same_refund f \<Longrightarrow> keeps (\<lambda>d. money_facts d = b) (update_refund t i f)"
proof (rule keepsI)
  fix E d x d' assume f: "same_refund f" and "money_facts d = b" and run: "update_refund t i f E d = Inr (x, d')"
  then obtain now n where "d' = d\<lparr>ticks := n, refunds := map (change_refund t i (f now)) (refunds d)\<rparr>"
    unfolding update_refund_def by (auto simp: ok_iff)
  moreover have "refund_fact (change_refund t i (f now) r) = refund_fact r" for r
    using f by (simp add: same_refund_def change_refund_def refund_fact_def)
  ultimately show "money_facts d' = b" using \<open>money_facts d = b\<close> by (simp add: money_facts_def comp_def)
qed

interpretation facts_channels: channel_writes "\<lambda>d. money_facts d = b" "\<lambda>_. True" for b
  by unfold_locales (auto simp: keeps_def channel_table_defs record_tenant_audit_def ok_iff money_facts_def)

interpretation facts_refunds: refund_settling "\<lambda>d. money_facts d = b" "\<lambda>_. True" for b
proof
  show "keeps (\<lambda>d. money_facts d = b) (refresh_order_payment_status t i)" for t i
    unfolding refresh_order_payment_status_def by (intro keeps_intros facts_orders)
  show "keeps (\<lambda>d. money_facts d = b) (update_refund t i f)" if "same_refund f" for t i f
    by (rule facts_update_refund [OF that])
  show "keeps (\<lambda>d. money_facts d = b) (give_back t c i p)" for t c i p by (rule facts_wallet)
qed (auto simp: keeps_def refund_table_defs lock_wallet_def ok_iff money_facts_def)

definition back_row :: "string \<Rightarrow> string \<Rightarrow> string \<Rightarrow> refund_shares \<Rightarrow> string \<Rightarrow> refund_allocation_row" where
  "back_row t c i ss b = \<lparr>ra_tenant = t, ra_customer = c, ra_refund = i, ra_batch = b,
     ra_principal = first_share b True ss, ra_gift = first_share b False ss\<rparr>"

definition back_rows :: "string \<Rightarrow> string \<Rightarrow> string \<Rightarrow> refund_shares \<Rightarrow> string list \<Rightarrow> refund_allocation_row list" where
  "back_rows t c i ss ids =
     map (back_row t c i ss) (filter (\<lambda>b. first_share b True ss + first_share b False ss \<noteq> 0) ids)"

lemma allocate_back_facts:
  "ensures (\<lambda>d. money_facts d = (ps, as, rs, bs)) (teach (allocate_back t c i ss) ids)
     (\<lambda>_ d. money_facts d = (ps, as, rs, bs @ back_rows t c i ss ids))"
proof (induction ids arbitrary: bs)
  case Nil
  then show ?case by (auto simp: ensures_def back_rows_def tret_Inr)
next
  case (Cons b ids)
  have "ensures (\<lambda>d. money_facts d = (ps, as, rs, bs)) (allocate_back t c i ss b)
      (\<lambda>_ d. money_facts d = (ps, as, rs, bs @ back_rows t c i ss [b]))"
    by (auto simp: ensures_def allocate_back_def Let_def ok_iff insert_refund_allocation_def money_facts_def back_rows_def back_row_def)
  from ensures_tseq [OF this Cons.IH] show ?case by (cases "first_share b True ss + first_share b False ss = 0") (simp_all add: back_rows_def)
qed

lemma insert_refund_facts:
  "ensures (\<lambda>d. money_facts d = (ps, as, rs, bs)) (insert_refund r)
     (\<lambda>_ d. rf_id r \<notin> fst ` set rs \<and> money_facts d = (ps, as, rs @ [refund_fact r], bs))"
  by (rule ensuresI) (force simp: insert_refund_def ok_iff list_ex_iff money_facts_def refund_fact_def)

lemma refund_payment_facts:
  "ensures (\<lambda>d. money_facts d = (ps, as, rs, bs)) (refund_payment a r reason gid ls first remainders payment mine)
     (\<lambda>_ d. \<exists>i. i \<notin> fst ` set rs \<and> money_facts d =
        (ps, as, rs @ [(i, ac_tenant a, payment, share_sum (\<lambda>s. so_batch s = None) mine)],
         bs @ back_rows (ac_tenant a) (or_customer r) i mine (owned_batches mine)))"
proof -
  let ?x = "share_sum (\<lambda>s. so_batch s = None) mine" and ?t = "ac_tenant a"
  let ?done = "\<lambda>i d. money_facts d = (ps, as, rs @ [(i, ?t, payment, ?x)], bs @ back_rows ?t (or_customer r) i mine (owned_batches mine))"
  let ?row = "\<lambda>i. new_refund a r reason gid i payment (share_sum (\<lambda>_. True) mine) ?x"
  have fact: "refund_fact (?row i) = (i, ?t, payment, ?x)" "rf_id (?row i) = i" for i by (simp_all add: new_refund_def refund_fact_def)
  have tail: "keeps (?done i) (tseq (teach (record_line ?t i first) (zip ls (take_lines (share_sum (\<lambda>_. True) mine) remainders)))
      (if ?x = 0 then tbind (refund_in_transaction ?t i) (\<lambda>q. complete_refund ?t q None) else enqueue_refund_channel ?t i))" for i
    by (intro keeps_intros facts_refunds.keeps_record_line facts_refunds.keeps_complete_refund facts_channels.keeps_channel
        facts_channels.keeps_reading reads_refund_readers TrueI)
  have given: "ensures (\<lambda>d. C \<and> P d) m Q" if "C \<Longrightarrow> ensures P m Q" for C P Q and m :: "unit tx"
    using that by (auto simp: ensures_def)
  show ?thesis
    unfolding refund_payment_def Let_def
  proof (rule ensures_after(1) [OF facts_channels.keeps_counters(2)])
    fix i
    show "ensures (\<lambda>d. money_facts d = (ps, as, rs, bs)) (tseq (insert_refund (?row i))
        (tseq (teach (allocate_back ?t (or_customer r) i mine) (owned_batches mine))
        (tseq (teach (record_line ?t i first) (zip ls (take_lines (share_sum (\<lambda>_. True) mine) remainders)))
         (if ?x = 0 then tbind (refund_in_transaction ?t i) (\<lambda>q. complete_refund ?t q None) else enqueue_refund_channel ?t i))))
       (\<lambda>_ d. \<exists>i. i \<notin> fst ` set rs \<and> ?done i d)"
      by (rule ensures_tseq [OF insert_refund_facts [where r = "?row i"]], unfold fact, rule given,
          rule ensures_tseq [OF allocate_back_facts], rule ensures_weaken [OF tail [unfolded keeps_ensures]]) blast
  qed
qed

section \<open>The refunds of a group\<close>

definition repaid_ok :: "db \<Rightarrow> bool" where
  "repaid_ok d \<longleftrightarrow> repaid (map payment_fact (payments d)) (map taken_fact (allocations d)) (map refund_fact (refunds d)) (refund_allocations d)"

lemma repaid_facts: "money_facts d = (ps, as, rs, bs) \<Longrightarrow> repaid_ok d = repaid ps as rs bs"
  by (auto simp: money_facts_def repaid_ok_def)

text \<open>What a payment's shares may add to what was given back.\<close>

definition affords :: "payment_fact list \<Rightarrow> taken_fact list \<Rightarrow> refund_fact list \<Rightarrow> refund_allocation_row list \<Rightarrow> string \<Rightarrow> string \<Rightarrow> refund_shares \<Rightarrow> bool" where
  "affords ps as rs bs t p ss \<longleftrightarrow>
     (\<exists>z. (t, p, z) \<in> set ps) \<and> (\<forall>z. (t, p, z) \<in> set ps \<longrightarrow> channel_back t p rs + share_sum (\<lambda>s. so_batch s = None) ss \<le> z) \<and>
     (\<forall>b\<in>set (owned_batches ss). (\<exists>y z. (t, p, b, y, z) \<in> set as) \<and>
        (\<forall>y z. (t, p, b, y, z) \<in> set as \<longrightarrow> wallet_back ra_principal t p b rs bs + first_share b True ss \<le> y \<and>
           wallet_back ra_gift t p b rs bs + first_share b False ss \<le> z))"

lemma distinct_firsts: "distinct (firsts xs)"
  by (induction xs) simp_all

lemma set_firsts: "set (firsts xs) = set xs"
  by (induction xs) auto

lemma back_rows_facts:
  "n \<in> set (back_rows t c i ss ids) \<Longrightarrow> ra_refund n = i \<and> ra_tenant n = t \<and> ra_batch n \<in> set ids \<and>
     ra_principal n = first_share (ra_batch n) True ss \<and> ra_gift n = first_share (ra_batch n) False ss"
  "distinct ids \<Longrightarrow> distinct (map ra_batch (back_rows t c i ss ids))"
proof -
  show "n \<in> set (back_rows t c i ss ids) \<Longrightarrow> ra_refund n = i \<and> ra_tenant n = t \<and> ra_batch n \<in> set ids \<and>
     ra_principal n = first_share (ra_batch n) True ss \<and> ra_gift n = first_share (ra_batch n) False ss"
    by (auto simp: back_rows_def back_row_def)
  show "distinct ids \<Longrightarrow> distinct (map ra_batch (back_rows t c i ss ids))"
    by (simp add: back_rows_def back_row_def comp_def)
qed

lemma refund_payment_affords:
  fixes c :: string
  assumes R: "repaid ps as rs bs" and fresh: "i \<notin> fst ` set rs" and A: "affords ps as rs bs t p ss"
  defines "rs' \<equiv> rs @ [(i, t, p, share_sum (\<lambda>s. so_batch s = None) ss)]"
    and "bs' \<equiv> bs @ back_rows t c i ss (owned_batches ss)"
  shows "repaid ps as rs' bs'" "q \<noteq> p \<Longrightarrow> affords ps as rs bs t q ss' \<Longrightarrow> affords ps as rs' bs' t q ss'"
proof -
  have dist: "distinct (owned_batches ss)" unfolding owned_batches_def by (rule distinct_firsts)
  note row = back_rows_facts(1) [of _ t c i ss "owned_batches ss"]
  show "repaid ps as rs' bs'"
    unfolding rs'_def bs'_def
  proof (rule repaid_more [OF R fresh])
    show "distinct (map ra_batch (back_rows t c i ss (owned_batches ss)))" by (rule back_rows_facts(2) [OF dist])
    show "ra_refund n = i \<and> ra_tenant n = t \<and> (\<exists>y z. (t, p, ra_batch n, y, z) \<in> set as)"
      if "n \<in> set (back_rows t c i ss (owned_batches ss))" for n
      using row [OF that] A by (simp add: affords_def)
    show "wallet_back ra_principal t p (ra_batch n) rs bs + ra_principal n \<le> y \<and> wallet_back ra_gift t p (ra_batch n) rs bs + ra_gift n \<le> z"
      if "n \<in> set (back_rows t c i ss (owned_batches ss))" "(t, p, ra_batch n, y, z) \<in> set as" for n y z
      using row [OF that(1)] that(2) A by (simp add: affords_def)
  qed (use A in \<open>simp_all add: affords_def\<close>)
  have old: "\<And>a. a \<in> set bs \<Longrightarrow> \<exists>p. of_payment (ra_tenant a) p rs (ra_refund a)" using repaidD(7) [OF R] by blast
  have same: "wallet_back f t q b rs' bs' = wallet_back f t q b rs bs" if "q \<noteq> p" for f b
    unfolding rs'_def bs'_def by (subst wallet_back_more [OF fresh old]) (use row that in auto)
  show "affords ps as rs' bs' t q ss'" if "q \<noteq> p" "affords ps as rs bs t q ss'"
    using that(2) unfolding affords_def same [OF that(1)] by (simp add: rs'_def channel_back_snoc that(1) [symmetric])
qed

lemma refund_payments_repaid:
  assumes "distinct (map fst xs)"
  shows "ensures (\<lambda>d. \<exists>ps as rs bs. money_facts d = (ps, as, rs, bs) \<and> repaid ps as rs bs \<and>
      (\<forall>x\<in>set xs. affords ps as rs bs (ac_tenant a) (fst x) (snd x)))
    (refund_payments a r reason gid ls first remainders xs) (\<lambda>_. repaid_ok)"
  using assms
proof (induction xs arbitrary: first remainders)
  case Nil
  then show ?case by (auto simp: ensures_def tret_Inr repaid_facts)
next
  case (Cons x xs)
  let ?P = "\<lambda>xs d. \<exists>ps as rs bs. money_facts d = (ps, as, rs, bs) \<and> repaid ps as rs bs \<and>
      (\<forall>x\<in>set xs. affords ps as rs bs (ac_tenant a) (fst x) (snd x))"
  have "ensures (?P (x # xs)) (refund_payment a r reason gid ls first remainders (fst x) (snd x)) (\<lambda>_. ?P xs)"
  proof (rule ensuresI)
    fix E d y d'
    assume "?P (x # xs) d" and run: "refund_payment a r reason gid ls first remainders (fst x) (snd x) E d = Inr (y, d')"
    then obtain ps as rs bs where f: "money_facts d = (ps, as, rs, bs)" and R: "repaid ps as rs bs"
      and A: "\<forall>x\<in>set (x # xs). affords ps as rs bs (ac_tenant a) (fst x) (snd x)" by blast
    let ?t = "ac_tenant a"
    obtain i where i: "i \<notin> fst ` set rs" "money_facts d' =
        (ps, as, rs @ [(i, ?t, fst x, share_sum (\<lambda>s. so_batch s = None) (snd x))],
         bs @ back_rows ?t (or_customer r) i (snd x) (owned_batches (snd x)))"
      using ensuresD [OF refund_payment_facts f run] by blast
    have Ax: "affords ps as rs bs ?t (fst x) (snd x)" using A by simp
    note step = refund_payment_affords [OF R i(1) Ax, where c = "or_customer r"]
    have "affords ps as (rs @ [(i, ?t, fst x, share_sum (\<lambda>s. so_batch s = None) (snd x))])
         (bs @ back_rows ?t (or_customer r) i (snd x) (owned_batches (snd x))) ?t (fst z) (snd z)" if "z \<in> set xs" for z
      by (rule step(2)) (use A Cons.prems that in \<open>auto intro: rev_image_eqI\<close>)
    then show "?P xs d'" using i(2) step(1) by blast
  qed
  from ensures_tseq [OF this Cons.IH] show ?case using Cons.prems by simp
qed

section \<open>What the sources offer\<close>

lemma distinct_map_sort_by: "distinct (map f (sort_by le xs)) = distinct (map f xs)"
  by (rule mset_eq_imp_distinct_iff) simp

lemma payment_source:
  assumes "s \<in> set (payment_sources E t d p)"
  shows "so_payment s = py_id p"
    and "so_batch s = None \<Longrightarrow> so_remaining s = py_external p - channel_returned t (py_id p) d"
    and "so_batch s = Some b \<Longrightarrow> \<exists>y z. (t, py_id p, b, y, z) \<in> set (map taken_fact (allocations d)) \<and>
      so_remaining s = (if so_principal s then y - given_back ra_principal t (py_id p) b d else z - given_back ra_gift t (py_id p) b d)"
proof -
  show "so_payment s = py_id p" "so_batch s = None \<Longrightarrow> so_remaining s = py_external p - channel_returned t (py_id p) d"
    using assms by (auto simp: payment_sources_def batch_sources_def)
  assume "so_batch s = Some b"
  then obtain a where a: "a \<in> set (allocations d)" "wa_tenant a = t" "wa_payment a = py_id p" "wa_batch a = b"
      "so_remaining s = (if so_principal s then wa_principal a - given_back ra_principal t (py_id p) b d
        else wa_gift a - given_back ra_gift t (py_id p) b d)"
    using assms by (auto simp: payment_sources_def batch_sources_def)
  have "(t, py_id p, b, wa_principal a, wa_gift a) = taken_fact a" using a(2-4) by (simp add: taken_fact_def)
  then have "(t, py_id p, b, wa_principal a, wa_gift a) \<in> set (map taken_fact (allocations d))" using a(1) by simp
  then show "\<exists>y z. (t, py_id p, b, y, z) \<in> set (map taken_fact (allocations d)) \<and>
      so_remaining s = (if so_principal s then y - given_back ra_principal t (py_id p) b d else z - given_back ra_gift t (py_id p) b d)"
    using a(5) by blast
qed

lemma channel_source:
  assumes "distinct (map py_id rows)"
  shows "filter (\<lambda>s. so_payment s = p \<and> so_batch s = None) (concat (map (payment_sources E t d) rows)) =
    map (\<lambda>r. \<lparr>so_payment = py_id r, so_batch = None, so_principal = False,
        so_remaining = py_external r - channel_returned t (py_id r) d\<rparr>) (filter (\<lambda>r. py_id r = p) rows)"
proof -
  have none: "filter (\<lambda>s. so_payment s = p \<and> so_batch s = None) (concat (map (batch_sources t i d) as)) = []" for i as
    by (auto simp: filter_empty_conv batch_sources_def)
  show ?thesis by (induction rows) (simp_all add: payment_sources_def none)
qed

lemma filter_zip_fst: "length xs = length ys \<Longrightarrow> map fst (filter (\<lambda>s. P (fst s)) (zip xs ys)) = filter P xs"
  by (induction xs ys rule: list_induct2) simp_all

lemma filter_one: "distinct (map f xs) \<Longrightarrow> length (filter (\<lambda>x. f x = y) xs) \<le> 1"
proof (induction xs)
  case (Cons x xs)
  then show ?case by (auto simp: filter_empty_conv) (metis imageI)
qed simp

lemma first_share_cases:
  "first_share b k ss = 0 \<or> (\<exists>s. (s, first_share b k ss) \<in> set ss \<and> so_batch s = Some b \<and> so_principal s = k)"
proof (cases "find (\<lambda>s. so_batch (fst s) = Some b \<and> so_principal (fst s) = k) ss")
  case None
  then show ?thesis by (simp add: first_share_def)
next
  case (Some e)
  then have "e \<in> set ss" "so_batch (fst e) = Some b" "so_principal (fst e) = k" by (auto simp: find_Some_iff)
  then show ?thesis using Some unfolding first_share_def by (intro disjI2 exI [of _ "fst e"]) simp
qed

lemma group_affords:
  assumes R: "repaid ps as rs bs" and d: "money_facts d = (ps, as, rs, bs)"
    and rows: "\<And>r. r \<in> set rows \<Longrightarrow> payment_fact r \<in> set ps \<and> py_tenant r = t" "distinct (map py_id rows)"
    and sources: "sources = concat (map (payment_sources E t d) rows)"
    and alloc: "allocate_cents whole (map so_remaining sources) = Inr portions" "whole \<le> sum_list (map so_remaining sources)"
    and p: "p \<in> py_id ` set rows"
  shows "affords ps as rs bs t p (shares_of (zip sources portions) p)"
proof -
  let ?ss = "shares_of (zip sources portions) p"
  have len: "length portions = length sources" using cents.alloc_length [OF alloc(1)] by simp
  have share: "x \<le> so_remaining s \<and> so_payment s = p \<and> (\<exists>r\<in>set rows. py_id r = p \<and> s \<in> set (payment_sources E t d r))"
    if s: "(s, x) \<in> set ?ss" for s x
  proof -
    obtain k where k: "k < length sources" "s = sources ! k" "x = portions ! k" and sp: "so_payment s = p"
      using s by (auto simp: shares_of_def set_zip)
    then have le: "x \<le> so_remaining s" using cents.alloc_le [OF alloc, of k] by simp
    have "s \<in> set sources" using k by simp
    then obtain r where "r \<in> set rows" "s \<in> set (payment_sources E t d r)" unfolding sources by auto
    then show ?thesis using payment_source(1) sp le by metis
  qed
  have sums: "channel_returned t q d = channel_back t q rs" "given_back f t q b d = wallet_back f t q b rs bs" for f q b
    using d unfolding channel_returned_facts given_back_facts money_facts_def by auto
  obtain r0 where r0: "r0 \<in> set rows" "py_id r0 = p" using p by auto
  have fact: "(t, p, py_external r) \<in> set ps" if "r \<in> set rows" "py_id r = p" for r
    using rows(1) [OF that(1)] that(2) by (auto simp: payment_fact_def)
  have one: "z = z'" if "(t, p, z) \<in> set ps" "(t, p, z') \<in> set ps" for z z'
    using same_id [OF repaidD(1) [OF R] that] by simp
  have taken: "y = y' \<and> z = z'" if "(t, p, b, y, z) \<in> set as" "(t, p, b, y', z') \<in> set as" for b y z y' z'
    using same_id [OF repaidD(2) [OF R] that] by simp
  have batch: "\<exists>y z. (t, p, b, y, z) \<in> set as \<and> x \<le> (if so_principal s then y - wallet_back ra_principal t p b rs bs
      else z - wallet_back ra_gift t p b rs bs)" if sx: "(s, x) \<in> set ?ss" "so_batch s = Some b" for s x b
  proof -
    obtain r where r: "r \<in> set rows" "py_id r = p" "s \<in> set (payment_sources E t d r)" and le: "x \<le> so_remaining s"
      using share [OF sx(1)] by blast
    have as_rows: "map taken_fact (allocations d) = as" using d by (simp add: money_facts_def)
    obtain y z where "(t, p, b, y, z) \<in> set as" "so_remaining s = (if so_principal s then y - wallet_back ra_principal t p b rs bs
        else z - wallet_back ra_gift t p b rs bs)"
      using payment_source(3) [OF r(3) sx(2)] unfolding r(2) sums as_rows by blast
    moreover have "x \<le> (if so_principal s then y - wallet_back ra_principal t p b rs bs
        else z - wallet_back ra_gift t p b rs bs)" using le calculation(2) by simp
    ultimately show ?thesis by blast
  qed
  have channel: "channel_back t p rs + share_sum (\<lambda>s. so_batch s = None) ?ss \<le> z" if z: "(t, p, z) \<in> set ps" for z
  proof -
    let ?C = "filter (\<lambda>s. so_batch (fst s) = None) ?ss"
    have "?C = filter (\<lambda>s. so_payment (fst s) = p \<and> so_batch (fst s) = None) (zip sources portions)"
      by (simp add: shares_of_def conj_commute)
    then have m: "map fst ?C = filter (\<lambda>s. so_payment s = p \<and> so_batch s = None) sources"
      using filter_zip_fst [OF len [symmetric], of "\<lambda>s. so_payment s = p \<and> so_batch s = None"] by simp
    have n: "length (filter (\<lambda>s. so_payment s = p \<and> so_batch s = None) sources) = length (filter (\<lambda>r. py_id r = p) rows)"
      unfolding sources channel_source [OF rows(2)] by simp
    have "length ?C = length (filter (\<lambda>r. py_id r = p) rows)"
      using arg_cong [OF m, of length] unfolding n length_map .
    then have "length ?C \<le> 1" using filter_one [OF rows(2)] by simp
    then consider "?C = []" | s x where "?C = [(s, x)]" by (cases ?C) auto
    then show ?thesis
    proof cases
      case 1
      then show ?thesis using repaidD(4) [OF R z] by (simp add: share_sum_def)
    next
      case 2
      then have "(s, x) \<in> set ?C" by simp
      then have s: "(s, x) \<in> set ?ss" "so_batch s = None" by simp_all
      obtain r where r: "r \<in> set rows" "py_id r = p" "s \<in> set (payment_sources E t d r)" and le: "x \<le> so_remaining s"
        using share [OF s(1)] by blast
      have "x \<le> z - channel_back t p rs"
        using payment_source(2) [OF r(3) s(2)] le one [OF z fact [OF r(1,2)]] unfolding r(2) sums by simp
      then show ?thesis using 2 by (simp add: share_sum_def)
    qed
  qed
  have principal_le: "wallet_back ra_principal t p b rs bs + first_share b True ?ss \<le> y" if a: "(t, p, b, y, z) \<in> set as" for b y z
    using first_share_cases [of b True ?ss]
  proof
    assume "\<exists>s. (s, first_share b True ?ss) \<in> set ?ss \<and> so_batch s = Some b \<and> so_principal s = True"
    then obtain s where s: "(s, first_share b True ?ss) \<in> set ?ss" "so_batch s = Some b" "so_principal s" by auto
    obtain y' z' where yz: "(t, p, b, y', z') \<in> set as" "first_share b True ?ss \<le> y' - wallet_back ra_principal t p b rs bs"
      using batch [OF s(1,2)] s(3) by auto
    show ?thesis using taken [OF a yz(1)] yz(2) by simp
  qed (use repaidD(5) [OF R a] in simp)
  have gift_le: "wallet_back ra_gift t p b rs bs + first_share b False ?ss \<le> z" if a: "(t, p, b, y, z) \<in> set as" for b y z
    using first_share_cases [of b False ?ss]
  proof
    assume "\<exists>s. (s, first_share b False ?ss) \<in> set ?ss \<and> so_batch s = Some b \<and> so_principal s = False"
    then obtain s where s: "(s, first_share b False ?ss) \<in> set ?ss" "so_batch s = Some b" "\<not> so_principal s" by auto
    obtain y' z' where yz: "(t, p, b, y', z') \<in> set as" "first_share b False ?ss \<le> z' - wallet_back ra_gift t p b rs bs"
      using batch [OF s(1,2)] s(3) by auto
    show ?thesis using taken [OF a yz(1)] yz(2) by simp
  qed (use repaidD(5) [OF R a] in simp)
  show ?thesis
    unfolding affords_def
  proof (intro conjI ballI allI impI channel principal_le gift_le)
    show "\<exists>z. (t, p, z) \<in> set ps" using fact [OF r0] by blast
    show "\<exists>y z. (t, p, b, y, z) \<in> set as" if ob: "b \<in> set (owned_batches ?ss)" for b
    proof -
      obtain s x where "(s, x) \<in> set ?ss" "so_batch s = Some b"
        using ob by (auto simp: owned_batches_def set_firsts split: option.splits)
      then show ?thesis using batch by blast
    qed
  qed
qed

section \<open>Every group of refunds is repaid\<close>

lemma ensures_read:
  "(\<And>E d. P d \<Longrightarrow> ensures P (k (f E d)) Q) \<Longrightarrow> ensures P (tbind (tenv f) (\<lambda>g. tbind (tread g) k)) Q"
  by (auto simp: ensures_def tbind_Inr tenv_Inr tread_Inr)

lemma ensures_guarded: "(C \<Longrightarrow> ensures P n Q) \<Longrightarrow> ensures P (tseq (tguard C e) n) Q"
  by (auto simp: ensures_def tseq_Inr tguard_Inr)

lemma ensures_pure: "(\<And>x. c = Inr x \<Longrightarrow> ensures P (k x) Q) \<Longrightarrow> ensures P (tbind (tlift f c) k) Q"
  by (auto simp: ensures_def tbind_Inr tlift_Inr)

text \<open>What follows the refunds' rows leaves the facts alone.\<close>

lemma repaid_same: "(\<And>b. keeps (\<lambda>d. money_facts d = b) m) \<Longrightarrow> keeps repaid_ok m"
proof (rule keepsI)
  fix E d x d' assume m: "\<And>b. keeps (\<lambda>d. money_facts d = b) m" and I: "repaid_ok d" and run: "m E d = Inr (x, d')"
  obtain ps as rs bs where f: "money_facts d = (ps, as, rs, bs)" by (cases "money_facts d") blast
  have "money_facts d' = (ps, as, rs, bs)" using keepsD [OF m f run] .
  then show "repaid_ok d'" using I f by (simp add: repaid_facts)
qed

lemma refund_tail_repaid:
  "keeps repaid_ok (tseq (teach (cancel_refunded t) is)
     (tbind (tread (has_open_lines t i)) (\<lambda>open_lines.
      tseq (update_order t i (closed_if_empty open_lines)) (tseq (record_tenant_audit a s g ds) (tret res)))))"
  unfolding cancel_refunded_def
  by (intro keeps_intros repaid_same facts_orders facts_channels.inv_audit TrueI)

lemma paid_payment_facts:
  assumes "money_facts d = (ps, as, rs, bs)" "repaid ps as rs bs"
  shows "r \<in> set (paid_payments E t i d) \<Longrightarrow> payment_fact r \<in> set ps \<and> py_tenant r = t"
    and "distinct (map py_id (paid_payments E t i d))"
proof -
  have ps_rows: "ps = map payment_fact (payments d)" using assms(1) by (simp add: money_facts_def)
  show "r \<in> set (paid_payments E t i d) \<Longrightarrow> payment_fact r \<in> set ps \<and> py_tenant r = t"
    by (auto simp: paid_payments_def ps_rows)
  have "distinct (map py_id (payments d))"
    using repaidD(1) [OF assms(2)] by (simp add: ps_rows payment_fact_def comp_def)
  then show "distinct (map py_id (paid_payments E t i d))"
    by (simp add: paid_payments_def distinct_map_sort_by distinct_map_filter)
qed

lemma refund_shares_repaid:
  assumes R: "repaid ps as rs bs"
    and A: "\<And>p. p \<in> set ids \<Longrightarrow> affords ps as rs bs (ac_tenant a) p (shares_of shares p)" "distinct ids"
  shows "ensures (\<lambda>d. money_facts d = (ps, as, rs, bs))
    (refund_payments a r reason gid ls first remainders (map (\<lambda>p. (p, shares_of shares p)) ids)) (\<lambda>_. repaid_ok)"
  by (rule ensures_pre [OF refund_payments_repaid]) (use R A in \<open>auto simp: comp_def\<close>)

lemma used_payments_set: "set (used_payments whole ss ids) \<subseteq> set ids"
  by (auto simp: used_payments_def)

lemma distinct_used: "distinct ids \<Longrightarrow> distinct (used_payments whole ss ids)"
  by (simp add: used_payments_def)

lemma refund_group_ensures_repaid:
  assumes R: "repaid ps as rs bs"
  shows "ensures (\<lambda>d. money_facts d = (ps, as, rs, bs)) (create_refund_group a i reason is amendment) (\<lambda>_. repaid_ok)"
  unfolding create_refund_group_def Let_def
proof (rule ensures_after(2) [OF keeps_tlift], rule ensures_after(1) [OF facts_channels.keeps_reading [OF reads_order_readers(2)]],
    rule ensures_after(1) [OF keeps_tread], rule ensures_after(2) [OF keeps_tlift], rule ensures_after(2) [OF keeps_tlift],
    rule ensures_read, rule ensures_after(2) [OF keeps_tguard], rule ensures_read, rule ensures_guarded, rule ensures_pure,
    rule ensures_after(1) [OF facts_channels.keeps_counters(2)],
    rule ensures_after(2) [OF facts_refunds.inv_refund_group_row [OF TrueI]], rule ensures_tseq [OF refund_shares_repaid [OF R]])
  fix w :: order_record and d0 d1 :: db and E0 E1 :: env and portions :: "cents list" and p :: string
  let ?t = "ac_tenant a" and ?whole = "sum_list (map fi_cents is)"
  let ?rows = "paid_payments E0 ?t (or_id (ow_row w)) d0"
  let ?sources = "concat (map (payment_sources E1 ?t d1) ?rows)"
  assume d0: "money_facts d0 = (ps, as, rs, bs)" and d1: "money_facts d1 = (ps, as, rs, bs)"
    and ok: "\<not> (sum_list (map so_remaining ?sources) < ?whole \<or> list_ex (\<lambda>s. so_remaining s < 0) ?sources)"
    and alloc: "allocate_cents ?whole (map so_remaining ?sources) = Inr portions"
  show "distinct (used_payments ?whole (zip ?sources portions) (map py_id ?rows))"
    by (rule distinct_used, rule paid_payment_facts(2) [OF d0 R])
  assume p: "p \<in> set (used_payments ?whole (zip ?sources portions) (map py_id ?rows))"
  show "affords ps as rs bs ?t p (shares_of (zip ?sources portions) p)"
    by (rule group_affords [OF R d1 paid_payment_facts(1) [OF d0 R] paid_payment_facts(2) [OF d0 R] refl alloc])
      (use ok subsetD [OF used_payments_set p] in \<open>simp_all add: not_less\<close>)
qed (rule refund_tail_repaid [unfolded keeps_ensures])

section \<open>Every operation\<close>

text \<open>A new payment has no refunds yet; nor has a new portion of the wallet.\<close>

lemma repaid_new_payment:
  assumes R: "repaid ps as rs bs" and fresh: "p \<notin> (\<lambda>q. fst (snd q)) ` set ps" and x: "0 \<le> x"
  shows "repaid (ps @ [(t, p, x)]) as rs bs"
proof (rule repaidI)
  have "\<not> (fst (snd r) = t \<and> fst (snd (snd r)) = p)" if r: "r \<in> set rs" for r
  proof
    assume "fst (snd r) = t \<and> fst (snd (snd r)) = p"
    then have "(fst r, t, p, snd (snd (snd r))) \<in> set rs" using r by (cases r) simp
    then obtain z where "(t, p, z) \<in> set ps" using repaidD(6) [OF R] by blast
    then show False using fresh by force
  qed
  then have "channel_back t p rs = 0" by (simp add: channel_back_def filter_empty_conv)
  then show "channel_back t' p' rs \<le> z" if "(t', p', z) \<in> set (ps @ [(t, p, x)])" for t' p' z
    using that repaidD(4) [OF R] x by auto
  show "\<exists>z. (t', p', z) \<in> set (ps @ [(t, p, x)])" if "(i, t', p', y) \<in> set rs" for i t' p' y
    using repaidD(6) [OF R that] by auto
qed (use repaidD [OF R] fresh in \<open>simp_all\<close>)

lemma repaid_new_portion:
  assumes R: "repaid ps as rs bs" and fresh: "(t, p, b) \<notin> (\<lambda>a. (fst a, fst (snd a), fst (snd (snd a)))) ` set as"
    and xy: "0 \<le> x" "0 \<le> y"
  shows "repaid ps (as @ [(t, p, b, x, y)]) rs bs"
proof (rule repaidI)
  have only: "p = q" if "of_payment t p rs i" "of_payment t q rs i" for q i
    using that same_id [OF repaidD(3) [OF R]] by (fastforce simp: of_payment_def)
  have "\<not> (ra_tenant a = t \<and> ra_batch a = b \<and> of_payment t p rs (ra_refund a))" if "a \<in> set bs" for a
    using repaidD(7) [OF R that] only fresh by force
  then have none: "wallet_back f t p b rs bs = 0" for f by (simp add: wallet_back_def filter_empty_conv)
  show "wallet_back ra_principal t' p' b' rs bs \<le> y' \<and> wallet_back ra_gift t' p' b' rs bs \<le> z'"
    if "(t', p', b', y', z') \<in> set (as @ [(t, p, b, x, y)])" for t' p' b' y' z'
    using that repaidD(5) [OF R] xy none by auto
  show "\<exists>q. of_payment (ra_tenant a) q rs (ra_refund a) \<and> (\<exists>y' z'. (ra_tenant a, q, ra_batch a, y', z') \<in> set (as @ [(t, p, b, x, y)]))"
    if "a \<in> set bs" for a
    using repaidD(7) [OF R that] by auto
qed (use repaidD [OF R] fresh in \<open>simp_all\<close>)

lemma insert_payment_Inr:
  "insert_payment r E d = Inr res \<longleftrightarrow> payment_checks r \<and> payments_unique (payments d @ [r]) \<and>
     res = ((), d\<lparr>payments := payments d @ [r]\<rparr>)"
  by (auto simp: insert_payment_def ok_iff)

lemma payments_clash_id: "py_id p = py_id q \<Longrightarrow> payments_clash p q"
  by (simp add: payments_clash_def)

lemma insert_payment_repaid: "keeps repaid_ok (insert_payment r)"
proof (rule keepsI)
  fix E d x d' assume I: "repaid_ok d" and run: "insert_payment r E d = Inr (x, d')"
  note ins = run [unfolded insert_payment_Inr, simplified]
  have d': "d' = d\<lparr>payments := payments d @ [r]\<rparr>" and pos: "0 \<le> py_external r" using ins by (simp_all add: payment_checks_def)
  have fresh: "py_id r \<notin> py_id ` set (payments d)"
    using ins payments_clash_id [of _ r] by (auto simp: payments_unique_def sorted_wrt_append)
  have "py_id r \<notin> (\<lambda>q. fst (snd q)) ` set (map payment_fact (payments d))"
    using fresh by (auto simp: payment_fact_def)
  from repaid_new_payment [OF I [unfolded repaid_ok_def] this pos]
  show "repaid_ok d'" by (simp add: d' repaid_ok_def payment_fact_def)
qed

lemma insert_allocation_repaid: "keeps repaid_ok (insert_allocation r)"
proof (rule keepsI)
  fix E d x d' assume I: "repaid_ok d" and run: "insert_allocation r E d = Inr (x, d')"
  note ins = insert_allocation_Inr [OF run]
  have pos: "0 \<le> wa_principal r" "0 \<le> wa_gift r" using run by (auto simp: insert_allocation_def ok_iff)
  have "(wa_tenant r, wa_payment r, wa_batch r) \<notin> (\<lambda>a. (fst a, fst (snd a), fst (snd (snd a)))) ` set (map taken_fact (allocations d))"
    using ins by (auto simp: taken_fact_def allocation_key_def)
  from repaid_new_portion [OF I [unfolded repaid_ok_def] this pos]
  show "repaid_ok d'" using ins by (simp add: repaid_ok_def taken_fact_def)
qed

lemma facts_update_payment: "same_payment f \<Longrightarrow> keeps (\<lambda>d. money_facts d = b) (update_payment t i f)"
proof (rule keepsI)
  fix E d x d' assume f: "same_payment f" and I: "money_facts d = b" and run: "update_payment t i f E d = Inr (x, d')"
  then obtain now n where d': "d' = d\<lparr>ticks := n, payments := map (change_payment t i (f now)) (payments d)\<rparr>"
    unfolding update_payment_def by (auto simp: ok_iff)
  have "payment_fact (change_payment t i (f now) r) = payment_fact r" for r
    using f by (simp add: same_payment_def change_payment_def payment_fact_def)
  then show "money_facts d' = b" using I by (simp add: d' money_facts_def comp_def)
qed

lemma facts_wallet_writes:
  "keeps (\<lambda>d. money_facts d = b) (lock_wallet t c)" "keeps (\<lambda>d. money_facts d = b) (insert_batch r)"
  "keeps (\<lambda>d. money_facts d = b) (adjust_batch t c i f)" "keeps (\<lambda>d. money_facts d = b) (set_allocation_status t p' b' st)"
  "keeps (\<lambda>d. money_facts d = b) (insert_entry e)"
proof -
  have "taken_fact (status_row t p' b' st a) = taken_fact a" for a by (simp add: status_row_def taken_fact_def)
  then show "keeps (\<lambda>d. money_facts d = b) (set_allocation_status t p' b' st)"
    by (auto simp: keeps_def set_allocation_status_def ok_iff money_facts_def comp_def)
qed (auto simp: keeps_def lock_wallet_def insert_batch_def adjust_batch_def insert_entry_def ok_iff money_facts_def)

lemma facts_order_writes:
  "keeps (\<lambda>d. money_facts d = b) (insert_quote q)" "keeps (\<lambda>d. money_facts d = b) (insert_order r)"
  "keeps (\<lambda>d. money_facts d = b) (insert_line l)" "keeps (\<lambda>d. money_facts d = b) (update_amendment t i k)"
  "keeps (\<lambda>d. money_facts d = b) (insert_occupancy c)" "keeps (\<lambda>d. money_facts d = b) (move_occupancy a i v court s e)"
  "keeps (\<lambda>d. money_facts d = b) (insert_receipt rc)" "keeps (\<lambda>d. money_facts d = b) (complete_receipt a key result)"
  "keeps (\<lambda>d. money_facts d = b) (insert_link cl)" "keeps (\<lambda>d. money_facts d = b) (insert_customer cu)"
  "keeps (\<lambda>d. money_facts d = b) (set_phone t i p)"
  by (auto simp: keeps_def insert_quote_def insert_order_def insert_line_def update_amendment_def insert_occupancy_def
      move_occupancy_def insert_receipt_def complete_receipt_def insert_link_def insert_customer_def set_phone_def ok_iff money_facts_def)

text \<open>So every command of the bookings, the wallet and the refunds keeps it.\<close>

interpretation repaid_commands: receiptless_invariant repaid_ok "\<lambda>_. True"
proof
  show "repaid_ok (d\<lparr>ticks := n\<rparr>)" "repaid_ok (d\<lparr>uuids := n\<rparr>)" if "repaid_ok d" for d n
    using that by (simp_all add: repaid_ok_def)
qed (intro repaid_same facts_order_writes facts_channels.inv_audit TrueI)+

interpretation repaid_customers: customer_writes repaid_ok "\<lambda>_. True"
  by unfold_locales (intro repaid_same facts_order_writes)+

interpretation repaid_wallet: wallet_writes repaid_ok "\<lambda>_. True"
  by unfold_locales (intro insert_allocation_repaid repaid_same facts_wallet_writes)+

lemma release_occupancies_repaid:
  "repaid_ok d \<Longrightarrow> repaid_ok (d\<lparr>occupancies := cs\<rparr>)"
  by (simp add: repaid_ok_def)

interpretation repaid_orders: booking_writes repaid_ok "\<lambda>_. True"
  by unfold_locales
    (intro insert_payment_repaid release_occupancies_repaid repaid_same facts_order_writes facts_orders facts_update_payment; assumption)+

interpretation repaid_refunds: refund_invariant repaid_ok "\<lambda>_. True"
proof
  show "keeps repaid_ok (create_refund_group a i reason is amendment)" for a i reason "is" amendment
    by (rule keepsI, rule ensuresD [OF refund_group_ensures_repaid]) (auto simp: repaid_ok_def money_facts_def)
qed (intro repaid_same facts_refunds.inv_update_refund facts_refunds.inv_refund_event facts_refunds.inv_refund_receipt
    facts_refunds.inv_refund_line facts_refunds.inv_refund_group_row facts_refunds.inv_give_back facts_refunds.inv_refund_wallet
    facts_refunds.inv_refresh facts_channels.keeps_channel TrueI; assumption)+

section \<open>Property\<close>

text \<open>A paid order: 500 by the channel, 200 of principal and 100 of gift from the wallet.\<close>

definition paid_price :: court_price where
  "paid_price = \<lparr>start_at = ''2026-03-02T10:00Z'', end_at = ''2026-03-02T11:00Z'', cp_court = ''c1'', cp_venue = ''v'',
     cp_total = 800, cp_segments = []\<rparr>"

definition paid_db :: db where
  "paid_db = sample_db\<lparr>
     orders := [\<lparr>or_id = ''o'', or_tenant = ''t'', or_venue = ''v'', or_customer = ''k'', or_quote = ''q'', or_created_by = ''admin'',
        or_status = Confirmed, or_payment = Paid, or_total = 800, or_hold_kind = PaymentHold, or_hold_until = None, or_hold_reason = None,
        or_request = JNull, or_price = \<lparr>ps_venue = ''v'', ps_revision = 1, ps_total = 800, ps_lines = [paid_price]\<rparr>, or_revision = 3, or_created = 0, or_updated = 0\<rparr>],
     order_lines := [\<lparr>ol_id = ''l'', ol_tenant = ''t'', ol_venue = ''v'', ol_order = ''o'', ol_court = ''c1'', ol_position = 0,
        ol_start = 1772445600000, ol_end = 1772449200000, ol_amount = 800, ol_funding = 800, ol_price = paid_price, ol_cancelled = None,
        ol_cancelled_before_payment = False\<rparr>],
     payments := [\<lparr>py_id = ''p'', py_tenant = ''t'', py_venue = ''v'', py_customer = ''k'', py_order = ''o'', py_amendment = None,
        py_provider = MockProvider, py_merchant = ''mock:t'', py_external = 500, py_wallet = 300, py_status = Succeeded,
        py_transaction = Some ''x'', py_created_by = ''admin'', py_created = 0, py_settled = Some 1\<rparr>],
     channel_transactions := [\<lparr>cx_provider = MockProvider, cx_merchant = ''mock:t'', cx_transaction = ''x'', cx_tenant = ''t'',
        cx_source_type = OrderSource, cx_source = ''p'', cx_amount = 500\<rparr>],
     merchants := [local_binding ''t'' ''m''],
     wallets := [(''t'', ''k'')],
     batches := [\<lparr>wr_id = ''b'', wr_tenant = ''t'', wr_customer = ''k'', wr_venue = ''v'', wr_principal = 200, wr_gift = 100,
        wr_avail_principal = 0, wr_avail_gift = 0, wr_res_principal = 0, wr_res_gift = 0, wr_source_kind = Offline,
        wr_source_reference = ''r'', wr_reason = ''r'', wr_created_by = ''admin''\<rparr>],
     allocations := [\<lparr>wa_tenant = ''t'', wa_customer = ''k'', wa_payment = ''p'', wa_batch = ''b'', wa_principal = 200, wa_gift = 100,
        wa_status = Consumed\<rparr>]\<rparr>"

definition refund_input :: "refund_line_input list" where
  "refund_input = [\<lparr>fi_line = ''l'', fi_cents = 400, fi_cancel = True\<rparr>]"

lemma op_keeps_snd: "op_keeps I m \<Longrightarrow> I d \<Longrightarrow> I (snd (m E d))"
  by (simp add: op_keeps_def)

lemma repaid_paid_db: "repaid_ok paid_db"
  by (simp add: repaid_ok_def repaid_def paid_db_def sample_db_def empty_db_def channel_back_def wallet_back_def payment_fact_def
      taken_fact_def)

text \<open>
  C22: Refunds never exceed what was paid. Whatever staff requests or retries and whatever the provider answers, for every
  payment the channel refunds on record, requested ones included, amount to no more than the channel captured for it, and
  for every batch of the wallet the principal and the gift given back are no more than the payment took from it.
\<close>

theorem refunds_within_payments:
  assumes "repaid_ok d"
    and "d' = snd (request_order_refund_group a i expected reason key ls E d) \<or>
      d' = snd (request_order_refund a i expected reason key ls E d) \<or> d' = snd (retry_failed_refund a i key E d) \<or>
      d' = snd (settle_verified_refund verified v E d)"
  shows "repaid_ok d' \<and>
    (\<forall>p\<in>set (payments d'). channel_returned (py_tenant p) (py_id p) d' \<le> py_external p) \<and>
    (\<forall>w\<in>set (allocations d').
       given_back ra_principal (wa_tenant w) (wa_payment w) (wa_batch w) d' \<le> wa_principal w \<and>
       given_back ra_gift (wa_tenant w) (wa_payment w) (wa_batch w) d' \<le> wa_gift w)"
proof -
  have R: "repaid_ok d'"
    using assms(2)
    by (elim disjE; simp only:)
      (intro op_keeps_snd [where I = repaid_ok and d = d, OF _ assms(1)] repaid_refunds.request_refund_inv repaid_refunds.retry_failed_refund_inv
        repaid_refunds.settle_verified_refund_inv TrueI)+
  have "channel_returned (py_tenant p) (py_id p) d' \<le> py_external p" if "p \<in> set (payments d')" for p
    using repaidD(4) [OF R [unfolded repaid_ok_def], of "py_tenant p" "py_id p" "py_external p"] that
    unfolding channel_returned_facts by (force simp: payment_fact_def)
  moreover have "given_back ra_principal (wa_tenant w) (wa_payment w) (wa_batch w) d' \<le> wa_principal w \<and>
      given_back ra_gift (wa_tenant w) (wa_payment w) (wa_batch w) d' \<le> wa_gift w" if "w \<in> set (allocations d')" for w
    using repaidD(5) [OF R [unfolded repaid_ok_def], of "wa_tenant w" "wa_payment w" "wa_batch w" "wa_principal w" "wa_gift w"] that
    unfolding given_back_facts by (force simp: taken_fact_def)
  ultimately show ?thesis using R by blast
qed

theorem refunds_within_payments_witness:
  "\<exists>d'. request_order_refund_group sample_admin ''o'' 3 ''rain'' ''key-0001'' refund_input sample_env paid_db = (fst
      (request_order_refund_group sample_admin ''o'' 3 ''rain'' ''key-0001'' refund_input sample_env paid_db), d') \<and>
     channel_returned ''t'' ''p'' d' = 250 \<and> given_back ra_principal ''t'' ''p'' ''b'' d' = 100 \<and>
     given_back ra_gift ''t'' ''p'' ''b'' d' = 50 \<and> repaid_ok d'"
proof -
  let ?d = "snd (request_order_refund_group sample_admin ''o'' 3 ''rain'' ''key-0001'' refund_input sample_env paid_db)"
  have "channel_returned ''t'' ''p'' ?d = 250 \<and> given_back ra_principal ''t'' ''p'' ''b'' ?d = 100 \<and>
     given_back ra_gift ''t'' ''p'' ''b'' ?d = 50" by code_simp
  moreover have "repaid_ok ?d" using refunds_within_payments [OF repaid_paid_db disjI1 [OF refl]] by (rule conjunct1)
  ultimately show ?thesis by (intro exI [of _ ?d]) simp
qed

end
