(* ===== verification/Amended.thy ===== *)
theory Amended
  imports Payments Repaid
begin

text \<open>
  What the bookings, the ledger, the queue and the refunds promise is kept by the amendments and by
  the payments, however a provider answers.
\<close>

lemmas amendment_table_defs = insert_amendment_def insert_amendment_line_def approve_line_def update_amendment_def

lemmas payment_table_defs = insert_exception_def insert_payment_event_def insert_external_receipt_def insert_payment_def
  update_payment_def

interpretation ledger_payments: payment_commands wallet_ledger "\<lambda>_. True"
  by unfold_locales (auto simp: keeps_def amendment_table_defs payment_table_defs ok_iff wallet_ledger_def)

interpretation no_double_payments: payment_commands no_double_booking "\<lambda>_. True"
  by unfold_locales (auto simp: keeps_def amendment_table_defs payment_table_defs ok_iff no_double_booking_def)

interpretation queue_payments: payment_commands queue_ok "\<lambda>_. True"
  by unfold_locales (auto simp: keeps_def amendment_table_defs payment_table_defs ok_iff queue_ok_def)

lemma facts_payment_writes:
  "keeps (\<lambda>d. money_facts d = b) (insert_amendment m)" "keeps (\<lambda>d. money_facts d = b) (insert_amendment_line l)"
  "keeps (\<lambda>d. money_facts d = b) (approve_line t i k n)" "keeps (\<lambda>d. money_facts d = b) (insert_exception x)"
  "keeps (\<lambda>d. money_facts d = b) (insert_payment_event e)" "keeps (\<lambda>d. money_facts d = b) (insert_external_receipt r)"
  by (auto simp: keeps_def amendment_table_defs payment_table_defs ok_iff money_facts_def)

interpretation repaid_payments: payment_commands repaid_ok "\<lambda>_. True"
  by unfold_locales (intro insert_payment_repaid repaid_same facts_payment_writes facts_update_payment facts_order_writes; assumption)+

section \<open>The bookings while lines move\<close>

text \<open>
  Between the release of the old court times and the taking of the new ones: every live line is
  covered but those that still have to move.
\<close>

definition moving :: "string \<Rightarrow> string set \<Rightarrow> order_row list \<Rightarrow> order_line_row list \<Rightarrow> occupancy_row list \<Rightarrow> bool" where
  "moving t M os ls cs \<longleftrightarrow>
     distinct (map or_id os) \<and> distinct (map ol_id ls) \<and> distinct (map oc_id cs) \<and>
     (\<forall>l\<in>set ls. owned os l \<and> (live os l \<longrightarrow> \<not> (ol_tenant l = t \<and> ol_id l \<in> M) \<longrightarrow> (\<exists>c\<in>set cs. covers l c))) \<and>
     (\<forall>c\<in>set cs. (oc_line c = None \<or> oc_amendment c = None) \<and>
        (oc_released c = None \<longrightarrow> oc_line c \<noteq> None \<longrightarrow> (\<exists>l\<in>set ls. live os l \<and> covers l c))) \<and>
     (\<forall>x\<in>M. \<exists>l\<in>set ls. ol_id l = x \<and> ol_tenant l = t \<and> live os l)"

lemma moving_done: "moving t {} os ls cs = books os ls cs"
  by (auto simp: moving_def books_def)

lemma movingD:
  assumes "moving t M os ls cs"
  shows "distinct (map or_id os)" "distinct (map ol_id ls)" "distinct (map oc_id cs)"
    and "l \<in> set ls \<Longrightarrow> owned os l"
    and "l \<in> set ls \<Longrightarrow> live os l \<Longrightarrow> \<not> (ol_tenant l = t \<and> ol_id l \<in> M) \<Longrightarrow> \<exists>c\<in>set cs. covers l c"
    and "c \<in> set cs \<Longrightarrow> oc_released c = None \<Longrightarrow> oc_line c = Some i \<Longrightarrow> \<exists>l\<in>set ls. live os l \<and> covers l c"
    and "c \<in> set cs \<Longrightarrow> oc_line c = None \<or> oc_amendment c = None"
    and "x \<in> M \<Longrightarrow> \<exists>l\<in>set ls. ol_id l = x \<and> ol_tenant l = t \<and> live os l"
proof -
  note parts = assms [unfolded moving_def]
  show "distinct (map or_id os)" "distinct (map ol_id ls)" "distinct (map oc_id cs)" using parts by simp_all
  have lines: "\<forall>l\<in>set ls. owned os l \<and> (live os l \<longrightarrow> \<not> (ol_tenant l = t \<and> ol_id l \<in> M) \<longrightarrow> (\<exists>c\<in>set cs. covers l c))"
    and rows: "\<forall>c\<in>set cs. (oc_line c = None \<or> oc_amendment c = None) \<and>
        (oc_released c = None \<longrightarrow> oc_line c \<noteq> None \<longrightarrow> (\<exists>l\<in>set ls. live os l \<and> covers l c))"
    and rest: "\<forall>x\<in>M. \<exists>l\<in>set ls. ol_id l = x \<and> ol_tenant l = t \<and> live os l"
    using parts by argo+
  show "l \<in> set ls \<Longrightarrow> owned os l" using bspec [OF lines, of l] by argo
  show "l \<in> set ls \<Longrightarrow> live os l \<Longrightarrow> \<not> (ol_tenant l = t \<and> ol_id l \<in> M) \<Longrightarrow> \<exists>c\<in>set cs. covers l c"
    using bspec [OF lines, of l] by argo
  show "c \<in> set cs \<Longrightarrow> oc_released c = None \<Longrightarrow> oc_line c = Some i \<Longrightarrow> \<exists>l\<in>set ls. live os l \<and> covers l c"
    using bspec [OF rows, of c] by simp
  show "c \<in> set cs \<Longrightarrow> oc_line c = None \<or> oc_amendment c = None" using bspec [OF rows, of c] by argo
  show "x \<in> M \<Longrightarrow> \<exists>l\<in>set ls. ol_id l = x \<and> ol_tenant l = t \<and> live os l" using rest by (rule bspec)
qed

lemma movingI:
  assumes "distinct (map or_id os)" "distinct (map ol_id ls)" "distinct (map oc_id cs)"
    and "\<And>l. l \<in> set ls \<Longrightarrow> owned os l"
    and "\<And>l. l \<in> set ls \<Longrightarrow> live os l \<Longrightarrow> \<not> (ol_tenant l = t \<and> ol_id l \<in> M) \<Longrightarrow> \<exists>c\<in>set cs. covers l c"
    and "\<And>c i. c \<in> set cs \<Longrightarrow> oc_released c = None \<Longrightarrow> oc_line c = Some i \<Longrightarrow> \<exists>l\<in>set ls. live os l \<and> covers l c"
    and "\<And>c. c \<in> set cs \<Longrightarrow> oc_line c = None \<or> oc_amendment c = None"
    and "\<And>x. x \<in> M \<Longrightarrow> \<exists>l\<in>set ls. ol_id l = x \<and> ol_tenant l = t \<and> live os l"
  shows "moving t M os ls cs"
  unfolding moving_def
  by (intro conjI ballI impI assms(1,2,3); (rule assms(4,5,7,8); assumption | elim not_None_eq [THEN iffD1, THEN exE]; rule assms(6); assumption))

text \<open>The release: the rows named by the amendment are the court times of its lines.\<close>

lemma moving_start:
  assumes B: "books os ls cs"
    and lines: "\<And>k. k \<in> set ks \<Longrightarrow> \<exists>c\<in>set cs. oc_tenant c = t \<and> oc_id c = al_occupancy k \<and> oc_line c = Some (al_line k) \<and> oc_released c = None"
  shows "moving t (set (map al_line ks)) os ls (release_rows now (original_or_held t i ks) cs)"
proof (rule movingI)
  have row: "\<exists>k\<in>set ks. oc_line c = Some (al_line k)" if "c \<in> set cs" and owns: "original_or_held t i ks c" and taken: "oc_line c \<noteq> None" for c
  proof -
    have "oc_amendment c = None" using booksD(7) [OF B that(1)] taken by blast
    obtain k where k: "k \<in> set ks" "oc_id c = al_occupancy k" using \<open>oc_amendment c = None\<close> owns by (auto simp: original_or_held_def)
    obtain c' where c': "c' \<in> set cs" "oc_id c' = al_occupancy k" "oc_line c' = Some (al_line k)" using lines [OF k(1)] by blast
    have "c = c'" using same_id [OF booksD(3) [OF B] that(1) c'(1)] k(2) c'(2) by simp
    then show ?thesis using k(1) c'(3) by blast
  qed
  show "distinct (map oc_id (release_rows now (original_or_held t i ks) cs))" using booksD(3) [OF B] by simp
  show "\<exists>c\<in>set (release_rows now (original_or_held t i ks) cs). covers l c"
    if l: "l \<in> set ls" "live os l" "\<not> (ol_tenant l = t \<and> ol_id l \<in> set (map al_line ks))" for l
  proof -
    obtain c where c: "c \<in> set cs" "covers l c" using booksD(5) [OF B l(1,2)] by blast
    have "\<not> original_or_held t i ks c"
    proof
      assume P: "original_or_held t i ks c"
      obtain k where k: "k \<in> set ks" "oc_line c = Some (al_line k)" using row [OF c(1) P] c(2) by (auto simp: covers_def)
      have "al_line k \<in> set (map al_line ks)" using k(1) by simp
      moreover have "ol_id l = al_line k" using k(2) c(2) by (simp add: covers_def)
      moreover have "ol_tenant l = t" using c(2) P by (simp add: covers_def original_or_held_def)
      ultimately show False using l(3) by simp
    qed
    then show ?thesis using release_rows_stay [OF c(1)] c(2) by blast
  qed
  show "\<exists>l\<in>set ls. live os l \<and> covers l c"
    if c: "c \<in> set (release_rows now (original_or_held t i ks) cs)" "oc_released c = None" "oc_line c = Some j" for c j
    using booksD(6) [OF B release_rows_cases(1) [OF c(1,2)] c(2,3)] .
  show "oc_line c = None \<or> oc_amendment c = None" if "c \<in> set (release_rows now (original_or_held t i ks) cs)" for c
    using release_rows_plain [OF that] booksD(7) [OF B] by force
  show "\<exists>l\<in>set ls. ol_id l = x \<and> ol_tenant l = t \<and> live os l" if x: "x \<in> set (map al_line ks)" for x
  proof -
    obtain k where k: "k \<in> set ks" "x = al_line k" using x by auto
    obtain c where c: "c \<in> set cs" "oc_tenant c = t" "oc_line c = Some x" "oc_released c = None" using lines [OF k(1)] k(2) by blast
    show ?thesis using booksD(6) [OF B c(1) c(4) c(3)] c(2,3) by (auto simp: covers_def)
  qed
qed (use booksD [OF B] in blast)+

text \<open>One line takes its new court time, and no other row of the line is left.\<close>

lemma moving_step:
  assumes M: "moving t (insert x M) os ls cs"
    and g: "\<And>l. ol_id (g l) = ol_id l \<and> ol_tenant (g l) = ol_tenant l \<and> ol_order (g l) = ol_order l \<and> ol_cancelled (g l) = ol_cancelled l"
      "\<And>l. \<not> (ol_tenant l = t \<and> ol_id l = x) \<Longrightarrow> g l = l"
    and new: "oc_id c \<notin> oc_id ` set cs" "oc_amendment c = None"
      "\<And>l. ol_tenant l = t \<Longrightarrow> ol_id l = x \<Longrightarrow> covers (g l) c"
    and free: "\<And>c'. c' \<in> set cs \<Longrightarrow> oc_released c' = None \<Longrightarrow> oc_tenant c' = t \<Longrightarrow> oc_line c' \<noteq> Some x"
    and line: "oc_line c = Some x"
  shows "moving t M os (map g ls) (cs @ [c])"
proof (rule movingI)
  have live: "live os (g l) = live os l" for l using g(1) by (simp add: live_def)
  obtain l0 where l0: "l0 \<in> set ls" "ol_id l0 = x" "ol_tenant l0 = t" "live os l0" using movingD(8) [OF M insertI1] by blast
  show "distinct (map ol_id (map g ls))" using movingD(2) [OF M] g(1) by (simp add: comp_def)
  show "distinct (map oc_id (cs @ [c]))" using movingD(3) [OF M] new(1) by simp
  show "owned os l" if "l \<in> set (map g ls)" for l using that movingD(4) [OF M] g(1) by (auto simp: owned_def)
  show "\<exists>c\<in>set (cs @ [c]). covers l c" if l: "l \<in> set (map g ls)" "live os l" "\<not> (ol_tenant l = t \<and> ol_id l \<in> M)" for l
  proof -
    obtain k where k: "k \<in> set ls" "l = g k" using l(1) by auto
    show ?thesis
    proof (cases "ol_tenant k = t \<and> ol_id k = x")
      case True
      then show ?thesis using new(3) k(2) by auto
    next
      case False
      then have "l = k" using g(2) k(2) by simp
      moreover have "\<not> (ol_tenant k = t \<and> ol_id k \<in> insert x M)" using False l(3) calculation by auto
      ultimately show ?thesis using movingD(5) [OF M k(1)] l(2) by auto
    qed
  qed
  show "\<exists>l\<in>set (map g ls). live os l \<and> covers l c'"
    if c': "c' \<in> set (cs @ [c])" "oc_released c' = None" "oc_line c' = Some i" for c' i
  proof (cases "c' = c")
    case True
    have "g l0 \<in> set (map g ls)" "live os (g l0)" "covers (g l0) c" using l0 live new(3) by simp_all
    then show ?thesis using True by blast
  next
    case False
    then have c: "c' \<in> set cs" using c'(1) by simp
    obtain l where l: "l \<in> set ls" "live os l" "covers l c'" using movingD(6) [OF M c c'(2,3)] by blast
    have "\<not> (ol_tenant l = t \<and> ol_id l = x)" using free [OF c c'(2)] l(3) by (auto simp: covers_def)
    then have "g l = l" using g(2) by blast
    then show ?thesis using l by force
  qed
  show "oc_line c' = None \<or> oc_amendment c' = None" if "c' \<in> set (cs @ [c])" for c'
    using that movingD(7) [OF M, of c'] new(2) by auto
  show "\<exists>l\<in>set (map g ls). ol_id l = y \<and> ol_tenant l = t \<and> live os l" if y: "y \<in> M" for y
  proof -
    obtain l where "l \<in> set ls" "ol_id l = y" "ol_tenant l = t" "live os l" using movingD(8) [OF M insertI2 [OF y]] by blast
    then show ?thesis using live g(1) by (intro bexI [of _ "g l"]) simp_all
  qed
qed (use movingD(1) [OF M] in blast)

lemma apply_line_effect:
  assumes "apply_line t i unpaid l E d = Inr (x, d')"
  shows "\<exists>now j. bookings d' = (orders d,
      map (change_line (\<lambda>r. ol_tenant r = t \<and> ol_id r = al_line (fst l)) (move_line unpaid l now)) (order_lines d),
      occupancies d @ [moved_occupancy t i l j]) \<and> j \<notin> oc_id ` set (occupancies d) \<and>
    (\<forall>c\<in>set (occupancies d). oc_released c = None \<longrightarrow> oc_tenant c = t \<longrightarrow> oc_line c \<noteq> Some (al_line (fst l)))"
proof -
  let ?P = "\<lambda>r. ol_tenant r = t \<and> ol_id r = al_line (fst l)"
  obtain y d1 j d2 where 1: "update_lines ?P (move_line unpaid l) E d = Inr (y, d1)"
    and 2: "d2 = d1\<lparr>uuids := Suc (uuids d1)\<rparr>" and 3: "insert_occupancy (moved_occupancy t i l j) E d2 = Inr (x, d')"
    using assms unfolding apply_line_def tseq_Inr tbind_Inr tuuid_Inr prod.inject by blast
  obtain now where "bookings d1 = (orders d, map (change_line ?P (move_line unpaid l now)) (order_lines d), occupancies d)"
    using update_lines_effect [OF 1] by blast
  then have d2: "orders d2 = orders d" "order_lines d2 = map (change_line ?P (move_line unpaid l now)) (order_lines d)"
    "occupancies d2 = occupancies d"
    using 2 by (simp_all add: bookings_def)
  show ?thesis
    using 3 unfolding insert_occupancy_Inr d2 by (intro exI [of _ now] exI [of _ j]) (auto simp: moved_occupancy_def bookings_def d2)
qed

definition moving_db :: "string \<Rightarrow> string set \<Rightarrow> order_row list \<Rightarrow> db \<Rightarrow> bool" where
  "moving_db t M os d \<longleftrightarrow> orders d = os \<and> moving t M os (order_lines d) (occupancies d)"

lemma apply_line_moving:
  "ensures (moving_db t (insert (al_line (fst l)) M) os) (apply_line t i unpaid l) (\<lambda>_. moving_db t M os)"
proof (rule ensuresI)
  fix E d x d' assume I: "moving_db t (insert (al_line (fst l)) M) os d" and run: "apply_line t i unpaid l E d = Inr (x, d')"
  let ?P = "\<lambda>r. ol_tenant r = t \<and> ol_id r = al_line (fst l)"
  obtain now j where d': "bookings d' = (orders d, map (change_line ?P (move_line unpaid l now)) (order_lines d), occupancies d @ [moved_occupancy t i l j])"
    and fresh: "j \<notin> oc_id ` set (occupancies d)"
    and free: "\<forall>c\<in>set (occupancies d). oc_released c = None \<longrightarrow> oc_tenant c = t \<longrightarrow> oc_line c \<noteq> Some (al_line (fst l))"
    using apply_line_effect [OF run] by blast
  have "moving t M os (map (change_line ?P (move_line unpaid l now)) (order_lines d)) (occupancies d @ [moved_occupancy t i l j])"
  proof (rule moving_step [where x = "al_line (fst l)"])
    show "moving t (insert (al_line (fst l)) M) os (order_lines d) (occupancies d)" using I by (simp add: moving_db_def)
    show "oc_line c \<noteq> Some (al_line (fst l))" if "c \<in> set (occupancies d)" "oc_released c = None" "oc_tenant c = t" for c
      using free that by blast
    show "change_line ?P (move_line unpaid l now) k = k" if no: "\<not> (ol_tenant k = t \<and> ol_id k = al_line (fst l))" for k
      unfolding change_line_def by (rule if_not_P [OF no])
  qed (use fresh in \<open>simp_all add: change_line_def move_line_def moved_occupancy_def covers_def Let_def\<close>)
  then show "moving_db t M os d'" using d' I by (simp add: moving_db_def bookings_def)
qed

lemma apply_lines_moving:
  "ensures (moving_db t (set (map (al_line \<circ> fst) ts)) os) (teach (apply_line t i unpaid) ts) (\<lambda>_. moving_db t {} os)"
proof (induction ts)
  case Nil
  then show ?case by (auto simp: ensures_def tret_Inr)
next
  case (Cons l ts)
  then show ?case using ensures_tseq [OF apply_line_moving] by simp
qed

text \<open>The whole move, from the checked lines.\<close>

lemma moved_booked:
  "ensures (\<lambda>d. bookings_ok d \<and> orders d = os \<and> (\<forall>l\<in>set ts. line_in_place t (fst l) d)) (apply_move t i order unpaid ts)
     (\<lambda>_ d. bookings_ok d \<and> orders d = os)"
proof -
  have release: "ensures (\<lambda>d. bookings_ok d \<and> orders d = os \<and> (\<forall>l\<in>set ts. line_in_place t (fst l) d))
      (release_occupancies (original_or_held t i (map fst ts))) (\<lambda>_. moving_db t (set (map (al_line \<circ> fst) ts)) os)"
  proof (rule ensuresI)
    fix E d x d' assume I: "bookings_ok d \<and> orders d = os \<and> (\<forall>l\<in>set ts. line_in_place t (fst l) d)"
      and run: "release_occupancies (original_or_held t i (map fst ts)) E d = Inr (x, d')"
    obtain now where d': "bookings d' = (orders d, order_lines d, release_rows now (original_or_held t i (map fst ts)) (occupancies d))"
      using release_occupancies_effect [OF run] by blast
    have "moving t (set (map al_line (map fst ts))) os (order_lines d) (release_rows now (original_or_held t i (map fst ts)) (occupancies d))"
      by (rule moving_start) (use I in \<open>auto simp: bookings_ok_def line_in_place_def list_ex_iff\<close>)
    then show "moving_db t (set (map (al_line \<circ> fst) ts)) os d'"
      using d' I by (simp add: moving_db_def bookings_def)
  qed
  show ?thesis
    unfolding apply_move_def
    by (rule ensures_tseq [OF release], rule ensures_weaken [OF apply_lines_moving])
      (auto simp: moving_db_def moving_done bookings_ok_def)
qed

section \<open>The projections of the order\<close>

text \<open>An order that is open: it is held or confirmed.\<close>

definition opened :: "string \<Rightarrow> string \<Rightarrow> db \<Rightarrow> bool" where
  "opened t i d \<longleftrightarrow> bookings_ok d \<and> open_order t i (orders d)"

lemma open_order_row:
  assumes "open_order t i os" "distinct (map or_id os)" "r \<in> set os" "order_key t i r"
  shows "or_status r \<in> {Held, Confirmed}"
proof -
  obtain q where q: "q \<in> set os" "or_id q = i" "or_status q \<in> {Held, Confirmed}" using assms(1) by (auto simp: open_order_def)
  then show ?thesis using same_id [OF assms(2,3) q(1)] assms(4) by (simp add: order_key_def)
qed

lemma refresh_unpaid_booked: "ensures (opened t i) (refresh_unpaid_projection t i) (\<lambda>_. bookings_ok)"
proof (rule ensuresI)
  fix E d x d' assume I: "opened t i d" and "refresh_unpaid_projection t i E d = Inr (x, d')"
  then have run: "update_order t i (unpaid_projection (open_lines t i d)) E d = Inr (x, d')"
    unfolding refresh_unpaid_projection_def tbind_Inr tread_Inr by auto
  have B: "books (orders d) (order_lines d) (occupancies d)" and o: "open_order t i (orders d)"
    using I by (simp_all add: opened_def bookings_ok_def)
  obtain now where now: "bookings d' = (map (change_order t i (unpaid_projection (open_lines t i d) now)) (orders d), order_lines d, occupancies d)"
    using update_order_effect [OF run] by blast
  let ?f = "\<lambda>r. if or_status r \<in> {Held, Confirmed} then unpaid_projection (open_lines t i d) now r else r"
  have "map (change_order t i (unpaid_projection (open_lines t i d) now)) (orders d) = map (change_order t i ?f) (orders d)"
    using open_order_row [OF o booksD(1) [OF B]] by (auto simp: change_order_def)
  moreover have "release_rows n (takes_line t {}) cs = cs" for n cs by (simp add: release_rows_def takes_line_def)
  ultimately have d': "bookings d' = (map (change_order t i ?f) (orders d), map (\<lambda>l. l) (order_lines d),
      release_rows 0 (takes_line t (set [])) (occupancies d))"
    using now by simp
  show "bookings_ok d'"
    unfolding booked_bookings [OF d']
  proof (rule books_cancel_lines [OF B])
    fix r l assume "l \<in> set (order_lines d)" "ol_tenant l = t" "ol_order l = i" "ol_cancelled l = None"
    then have "open_lines t i d \<noteq> []" by (auto simp: open_lines_def lines_of_def filter_empty_conv)
    then show "or_status (?f r) \<in> {Held, Confirmed} \<longleftrightarrow> or_status r \<in> {Held, Confirmed}"
      by (simp add: unpaid_projection_def Let_def)
  qed (auto simp: cancels_lines_def unpaid_projection_def Let_def)
qed

lemma refresh_paid_booked: "keeps bookings_ok (tbind (tread (charged_lines t i)) (\<lambda>ls. update_order t i (paid_projection ls)))"
proof (intro keeps_intros keepsI)
  fix ls E d x d' assume I: "bookings_ok d" and run: "update_order t i (paid_projection ls) E d = Inr (x, d')"
  obtain now where d': "bookings d' = (map (change_order t i (paid_projection ls now)) (orders d), order_lines d, occupancies d)"
    using update_order_effect [OF run] by blast
  show "bookings_ok d'"
    unfolding booked_bookings [OF d']
    by (rule books_same_status [OF I [unfolded bookings_ok_def]]) (simp add: paid_projection_def Let_def)
qed

lemma refresh_projection_booked: "ensures (opened t i) (refresh_projection t i unpaid) (\<lambda>_. bookings_ok)"
proof (cases unpaid)
  case False
  have "ensures (opened t i) (tbind (tread (charged_lines t i)) (\<lambda>ls. update_order t i (paid_projection ls))) (\<lambda>_. bookings_ok)"
    by (rule ensures_pre [OF refresh_paid_booked [unfolded keeps_ensures]]) (simp add: opened_def)
  then show ?thesis using False by (simp add: refresh_projection_def)
qed (simp add: refresh_projection_def refresh_unpaid_booked)

section \<open>The amendments\<close>

lemma teach_guard_Inr:
  "teach (\<lambda>l. tbind (tread (f l)) (\<lambda>b. tguard b e)) ls E d = Inr r \<longleftrightarrow> (\<forall>l\<in>set ls. f l d) \<and> r = ((), d)"
  by (induction ls) (auto simp: tret_Inr tseq_Inr tbind_Inr tread_Inr tguard_Inr)

lemma keeps_opened_same: "(\<And>b. keeps (\<lambda>d. bookings d = b) m) \<Longrightarrow> keeps (opened t i) m"
  by (rule keepsI) (metis opened_def booked_same same_bookings bookings_def prod.inject)

lemma line_in_place_same: "bookings d' = bookings d \<Longrightarrow> line_in_place t l d' = line_in_place t l d"
  by (simp add: bookings_def line_in_place_def)

lemma assert_unpaid_editable_Inr:
  "assert_unpaid_editable t r E d = Inr (x, d') \<Longrightarrow> or_status r = Held \<and> or_payment r = Unpaid"
  by (auto simp: assert_unpaid_editable_def ok_iff)

lemma apply_checks_Inr:
  assumes "apply_checks t a m r ts E d = Inr (x, d')"
  shows "bookings d' = bookings d" "or_status r \<in> {Held, Confirmed}" "\<forall>l\<in>set ts. line_in_place t (fst l) d'"
proof -
  show "bookings d' = bookings d" by (rule same_bookings [OF bookings_reads [OF reads_apply_checks] assms])
  obtain y d1 z d2 where 1: "(if am_unpaid m then assert_unpaid_editable t r
        else tguard (or_status r = Confirmed) (AmendmentErr OrderNotAmendable)) E d1 = Inr (y, d2)"
    and 2: "teach (\<lambda>l. tbind (tread (line_in_place t (fst l))) (\<lambda>live. tguard live (AmendmentErr AmStaleOrder))) ts E z = Inr (x, d')"
    using assms unfolding apply_checks_def tseq_Inr tbind_Inr by blast
  show "or_status r \<in> {Held, Confirmed}"
    using 1 by (cases "am_unpaid m") (auto simp: tguard_Inr dest: assert_unpaid_editable_Inr)
  show "\<forall>l\<in>set ts. line_in_place t (fst l) d'" using 2 unfolding teach_guard_Inr by simp
qed

lemma carry_out_booked:
  assumes "open_order t (or_id r) os"
  shows "ensures (\<lambda>d. bookings_ok d \<and> orders d = os \<and> (\<forall>l\<in>set ts. line_in_place t (fst l) d)) (carry_out t i a am r ts) (\<lambda>_. bookings_ok)"
  unfolding carry_out_def Let_def
proof (rule ensures_tseq [OF moved_booked], rule ensures_pre [where P = "opened t (or_id r)"],
    rule ensures_after(1) [OF keeps_opened_same [OF bookings_wallet.keeps_counters(1)]],
    rule ensures_after(2) [OF keeps_tguard], rule ensures_after(2) [OF keeps_opened_same [OF bookings_updates(2)]],
    rule ensures_tseq [OF refresh_projection_booked])
  show "ensures bookings_ok (tseq (twhen (approved_refunds (ad_lines am) \<noteq> [])
         (tbind (create_refund_group a (or_id r) (am_reason (ad_row am)) (approved_refunds (ad_lines am)) (Some i)) (\<lambda>_. tret ())))
      (tseq (twhen (\<not> am_unpaid (ad_row am)) (refresh_order_payment_status t (or_id r)))
      (record_tenant_audit a ''amendment.apply'' i [(''orderId'', JStr (or_id r)),
         (''supplementalCents'', JNum (am_supplemental (ad_row am))), (''approvedRefundCents'', j_opt JNum (am_approved (ad_row am)))])))
      (\<lambda>_. bookings_ok)"
    unfolding keeps_ensures [symmetric]
    by (intro keeps_intros bookings_refunds.inv_refund_group bookings_refunds.inv_refresh bookings_staff.inv_audit TrueI)
qed (use assms in \<open>simp add: opened_def\<close>)

lemma apply_amendment_booked: "keeps bookings_ok (apply_amendment t i)"
proof (rule keepsI)
  fix E d x d' assume I: "bookings_ok d" and run: "apply_amendment t i E d = Inr (x, d')"
  obtain am d1 where 1: "amendment_in_transaction t i E d = Inr (am, d1)" using run unfolding apply_amendment_def tbind_Inr by blast
  have b1: "bookings d1 = bookings d" by (rule same_bookings [OF bookings_reads [OF reads_order_readers(4)] 1])
  let ?m = "ad_row am" and ?a = "staff_actor t (am_created_by (ad_row am))"
  have tail: "(if am_status ?m = AmApplied then tret () else
       tseq (tguard (am_status ?m \<in> {AmQuoted, AmAwaiting}) (AmendmentErr AmendmentNotPayable))
       (tbind (order_in_transaction ?a (am_order ?m)) (\<lambda>w.
       tbind (tlift IntervalErr (mapE timed_line (ad_lines am))) (\<lambda>ts.
       tseq (apply_checks t ?a ?m (ow_row w) ts) (carry_out t i ?a am (ow_row w) ts))))) E d1 = Inr (x, d')"
    using run 1 by (simp add: apply_amendment_def tbind_def [of "amendment_in_transaction t i"] Let_def)
  show "bookings_ok d'"
  proof (cases "am_status ?m = AmApplied")
    case True
    then have "d' = d1" using tail by (simp add: tret_Inr)
    then show ?thesis using I booked_same [OF b1] by simp
  next
    case False
    obtain w d2 ts u d3 where 2: "order_in_transaction ?a (am_order ?m) E d1 = Inr (w, d2)"
      and 3: "apply_checks t ?a ?m (ow_row w) ts E d2 = Inr (u, d3)" and 4: "carry_out t i ?a am (ow_row w) ts E d3 = Inr (x, d')"
      using tail unfolding if_not_P [OF False] tseq_Inr tbind_Inr tguard_Inr tlift_Inr prod.inject by blast
    note w = order_in_transaction_Inr [OF 2] and c = apply_checks_Inr [OF 3]
    have b: "bookings d3 = bookings d" using c(1) w(1) b1 by simp
    have "ow_row w \<in> set (orders d1)" "or_tenant (ow_row w) = t"
      using w(3,4) by (auto simp: find_order_def find_Some_iff)
    then have o: "open_order t (or_id (ow_row w)) (orders d3)"
      using c(2) b b1 by (auto simp: open_order_def bookings_def)
    show ?thesis
      by (rule ensuresD [OF carry_out_booked [OF o] _ 4]) (use I c(3) booked_same [OF b] in simp)
  qed
qed

lemma open_row: "find_order t i d = Some r \<Longrightarrow> or_status r \<in> {Held, Confirmed} \<Longrightarrow> open_order t i (orders d)"
  by (auto simp: find_order_def find_Some_iff order_key_def open_order_def)

lemma hold_coverage_booked: "keeps bookings_ok (hold_new_coverage t i ts)"
  unfolding hold_new_coverage_def hold_span_def
  by (intro keeps_intros bookings_staff.keeps_counters bookings_staff.inv_staff_insert) simp_all

lemma cancel_unpaid_lines_booked: "keeps bookings_ok (cancel_unpaid_lines_work a i expected ids reason)"
proof (rule keepsI)
  fix E d x d' assume I: "bookings_ok d" and run: "cancel_unpaid_lines_work a i expected ids reason E d = Inr (x, d')"
  let ?t = "ac_tenant a" and ?P = "\<lambda>l. ol_tenant l = ac_tenant a \<and> ol_order l = i \<and> ol_id l \<in> set ids"
  let ?rest = "\<lambda>r. tbind tclock (\<lambda>now. tseq (tguard (held_after r now) (AmendmentErr OrderNotAmendable))
      (tseq (refresh_unpaid_projection ?t (or_id r))
      (tseq (record_tenant_audit a ''order.cancel_unpaid_lines'' (or_id r) [(''reason'', JStr (js_trim reason)),
          (''lineIds'', line_ids_json ids), (''previousTotalCents'', JNum (or_total r))]) (tret (order_result (or_id r))))))"
  obtain w d1 y1 d2 y2 d3 y3 d4 y4 d5 where 1: "order_in_transaction a i E d = Inr (w, d1)"
    and 2: "assert_unpaid_editable ?t (ow_row w) E d1 = Inr (y1, d2)"
    and 3: "assert_no_pending_amendment ?t (or_id (ow_row w)) E d2 = Inr (y2, d3)"
    and open_ids: "\<not> list_ex (\<lambda>k. \<not> list_ex (\<lambda>l. ol_id l = k \<and> ol_cancelled l = None) (ow_lines w)) ids"
    and 4: "update_lines (\<lambda>l. ol_tenant l = ?t \<and> ol_order l = or_id (ow_row w) \<and> ol_id l \<in> set ids) drop_unpaid_line E d3 = Inr (y3, d4)"
    and 5: "release_occupancies (\<lambda>c. oc_tenant c = ?t \<and> (\<exists>l\<in>set ids. oc_line c = Some l)) E d4 = Inr (y4, d5)"
    and 6: "?rest (ow_row w) E d5 = Inr (x, d')"
    using run unfolding cancel_unpaid_lines_work_def Let_def tbind_Inr [of "order_in_transaction _ _"] tseq_Inr [of "tguard _ _"]
      tseq_Inr [of "assert_unpaid_editable _ _"] tseq_Inr [of "assert_no_pending_amendment _ _"] tseq_Inr [of "update_lines _ _"]
      tseq_Inr [of "release_occupancies _"] tguard_Inr prod.inject by blast
  note w = order_in_transaction_Inr [OF 1]
  have b3: "bookings d3 = bookings d"
    using same_bookings [OF bookings_reads [OF reads_amendment_checks(2)] 2] same_bookings [OF bookings_reads [OF reads_order_readers(6)] 3] w(1) by simp
  obtain now where d4: "bookings d4 = (orders d3, map (change_line ?P (drop_unpaid_line now)) (order_lines d3), occupancies d3)"
    using update_lines_effect [OF 4] w(2) by auto
  obtain now' where "bookings d5 = (orders d4, order_lines d4, release_rows now' (takes_line ?t (set ids)) (occupancies d4))"
    using release_occupancies_effect [OF 5] by (auto simp: takes_line_def [abs_def])
  with b3 d4 have d5: "bookings d5 = (map (change_order ?t i (\<lambda>r. r)) (orders d), map (change_line ?P (drop_unpaid_line now)) (order_lines d),
      release_rows now' (takes_line ?t (set ids)) (occupancies d))"
    by (simp add: bookings_def)
  have "bookings_ok d5"
    unfolding booked_bookings [OF d5]
  proof (rule books_cancel_lines [OF I [unfolded bookings_ok_def]])
    show "cancels_lines ?t i ids (order_lines d)"
      using open_ids w(5) by (auto simp: cancels_lines_def lines_of_def list_ex_iff)
  qed (auto simp: change_line_def drop_unpaid_line_def)
  moreover have "or_status (ow_row w) \<in> {Held, Confirmed}" using assert_unpaid_editable_Inr [OF 2] by simp
  then have "open_order ?t i (orders d)" using open_row w(4) w(2) by (metis find_order_def find_Some_iff order_key_def)
  then have "open_order ?t i (orders d5)" using d5 by (simp add: bookings_def)
  ultimately have o: "opened ?t (or_id (ow_row w)) d5" using w(2) by (simp add: opened_def)
  have closing: "ensures (opened ?t (or_id (ow_row w))) (?rest (ow_row w)) (\<lambda>_. bookings_ok)"
    by (rule ensures_after(1) [OF keeps_opened_same [OF bookings_wallet.keeps_counters(1)]], rule ensures_after(2) [OF keeps_tguard],
      rule ensures_tseq [OF refresh_unpaid_booked], unfold keeps_ensures [symmetric],
      intro keeps_intros bookings_staff.inv_audit TrueI)
  show "bookings_ok d'" by (rule ensuresD [OF closing o 6])
qed

section \<open>The payments\<close>

lemma bookings_payment_rows:
  "keeps (\<lambda>d. bookings d = b) (insert_exception x)" "keeps (\<lambda>d. bookings d = b) (insert_payment_event e)"
  "keeps (\<lambda>d. bookings d = b) (insert_external_receipt r)" "keeps (\<lambda>d. bookings d = b) (insert_payment p)"
  "keeps (\<lambda>d. bookings d = b) (insert_amendment m)" "keeps (\<lambda>d. bookings d = b) (insert_amendment_line l)"
  "keeps (\<lambda>d. bookings d = b) (approve_line t i k n)"
  by (auto simp: keeps_def amendment_table_defs payment_table_defs ok_iff bookings_def)

text \<open>What a payment does but for the order leaves an open order open.\<close>

interpretation bookings_open: payment_money "opened t i" "\<lambda>_. True" for t i
proof
  show "opened t i (d\<lparr>ticks := n\<rparr>)" "opened t i (d\<lparr>uuids := n\<rparr>)" if "opened t i d" for d n
    using that by (simp_all add: opened_def bookings_ok_def)
qed (intro keeps_opened_same bookings_payment_rows bookings_updates bookings_channels.keeps_channel bookings_wallet.inv_audit
    bookings_wallet.keeps_settle bookings_wallet.keeps_reserve bookings_wallet.keeps_credit bookings_wallet.inv_wallet_account TrueI)+

lemma paid_order_open: "keeps (opened t i) (update_order t i paid_order)"
proof (rule keepsI)
  fix E d x d' assume I: "opened t i d" and run: "update_order t i paid_order E d = Inr (x, d')"
  have B: "books (orders d) (order_lines d) (occupancies d)" and o: "open_order t i (orders d)"
    using I by (simp_all add: opened_def bookings_ok_def)
  obtain now where now: "bookings d' = (map (change_order t i (paid_order now)) (orders d), order_lines d, occupancies d)"
    using update_order_effect [OF run] by blast
  let ?os = "map (change_order t i (paid_order now)) (orders d)"
  have row: "or_status r \<in> {Held, Confirmed}" if "r \<in> set (orders d)" "order_key t i r" for r
    using open_order_row [OF o booksD(1) [OF B] that] .
  have "live ?os l = live (orders d) l" for l
  proof -
    have "(or_status (change_order t i (paid_order now) r) = Held \<or> or_status (change_order t i (paid_order now) r) = Confirmed) =
        (or_status r = Held \<or> or_status r = Confirmed)" if "r \<in> set (orders d)" for r
      using row [OF that] by (auto simp: change_order_def paid_order_def)
    moreover have "or_tenant (change_order t i (paid_order now) r) = or_tenant r \<and> or_id (change_order t i (paid_order now) r) = or_id r" for r
      by (simp add: change_order_def paid_order_def)
    ultimately show ?thesis by (simp add: live_def)
  qed
  moreover have "owned ?os l = owned (orders d) l" for l
    by (rule owned_map) (simp add: change_order_def paid_order_def)
  moreover have "map or_id ?os = map or_id (orders d)" by (simp add: change_order_def paid_order_def)
  ultimately have "books ?os (order_lines d) (occupancies d)" using B unfolding books_def by (simp del: map_map)
  moreover obtain r where r: "r \<in> set (orders d)" "or_tenant r = t" "or_id r = i" using o by (auto simp: open_order_def)
  have "paid_order now r \<in> set ?os" using r by (force simp: change_order_def order_key_def)
  then have "open_order t i ?os"
    unfolding open_order_def by (rule bexI [rotated]) (simp add: r paid_order_def)
  ultimately show "opened t i d'" using now by (simp add: opened_def bookings_ok_def bookings_def)
qed

lemma opened_ensures: "keeps (opened t i) m \<Longrightarrow> ensures (opened t i) m (\<lambda>_. bookings_ok)"
  unfolding keeps_ensures by (erule ensures_weaken) (simp add: opened_def)

lemma tseq_guardD: "tseq (tguard b e) n E d = Inr r \<Longrightarrow> b"
  by (simp add: tseq_Inr tguard_Inr)

lemma order_payment_booked: "keeps bookings_ok (order_payment_work a gw v i wallet reason)"
proof (rule keepsI)
  fix E d x d' assume I: "bookings_ok d" and run: "order_payment_work a gw v i wallet reason E d = Inr (x, d')"
  let ?t = "ac_tenant a"
  obtain w d1 where 1: "order_in_transaction a i E d = Inr (w, d1)" using run unfolding order_payment_work_def Let_def tbind_Inr by blast
  note w = order_in_transaction_Inr [OF 1]
  let ?r = "ow_row w"
  let ?rest = "tbind (require_customer a (or_customer ?r)) (\<lambda>_.
     tseq (tguard (\<not> (or_status ?r \<noteq> Held \<or> or_payment ?r \<noteq> Unpaid)) (WalletErr OrderNotPayable))
     (tseq (tguard (\<not> wallet > or_total ?r) (WalletErr InvalidWalletAmount))
     (tbind (tread (has_pending_payment ?t (or_id ?r))) (\<lambda>pending.
     tseq (tguard (\<not> pending) (WalletErr PaymentAlreadyPending))
     (tbind (take_payment a gw v (or_customer ?r) (or_id ?r) None (or_total ?r - wallet) wallet (\<lambda>_. order_still_held ?t (or_id ?r)) (or_hold_until ?r)
        (\<lambda>_. update_order ?t (or_id ?r) paid_order)) (\<lambda>(p, b).
      tseq (record_tenant_audit a ''payment.begin'' p [(''orderId'', JStr (or_id ?r)), (''walletCents'', JNum wallet),
          (''externalCents'', JNum (or_total ?r - wallet)), (''provider'', provider_json b), (''staffReason'', j_opt JStr reason)])
      (tret (payment_result p))))))))"
  have tail: "?rest E d1 = Inr (x, d')"
    using run 1 by (simp add: order_payment_work_def tbind_def [of "order_in_transaction a i"] Let_def)
  then have "or_status ?r = Held"
    unfolding tbind_Inr [of "require_customer _ _"] by (elim exE conjE) (drule tseq_guardD, simp)
  then have "open_order ?t i (orders d)" using open_row w(4) by blast
  then have o: "opened ?t i d1" using w(1) I by (simp add: opened_def)
  have keep: "keeps (opened ?t i) ?rest"
    unfolding w(2)
    by (intro keeps_intros paid_order_open bookings_open.keeps_take_payment bookings_open.keeps_payment_readers bookings_open.inv_audit TrueI)
  have "opened ?t i d'" using keep o tail by (rule keepsD)
  then show "bookings_ok d'" by (simp add: opened_def)
qed

text \<open>The order that the provider's answer is about, as it was read.\<close>

definition current_order :: "string \<Rightarrow> string \<Rightarrow> order_row \<Rightarrow> db \<Rightarrow> bool" where
  "current_order t i r d \<longleftrightarrow> bookings_ok d \<and> find_order t i d = Some r"

lemma keeps_current_same: "(\<And>b. keeps (\<lambda>d. bookings d = b) m) \<Longrightarrow> keeps (current_order t i r) m"
  by (rule keepsI) (metis current_order_def booked_same same_bookings bookings_def prod.inject find_order_def)

interpretation bookings_current: payment_money "current_order t i r" "\<lambda>_. True" for t i r
proof
  show "current_order t i r (d\<lparr>ticks := n\<rparr>)" "current_order t i r (d\<lparr>uuids := n\<rparr>)" if "current_order t i r d" for d n
    using that by (simp_all add: current_order_def bookings_ok_def find_order_def)
qed (intro keeps_current_same bookings_payment_rows bookings_updates bookings_channels.keeps_channel bookings_wallet.inv_audit
    bookings_wallet.keeps_settle bookings_wallet.keeps_reserve bookings_wallet.keeps_credit bookings_wallet.inv_wallet_account TrueI)+

lemma current_ok: "keeps bookings_ok m \<Longrightarrow> ensures (current_order t i r) m (\<lambda>_. bookings_ok)"
  unfolding keeps_ensures by (erule ensures_pre) (simp add: current_order_def)

lemma current_open:
  assumes "or_status r \<in> {Held, Confirmed}" "or_id r = i \<Longrightarrow> keeps (opened t i) m"
  shows "ensures (current_order t i r) m (\<lambda>_. bookings_ok)"
proof (rule ensuresI)
  fix E d x d' assume I: "current_order t i r d" and run: "m E d = Inr (x, d')"
  have "open_order t i (orders d)" using I assms(1) by (intro open_row) (simp_all add: current_order_def)
  then have "opened t i d" "or_id r = i"
    using I by (auto simp: current_order_def opened_def find_order_def find_Some_iff order_key_def)
  then show "bookings_ok d'" using keepsD [OF assms(2) _ run] by (simp add: opened_def)
qed

interpretation bookings_money: payment_money bookings_ok "\<lambda>_. True"
  by unfold_locales (intro keeps_booked_same bookings_payment_rows bookings_updates bookings_channels.keeps_channel
    bookings_wallet.keeps_settle bookings_wallet.keeps_reserve bookings_wallet.keeps_credit bookings_wallet.inv_wallet_account TrueI)+

interpretation bookings_amendments: amendment_invariant bookings_ok "\<lambda>_. True"
  by unfold_locales (intro keeps_booked_same bookings_payment_rows bookings_updates apply_amendment_booked hold_coverage_booked
    cancel_unpaid_lines_booked)+

lemma settle_amendment_booked: "keeps bookings_ok (settle_amendment t r p i v)"
  unfolding settle_amendment_def Let_def
  by (intro keeps_intros keeps_attempt bookings_booking.keeps_order_readers bookings_money.inv_settle bookings_money.inv_set_payment
      apply_amendment_booked release_amendment_booked bookings_money.keeps_for_refund same_rows TrueI)

lemma payment_succeeded_booked: "ensures (current_order t i r) (payment_succeeded t r p v) (\<lambda>_. bookings_ok)"
  unfolding payment_succeeded_def
proof (rule ensures_after(2) [OF bookings_current.keeps_claim_payment [OF TrueI]])
  let ?pay = "tseq (settle_wallet_reservation t (py_customer p) (py_id p) True)
       (tseq (update_payment t (py_id p) (paid_payment (ev_transaction v)))
       (tseq (update_order t (or_id r) paid_order) (tret ''SUCCEEDED'')))"
  have paid: "ensures (current_order t i r) ?pay (\<lambda>_. bookings_ok)" if "or_status r = Held"
  proof (rule current_open)
    show "keeps (opened t i) ?pay" if "or_id r = i"
      unfolding that
      by (intro keeps_intros paid_order_open bookings_open.inv_settle bookings_open.inv_set_payment same_rows TrueI)
  qed (simp add: that)
  have other: "ensures (current_order t i r) (keep_for_refund t p v) (\<lambda>_. bookings_ok)"
    "ensures (current_order t i r) (settle_amendment t r p k v) (\<lambda>_. bookings_ok)"
    "ensures (current_order t i r) (if Some y = ev_transaction v then tret ''DUPLICATE_EVENT''
          else tseq (financial_exception t p v DuplicatePayment) (tret ''REFUND_REQUIRED'')) (\<lambda>_. bookings_ok)" for k y
    by (intro current_ok bookings_money.keeps_for_refund settle_amendment_booked keeps_intros bookings_money.keeps_exception TrueI)+
  show "ensures (current_order t i r) (case py_transaction p of
        Some x \<Rightarrow> if Some x = ev_transaction v then tret ''DUPLICATE_EVENT''
          else tseq (financial_exception t p v DuplicatePayment) (tret ''REFUND_REQUIRED'')
      | None \<Rightarrow> (case py_amendment p of
             Some i \<Rightarrow> settle_amendment t r p i v
           | None \<Rightarrow> if py_status p = Pending \<and> or_status r = Held \<and> or_payment r = Unpaid then ?pay else keep_for_refund t p v))
      (\<lambda>_. bookings_ok)"
    using paid other by (auto split: option.split)
qed

lemma payment_failed_booked: "keeps bookings_ok (payment_failed t r p)"
proof -
  have closed: "keeps bookings_ok (tseq (case py_amendment p of Some i \<Rightarrow> release_amendment_in_transaction t i LapseCancelled
      | None \<Rightarrow> tseq (release_order_inventory t (or_id r))
          (tseq (update_lines (open_line_of t (or_id r)) cancel_line) (update_order t (or_id r) cancelled_order))) (tret ''FAILED''))"
    by (intro keeps_intros release_amendment_booked close_order_booked)
  show ?thesis
    unfolding payment_failed_def
    by (intro keeps_tseq closed bookings_money.inv_settle bookings_money.inv_set_payment same_rows TrueI)
qed

lemma payment_outcome_booked: "ensures (current_order t i r) (payment_outcome t r p e) (\<lambda>_. bookings_ok)"
  unfolding payment_outcome_def
  by (simp add: payment_succeeded_booked current_ok payment_failed_booked keeps_tret)

interpretation bookings_payments: payment_invariant bookings_ok "\<lambda>_. True"
proof
  show "keeps bookings_ok (order_payment_work a gw v i wallet reason)" for a gw v i wallet reason
    by (rule order_payment_booked)
  show "ensures (\<lambda>d. bookings_ok d \<and> find_order t i d = Some r) (payment_outcome t r p e) (\<lambda>_. bookings_ok)" for t i r p e
    by (rule payment_outcome_booked [unfolded current_order_def [abs_def]])
qed

end
