(* ===== verification/Amending.thy ===== *)
theory Amending
  imports Amended
begin

text \<open>
  The arithmetic of an amendment: what is charged and given back line by line, and the court time
  that is held while a supplement is awaited.
\<close>

section \<open>The money of an amendment\<close>

lemma fund_lines_parts:
  assumes "fund_lines unpaid remaining ls = Inr (ms, supplemental, back_cents)"
  defines "inc \<equiv> map (line_increase unpaid) ls" and "credit \<equiv> map (line_credit remaining) ls"
  obtains ts where "allocate_cents (min (sum_list inc) (sum_list credit)) credit = Inr ts"
    "ms = map funded_line (zip ls (zip inc (zip credit ts)))"
    "supplemental = max 0 (sum_list inc - sum_list credit)" "back_cents = max 0 (sum_list credit - sum_list inc)"
  using assms by (auto simp: fund_lines_def Let_def ok_iff split: sum.splits)

lemma sum_funded:
  assumes "length inc = length ls" "length credit = length ls" "length ts = length ls"
  shows "sum_list (map al_cap_delta (map funded_line (zip ls (zip inc (zip credit ts))))) = sum_list inc - sum_list ts"
    "sum_list (map al_suggested (map funded_line (zip ls (zip inc (zip credit ts))))) = sum_list credit - sum_list ts"
  using assms
proof (induction ls arbitrary: inc credit ts)
  case (Cons l ls)
  case 1
  then show ?case using Cons by (cases inc; cases credit; cases ts) (simp_all add: funded_line_def)
next
  case (Cons l ls)
  case 2
  then show ?case using Cons by (cases inc; cases credit; cases ts) (simp_all add: funded_line_def)
qed simp_all


definition sample_change :: "string \<Rightarrow> cents \<Rightarrow> cents \<Rightarrow> amendment_line_row" where
  "sample_change l old new_price =
     \<lparr>al_tenant = ''t'', al_amendment = ''a'', al_line = l, al_old_court = ''c1'', al_old_start = 0, al_old_end = 3600000, al_old_amount = old,
      al_new = \<lparr>start_at = ''1970-01-01T00:30Z'', end_at = ''1970-01-01T01:30Z'', cp_court = ''c1'', cp_venue = ''v'', cp_total = new_price, cp_segments = []\<rparr>,
      al_occupancy = ''o'', al_cap_delta = 0, al_suggested = 0, al_approved = None\<rparr>"


section \<open>The court time that is held\<close>

definition apart :: "span list \<Rightarrow> bool" where
  "apart ps \<longleftrightarrow> list_all (\<lambda>p. fst p < snd p) ps \<and> sorted_wrt (\<lambda>p q. snd p \<le> fst q) ps"

lemma cut_span_time: "spans (cut_span s e p) = span p - {s..<e}"
  by (cases p) (auto simp: cut_span_def span_def)

lemma cut_span_within: "q \<in> set (cut_span s e p) \<Longrightarrow> fst p \<le> fst q \<and> snd q \<le> snd p"
  by (auto simp: cut_span_def split: if_splits)

lemma cut_span_apart: "s < e \<Longrightarrow> fst p < snd p \<Longrightarrow> apart (cut_span s e p)"
  by (auto simp: cut_span_def apart_def)

lemma cut_all_spans: "spans (concat (map (cut_span s e) ps)) = spans ps - {s..<e}"
  by (induction ps) (auto simp: cut_span_time)

lemma cut_all_apart: "s < e \<Longrightarrow> apart ps \<Longrightarrow> apart (concat (map (cut_span s e) ps))"
proof (induction ps)
  case (Cons p ps)
  have rest: "apart (concat (map (cut_span s e) ps))" using Cons by (simp add: apart_def)
  have this_one: "apart (cut_span s e p)" using Cons.prems by (intro cut_span_apart) (simp_all add: apart_def)
  have "snd q \<le> fst r" if "q \<in> set (cut_span s e p)" "r \<in> set (concat (map (cut_span s e) ps))" for q r
  proof -
    obtain k where k: "k \<in> set ps" "r \<in> set (cut_span s e k)" using \<open>r \<in> _\<close> by auto
    have "snd p \<le> fst k" using Cons.prems(2) k(1) by (simp add: apart_def)
    then show ?thesis using cut_span_within [OF k(2)] cut_span_within [OF that(1)] by linarith
  qed
  then show ?case using rest this_one by (auto simp: apart_def sorted_wrt_append)
qed (simp add: apart_def)

lemma cut_spans_exact:
  "(\<forall>o'\<in>set os. fst o' < snd o') \<Longrightarrow> apart ps \<Longrightarrow> spans (cut_spans os ps) = spans ps - spans os \<and> apart (cut_spans os ps)"
proof (induction os arbitrary: ps)
  case (Cons o' os)
  have "apart (concat (map (cut_span (fst o') (snd o')) ps))" using Cons.prems by (intro cut_all_apart) simp_all
  with Cons.IH [of "concat (map (cut_span (fst o') (snd o')) ps)"] Cons.prems(1)
  have *: "spans (cut_spans (o' # os) ps) = spans ps - {fst o'..<snd o'} - spans os" "apart (cut_spans (o' # os) ps)"
    by (simp_all add: cut_all_spans)
  have "span o' = {fst o'..<snd o'}" by (auto simp: span_def)
  then show ?case using * by auto
qed simp



end
