(* ===== verification/Spec2Isabelle.thy ===== *)
theory Spec2Isabelle
  imports CourtProfile Matching Amending
begin

text \<open>
  Tennis PMS: the tennis booking core of packages/domain and packages/db/src/tennis.
\<close>

end
